(* ===== verification/Go_Prelude.thy ===== *)
theory Go_Prelude
  imports Main "HOL-Library.Char_ord" "HOL-Library.List_Lexorder" "HOL-Library.Sublist"
begin

text \<open>
  The part of Go's standard library the repository computes with: byte strings (package
  \<open>strings\<close>), slash-separated paths (package \<open>path\<close>) and the path check of package \<open>io/fs\<close>.
  A Go string is a byte sequence, so it is a \<^typ>\<open>string\<close> here, one \<^typ>\<open>char\<close> a byte.
  The second half of the theory holds the facts on splitting, joining and cleaning paths
  that the component theories share.
\<close>

named_theorems path_facts

type_synonym bytes = string

abbreviation slash :: char where
  "slash \<equiv> CHR ''/''"

section \<open>Package strings\<close>

definition has_prefix :: "string \<Rightarrow> string \<Rightarrow> bool" where
  "has_prefix s p \<longleftrightarrow> take (length p) s = p"

definition has_suffix :: "string \<Rightarrow> string \<Rightarrow> bool" where
  "has_suffix s p \<longleftrightarrow> drop (length s - length p) s = p"

definition trim_prefix :: "string \<Rightarrow> string \<Rightarrow> string" where
  "trim_prefix s p = (if has_prefix s p then drop (length p) s else s)"

definition trim_left :: "char \<Rightarrow> string \<Rightarrow> string" where
  "trim_left c s = dropWhile (\<lambda>x. x = c) s"

definition trim_right :: "char \<Rightarrow> string \<Rightarrow> string" where
  "trim_right c s = rev (dropWhile (\<lambda>x. x = c) (rev s))"

definition trim_both :: "char \<Rightarrow> string \<Rightarrow> string" where
  "trim_both c s = trim_right c (trim_left c s)"

text \<open>\<open>strings.Split\<close> at a one-byte separator, \<open>strings.Join\<close> and \<open>strings.Cut\<close>.\<close>

fun split_on :: "char \<Rightarrow> string \<Rightarrow> string list" where
  "split_on c [] = [[]]"
| "split_on c (x # xs) =
     (if x = c then [] # split_on c xs
      else (x # hd (split_on c xs)) # tl (split_on c xs))"

fun join_with :: "string \<Rightarrow> string list \<Rightarrow> string" where
  "join_with sep [] = []"
| "join_with sep [x] = x"
| "join_with sep (x # y # ys) = x @ sep @ join_with sep (y # ys)"

definition cut :: "char \<Rightarrow> string \<Rightarrow> string \<times> string \<times> bool" where
  "cut c s = (takeWhile (\<lambda>x. x \<noteq> c) s, drop 1 (dropWhile (\<lambda>x. x \<noteq> c) s), c \<in> set s)"

text \<open>\<open>strings.LastIndexByte\<close>, with \<^const>\<open>None\<close> for -1.\<close>

definition last_index :: "char \<Rightarrow> string \<Rightarrow> nat option" where
  "last_index c s =
     (if c \<in> set s then Some (length s - 1 - length (takeWhile (\<lambda>x. x \<noteq> c) (rev s)))
      else None)"

abbreviation is_lower :: "char \<Rightarrow> bool" where
  "is_lower c \<equiv> CHR ''a'' \<le> c \<and> c \<le> CHR ''z''"

abbreviation is_upper :: "char \<Rightarrow> bool" where
  "is_upper c \<equiv> CHR ''A'' \<le> c \<and> c \<le> CHR ''Z''"

definition to_lower :: "string \<Rightarrow> string" where
  "to_lower = map (\<lambda>c. if is_upper c then char_of (of_char c + 32 :: nat) else c)"

text \<open>\<open>strconv.FormatUint\<close> in base ten, and \<open>strconv.ParseUint\<close> in base ten with a bit size:
  \<^const>\<open>None\<close> stands for the syntax and the range error.\<close>

definition digit_char :: "nat \<Rightarrow> char" where
  "digit_char d = char_of (48 + d)"

definition is_digit :: "char \<Rightarrow> bool" where
  "is_digit c \<longleftrightarrow> CHR ''0'' \<le> c \<and> c \<le> CHR ''9''"

definition digit_val :: "char \<Rightarrow> nat" where
  "digit_val c = of_char c - 48"

fun format_uint :: "nat \<Rightarrow> string" where
  "format_uint n =
     (if n < 10 then [digit_char n] else format_uint (n div 10) @ [digit_char (n mod 10)])"

declare format_uint.simps [simp del]

definition format_int :: "int \<Rightarrow> string" where
  "format_int i = (if i < 0 then CHR ''-'' # format_uint (nat (- i)) else format_uint (nat i))"

definition digits_val :: "string \<Rightarrow> nat" where
  "digits_val s = foldl (\<lambda>n c. 10 * n + digit_val c) 0 s"

definition parse_uint :: "nat \<Rightarrow> string \<Rightarrow> nat option" where
  "parse_uint bits s =
     (if s = [] \<or> \<not> list_all is_digit s then None
      else if digits_val s < 2 ^ bits then Some (digits_val s) else None)"

text \<open>\<open>strconv.ParseInt\<close> in base ten, and \<open>strings.TrimSpace\<close> (of its spaces, the ASCII ones).\<close>

definition parse_int :: "nat \<Rightarrow> string \<Rightarrow> int option" where
  "parse_int bits s =
     (let neg = has_prefix s ''-''; ds = (if neg \<or> has_prefix s ''+'' then tl s else s) in
      if ds = [] \<or> \<not> list_all is_digit ds then None
      else
        (let v = (if neg then - int (digits_val ds) else int (digits_val ds)) in
         if - (2 ^ (bits - 1)) \<le> v \<and> v < 2 ^ (bits - 1) then Some v else None))"

definition is_space :: "char \<Rightarrow> bool" where
  "is_space c \<longleftrightarrow> c = CHR '' '' \<or> CHR 0x09 \<le> c \<and> c \<le> CHR 0x0D"

definition trim_space :: "string \<Rightarrow> string" where
  "trim_space s = rev (dropWhile is_space (rev (dropWhile is_space s)))"

section \<open>Package path\<close>

text \<open>
  \<open>path.Clean\<close>: the elements between the slashes are pushed on a stack (kept reversed); an
  empty element and \<open>.\<close> are skipped, \<open>..\<close> drops the element before it, or is kept where
  nothing is left to drop in a path that does not start at the root.
\<close>

definition clean_step :: "bool \<Rightarrow> string list \<Rightarrow> string \<Rightarrow> string list" where
  "clean_step rooted st e =
     (if e = [] \<or> e = ''.'' then st
      else if e = ''..'' then
        (case st of
           [] \<Rightarrow> if rooted then [] else [e]
         | t # ts \<Rightarrow> if t = ''..'' then e # st else ts)
      else e # st)"

definition is_rooted :: "string \<Rightarrow> bool" where
  "is_rooted s \<longleftrightarrow> (case s of [] \<Rightarrow> False | c # _ \<Rightarrow> c = slash)"

definition path_elems :: "string \<Rightarrow> string list" where
  "path_elems s = rev (foldl (clean_step (is_rooted s)) [] (split_on slash s))"

definition path_clean :: "string \<Rightarrow> string" where
  "path_clean s =
     (let out = join_with ''/'' (path_elems s) in
      if is_rooted s then slash # out else if out = [] then ''.'' else out)"

definition path_join :: "string list \<Rightarrow> string" where
  "path_join elems =
     (let ne = dropWhile (\<lambda>e. e = []) elems in
      if ne = [] then [] else path_clean (join_with ''/'' ne))"

text \<open>\<open>path.Split\<close>, \<open>path.Dir\<close> and \<open>path.Base\<close>.\<close>

definition last_elem :: "string \<Rightarrow> string" where
  "last_elem s = rev (takeWhile (\<lambda>x. x \<noteq> slash) (rev s))"

definition path_split :: "string \<Rightarrow> string \<times> string" where
  "path_split s = (take (length s - length (last_elem s)) s, last_elem s)"

definition path_dir :: "string \<Rightarrow> string" where
  "path_dir s = path_clean (fst (path_split s))"

definition path_base :: "string \<Rightarrow> string" where
  "path_base s =
     (if s = [] then ''.''
      else let e = last_elem (trim_right slash s) in if e = [] then ''/'' else e)"

section \<open>The path check of package io/fs\<close>

text \<open>\<open>utf8.ValidString\<close> on the byte values.\<close>

definition cont_byte :: "nat \<Rightarrow> bool" where
  "cont_byte b \<longleftrightarrow> 128 \<le> b \<and> b \<le> 191"

fun utf8_valid :: "nat list \<Rightarrow> bool" where
  "utf8_valid [] = True"
| "utf8_valid (a # bs) =
     (if a < 128 then utf8_valid bs
      else (case bs of
        [] \<Rightarrow> False
      | b # cs \<Rightarrow>
          if 194 \<le> a \<and> a \<le> 223 then cont_byte b \<and> utf8_valid cs
          else (case cs of
            [] \<Rightarrow> False
          | c # ds \<Rightarrow>
              if 224 \<le> a \<and> a \<le> 239 then
                cont_byte b \<and> (a = 224 \<longrightarrow> 160 \<le> b) \<and> (a = 237 \<longrightarrow> b \<le> 159)
                \<and> cont_byte c \<and> utf8_valid ds
              else (case ds of
                [] \<Rightarrow> False
              | d # es \<Rightarrow>
                  240 \<le> a \<and> a \<le> 244 \<and> cont_byte b \<and> (a = 240 \<longrightarrow> 144 \<le> b) \<and> (a = 244 \<longrightarrow> b \<le> 143)
                  \<and> cont_byte c \<and> cont_byte d \<and> utf8_valid es))))"

definition good_elem :: "string \<Rightarrow> bool" where
  "good_elem e \<longleftrightarrow> e \<noteq> [] \<and> e \<noteq> ''.'' \<and> e \<noteq> ''..''"

definition valid_path :: "string \<Rightarrow> bool" where
  "valid_path name \<longleftrightarrow>
     utf8_valid (map of_char name) \<and> (name = ''.'' \<or> list_all good_elem (split_on slash name))"


section \<open>Facts on prefixes, splitting and joining\<close>

lemma has_prefix_iff: "has_prefix s p \<longleftrightarrow> (\<exists>t. s = p @ t)"
  unfolding has_prefix_def by (metis append_eq_conv_conj append_take_drop_id)

lemma has_prefix_append [simp]: "has_prefix (p @ t) p"
  by (auto simp: has_prefix_iff)

lemma has_prefix_Nil [simp]: "has_prefix s []"
  by (simp add: has_prefix_def)

lemma has_prefix_of_Nil [simp]: "has_prefix [] p \<longleftrightarrow> p = []"
  by (auto simp: has_prefix_def)

lemma has_prefix_Cons [simp]: "has_prefix (x # s) (y # p) \<longleftrightarrow> x = y \<and> has_prefix s p"
  by (auto simp: has_prefix_def)

lemma has_prefix_trans: "has_prefix s p \<Longrightarrow> has_prefix p q \<Longrightarrow> has_prefix s q"
  by (auto simp: has_prefix_iff)

lemma has_suffix_iff: "has_suffix s p \<longleftrightarrow> (\<exists>t. s = t @ p)"
  unfolding has_suffix_def
  by (metis append_eq_conv_conj append_take_drop_id diff_diff_cancel length_append
      diff_add_inverse2 length_drop drop_all le_add2 nat_le_linear)

lemma has_suffix_append [simp]: "has_suffix (t @ p) p"
  by (auto simp: has_suffix_iff)

lemma trim_prefix_append [simp]: "trim_prefix (p @ t) p = t"
  by (simp add: trim_prefix_def)

lemma trim_right_snoc [simp]: "x \<noteq> c \<Longrightarrow> trim_right c (s @ [x]) = s @ [x]"
  by (simp add: trim_right_def)

lemma trim_right_same [simp]: "trim_right c (s @ [c]) = trim_right c s"
  by (simp add: trim_right_def)

lemma trim_right_id: "s \<noteq> [] \<Longrightarrow> last s \<noteq> c \<Longrightarrow> trim_right c s = s"
  by (cases s rule: rev_cases) auto

lemma split_on_not_Nil [simp]: "split_on c s \<noteq> []"
  by (cases s) auto

lemma split_on_free: "e \<in> set (split_on c s) \<Longrightarrow> c \<notin> set e"
proof (induction s arbitrary: e)
  case (Cons x s)
  then show ?case
    by (cases "split_on c s") (auto split: if_splits)
qed simp

lemma split_on_code [code]:
  "split_on c [] = [[]]"
  "split_on c (x # xs) =
     (if x = c then [] # split_on c xs else (case split_on c xs of y # ys \<Rightarrow> (x # y) # ys | [] \<Rightarrow> [[x]]))"
  by (auto split: list.split)

lemma join_with_Cons: "xs \<noteq> [] \<Longrightarrow> join_with sep (x # xs) = x @ sep @ join_with sep xs"
  by (cases xs) auto

lemma join_split [simp]: "join_with [c] (split_on c s) = s"
proof (induction s)
  case (Cons x s)
  then show ?case
    by (cases "split_on c s" rule: list.exhaust; cases "tl (split_on c s)")
      (auto simp: join_with_Cons)
qed simp

lemma split_on_append: "split_on c (a @ c # b) = split_on c a @ split_on c b"
  by (induction a) auto

lemma split_on_id: "c \<notin> set e \<Longrightarrow> split_on c e = [e]"
  by (induction e) auto

lemma split_join:
  "es \<noteq> [] \<Longrightarrow> \<forall>e \<in> set es. c \<notin> set e \<Longrightarrow> split_on c (join_with [c] es) = es"
proof (induction es rule: induct_list012)
  case (3 x y zs)
  then show ?case by (simp add: split_on_append split_on_id)
qed (auto simp: split_on_id)

lemma join_with_snoc: "es \<noteq> [] \<Longrightarrow> join_with sep (es @ [x]) = join_with sep es @ sep @ x"
  by (induction es rule: induct_list012) auto

lemma join_with_append:
  "xs \<noteq> [] \<Longrightarrow> ys \<noteq> [] \<Longrightarrow> join_with sep (xs @ ys) = join_with sep xs @ sep @ join_with sep ys"
  by (induction xs rule: induct_list012) (auto simp: join_with_Cons)

section \<open>Facts on paths\<close>

text \<open>
  A name that can be a path element, and the absolute path made of such names: the form in
  which the servers of the repository (FUSE, FTP, WebDAV) hand names to a file system.
\<close>

definition name_ok :: "string \<Rightarrow> bool" where
  "name_ok e \<longleftrightarrow> good_elem e \<and> slash \<notin> set e"

definition abs_path :: "string list \<Rightarrow> string" where
  "abs_path cs = slash # join_with ''/'' cs"

lemma good_elemD: "good_elem e \<Longrightarrow> e \<noteq> [] \<and> e \<noteq> ''.'' \<and> e \<noteq> ''..''"
  by (simp add: good_elem_def)

lemma name_okD: "name_ok e \<Longrightarrow> good_elem e \<and> slash \<notin> set e \<and> e \<noteq> []"
  by (auto simp: name_ok_def good_elem_def)

lemma clean_step_good [simp]: "good_elem e \<Longrightarrow> clean_step r st e = e # st"
  by (simp add: clean_step_def good_elem_def)

lemma clean_step_skip [simp]: "clean_step r st [] = st" "clean_step r st ''.'' = st"
  by (simp_all add: clean_step_def)

lemma foldl_clean_good:
  "\<forall>e \<in> set es. good_elem e \<Longrightarrow> foldl (clean_step r) st es = rev es @ st"
  by (induction es arbitrary: st) auto

lemma is_rooted_simps [simp]:
  "is_rooted [] = False" "is_rooted (c # s) = (c = slash)" "is_rooted (abs_path cs)"
  by (simp_all add: is_rooted_def abs_path_def)

lemma is_rooted_append: "a \<noteq> [] \<Longrightarrow> is_rooted (a @ b) = is_rooted a"
  by (cases a) auto

lemma path_elems_join:
  assumes "d \<noteq> []"
  shows "path_elems (d @ slash # n)
    = rev (foldl (clean_step (is_rooted d)) (rev (path_elems d)) (split_on slash n))"
  using assms by (simp add: path_elems_def split_on_append is_rooted_append)

lemma path_elems_under:
  assumes "d \<noteq> []" "\<forall>e \<in> set (split_on slash n). good_elem e"
  shows "path_elems (d @ slash # n) = path_elems d @ split_on slash n"
  using assms by (simp add: path_elems_join foldl_clean_good)

lemma path_elems_abs [path_facts]:
  assumes "list_all name_ok cs"
  shows "path_elems (abs_path cs) = cs"
proof (cases "cs = []")
  case True
  then show ?thesis by (simp add: path_elems_def abs_path_def)
next
  case False
  have free: "\<forall>e \<in> set cs. slash \<notin> set e" and good: "\<forall>e \<in> set cs. good_elem e"
    using assms by (auto simp: list_all_iff name_ok_def)
  have "split_on slash (abs_path cs) = [] # cs"
    using False free by (simp add: abs_path_def split_join)
  then show ?thesis
    using good by (simp add: path_elems_def foldl_clean_good)
qed

lemma path_clean_abs [path_facts]: "list_all name_ok cs \<Longrightarrow> path_clean (abs_path cs) = abs_path cs"
  by (simp add: path_clean_def path_elems_abs) (simp add: abs_path_def)

lemma path_join_abs [path_facts]:
  assumes "list_all name_ok cs" "name_ok c"
  shows "path_join [abs_path cs, c] = abs_path (cs @ [c])"
proof -
  have c: "c \<noteq> []" "good_elem c" "split_on slash c = [c]"
    using assms(2) by (auto simp: name_ok_def good_elem_def split_on_id)
  have "path_elems (abs_path cs @ slash # c) = cs @ [c]"
    using assms c by (subst path_elems_under) (auto simp: path_elems_abs, simp add: abs_path_def)
  then show ?thesis
    by (simp add: path_join_def path_clean_def abs_path_def)
qed

text \<open>What \<^const>\<open>path_elems\<close> returns: no element is empty or \<open>.\<close>, and \<open>..\<close> is left only at the
  front of a path without a root.\<close>

definition clean_stack :: "bool \<Rightarrow> string list \<Rightarrow> bool" where
  "clean_stack r st \<longleftrightarrow>
     (\<exists>k gs. st = gs @ replicate k ''..'' \<and> list_all name_ok gs \<and> (r \<longrightarrow> k = 0))"

lemma clean_stack_step:
  assumes "clean_stack r st" "slash \<notin> set e"
  shows "clean_stack r (clean_step r st e)"
proof -
  obtain k gs where st: "st = gs @ replicate k ''..''" "list_all name_ok gs" "r \<longrightarrow> k = 0"
    using assms(1) by (auto simp: clean_stack_def)
  show ?thesis
  proof (cases "good_elem e")
    case True
    then have "clean_step r st e = (e # gs) @ replicate k ''..''" "list_all name_ok (e # gs)"
      using st assms(2) by (auto simp: name_ok_def)
    then show ?thesis using st(3) unfolding clean_stack_def by blast
  next
    case bad: False
    show ?thesis
    proof (cases "e = ''..''")
      case False
      then have "clean_step r st e = st" using bad by (auto simp: good_elem_def)
      then show ?thesis using assms(1) by simp
    next
      case up: True
      show ?thesis
      proof (cases gs)
        case (Cons g gs')
        then have "clean_step r st e = gs' @ replicate k ''..''" "list_all name_ok gs'"
          using st up by (auto simp: clean_step_def name_ok_def good_elem_def)
        then show ?thesis using st(3) unfolding clean_stack_def by blast
      next
        case Nil
        show ?thesis
        proof (cases "r")
          case True
          then have "clean_step r st e = []" using Nil st up by (simp add: clean_step_def)
          then show ?thesis by (simp add: clean_stack_def)
        next
          case False
          then have "clean_step r st e = [] @ replicate (Suc k) ''..''"
            using Nil st up by (cases k) (auto simp: clean_step_def)
          then show ?thesis using False unfolding clean_stack_def by (metis list_all_iff empty_iff list.set(1))
        qed
      qed
    qed
  qed
qed

lemma clean_stack_foldl:
  "clean_stack r st \<Longrightarrow> \<forall>e \<in> set es. slash \<notin> set e \<Longrightarrow> clean_stack r (foldl (clean_step r) st es)"
  by (induction es arbitrary: st) (auto intro: clean_stack_step)

lemma clean_stack_elems: "clean_stack (is_rooted s) (rev (path_elems s))"
proof -
  have "clean_stack (is_rooted s) []" by (simp add: clean_stack_def)
  then show ?thesis
    by (auto simp: path_elems_def intro!: clean_stack_foldl dest: split_on_free)
qed

lemma path_elems_rooted: "is_rooted s \<Longrightarrow> list_all name_ok (path_elems s)"
  using clean_stack_elems [of s] by (auto simp: clean_stack_def list_all_iff)

lemma path_clean_rooted: "is_rooted s \<Longrightarrow> path_clean s = abs_path (path_elems s)"
  by (simp add: path_clean_def abs_path_def)

lemma last_elem_append: "slash \<notin> set c \<Longrightarrow> last_elem (s @ slash # c) = c"
proof -
  assume "slash \<notin> set c"
  then have "takeWhile (\<lambda>x. x \<noteq> slash) (rev c @ slash # rev s) = rev c"
    by (subst takeWhile_append2) auto
  then show ?thesis by (simp add: last_elem_def)
qed

lemma path_split_snoc: "slash \<notin> set c \<Longrightarrow> path_split (s @ slash # c) = (s @ [slash], c)"
  by (simp add: path_split_def last_elem_append Suc_diff_le)

lemma abs_path_snoc: "abs_path (cs @ [c]) = (if cs = [] then [] else abs_path cs) @ slash # c"
  by (simp add: abs_path_def join_with_snoc)

lemma path_elems_trailing: "d \<noteq> [] \<Longrightarrow> path_elems (d @ [slash]) = path_elems d"
  by (simp add: path_elems_join)

lemma path_clean_trailing: "d \<noteq> [] \<Longrightarrow> path_clean (d @ [slash]) = path_clean d"
  by (simp add: path_clean_def path_elems_trailing is_rooted_append)

lemma path_dir_abs [path_facts]:
  assumes "list_all name_ok cs" "name_ok c"
  shows "path_dir (abs_path (cs @ [c])) = abs_path cs"
proof -
  have "slash \<notin> set c" using assms(2) by (simp add: name_ok_def)
  then have split: "path_split (abs_path (cs @ [c])) = ((if cs = [] then [] else abs_path cs) @ [slash], c)"
    by (simp add: abs_path_snoc path_split_snoc del: append.simps)
  show ?thesis
  proof (cases "cs = []")
    case True
    then show ?thesis using split by (simp add: path_dir_def path_clean_def path_elems_def abs_path_def)
  next
    case False
    have "abs_path cs \<noteq> []" by (simp add: abs_path_def)
    then have "path_clean (abs_path cs @ [slash]) = abs_path cs"
      using assms(1) by (metis path_clean_trailing path_clean_abs)
    then show ?thesis using False split by (simp add: path_dir_def)
  qed
qed

lemma abs_path_last: "name_ok c \<Longrightarrow> last (abs_path (cs @ [c])) \<noteq> slash"
  by (auto simp: abs_path_snoc name_ok_def good_elem_def dest: last_in_set)

lemma path_base_abs [path_facts]:
  assumes "name_ok c"
  shows "path_base (abs_path (cs @ [c])) = c"
proof -
  have "trim_right slash (abs_path (cs @ [c])) = abs_path (cs @ [c])"
    using assms by (intro trim_right_id abs_path_last) (simp_all add: abs_path_def)
  moreover have "last_elem (abs_path (cs @ [c])) = c"
    using assms by (simp add: abs_path_snoc last_elem_append name_ok_def)
  ultimately show ?thesis
    using assms by (simp add: path_base_def name_ok_def good_elem_def) (simp add: abs_path_def)
qed

lemma abs_path_inject:
  assumes "list_all name_ok cs" "list_all name_ok ds"
  shows "abs_path cs = abs_path ds \<longleftrightarrow> cs = ds"
  using assms by (metis path_elems_abs)

lemma valid_path_good: "valid_path n \<Longrightarrow> n \<noteq> ''.'' \<Longrightarrow> list_all name_ok (split_on slash n)"
  by (auto simp: valid_path_def name_ok_def list_all_iff dest: split_on_free)

lemma valid_path_not_Nil [simp]: "\<not> valid_path []"
  by (simp add: valid_path_def good_elem_def)


text \<open>Cleaning keeps the elements and the root: cleaning twice is cleaning once.\<close>

lemma foldl_clean_ups: "foldl (clean_step False) (replicate j ''..'') (replicate k ''..'') = replicate (k + j) ''..''"
proof (induction k arbitrary: j)
  case (Suc k)
  have "clean_step False (replicate j ''..'') ''..'' = replicate (Suc j) ''..''"
    by (cases j) (simp_all add: clean_step_def)
  then show ?case using Suc [of "Suc j"] by simp
qed simp

lemma path_elems_clean: "path_elems (path_clean s) = path_elems s \<and> is_rooted (path_clean s) = is_rooted s"
proof (cases "is_rooted s")
  case True
  then show ?thesis
    using path_elems_abs [OF path_elems_rooted [OF True]] by (simp add: path_clean_rooted)
next
  case False
  obtain k gs where st: "rev (path_elems s) = gs @ replicate k ''..''" "list_all name_ok gs"
    using clean_stack_elems [of s] by (auto simp: clean_stack_def)
  then have es: "path_elems s = replicate k ''..'' @ rev gs"
    by (metis rev_append rev_replicate rev_rev_ident)
  show ?thesis
  proof (cases "path_elems s = []")
    case True
    then show ?thesis using False by (simp add: path_clean_def) (simp add: path_elems_def)
  next
    case nonempty: False
    have noslash: "\<forall>e \<in> set (path_elems s). slash \<notin> set e \<and> e \<noteq> []"
      using st(2) es by (auto simp: list_all_iff dest: name_okD)
    obtain e es' where e: "path_elems s = e # es'" using nonempty by (cases "path_elems s") auto
    have joined: "join_with ''/'' (path_elems s) \<noteq> []" "\<not> is_rooted (join_with ''/'' (path_elems s))"
      using noslash e by (cases es'; cases e; auto)+
    have "foldl (clean_step False) [] (replicate k ''..'' @ rev gs) = gs @ replicate k ''..''"
      using foldl_clean_ups [of 0 k] foldl_clean_good [of "rev gs" False] st(2)
      by (simp add: list_all_iff name_ok_def)
    then show ?thesis
      using False joined noslash es nonempty
      by (simp add: path_clean_def) (simp add: path_elems_def [of "join_with _ _"] split_join)
  qed
qed

lemma path_clean_idem: "path_clean (path_clean s) = path_clean s"
proof -
  have "path_elems s = path_elems t \<Longrightarrow> is_rooted s = is_rooted t \<Longrightarrow> path_clean s = path_clean t" for t
    by (simp add: path_clean_def)
  then show ?thesis using path_elems_clean [of s] by metis
qed

text \<open>A path below another one: the same root, more elements, none of them \<open>..\<close>.\<close>

definition under :: "string \<Rightarrow> string \<Rightarrow> bool" where
  "under base p \<longleftrightarrow> is_rooted p = is_rooted base
     \<and> (\<exists>es. path_elems p = path_elems base @ es \<and> list_all name_ok es)"

lemma path_join2:
  "path_join [d, n] = (if d = [] then (if n = [] then [] else path_clean n) else path_clean (d @ slash # n))"
  by (simp add: path_join_def)

lemma path_elems_Nil [simp]: "path_elems [] = []" "path_elems ''.'' = []"
  by (simp_all add: path_elems_def)

lemma path_join_valid_under:
  assumes "valid_path n"
  shows "under d (path_join [d, n])"
proof -
  have n: "n \<noteq> []" "\<not> is_rooted n" using assms by (cases n; auto simp: valid_path_def good_elem_def)+
  show ?thesis
  proof (cases "n = ''.''")
    case True
    have "path_elems (d @ slash # ''.'') = path_elems d" if "d \<noteq> []"
      using that by (simp add: path_elems_join)
    then show ?thesis
      using True path_elems_clean [of "''.''"] path_elems_clean [of "d @ slash # ''.''"]
      by (auto simp: under_def path_join2 is_rooted_append)
  next
    case False
    then have ok: "list_all name_ok (split_on slash n)" using valid_path_good assms by blast
    then have good: "\<forall>e \<in> set (split_on slash n). good_elem e" by (auto simp: list_all_iff name_ok_def)
    have "path_elems n = split_on slash n"
      using good by (simp add: path_elems_def foldl_clean_good)
    then show ?thesis
      using n ok good path_elems_clean [of n] path_elems_clean [of "d @ slash # n"]
        path_elems_under [of d n]
      by (auto simp: under_def path_join2 is_rooted_append)
  qed
qed

end
