(* ===== verification/Dav_Xml.thy ===== *)
theory Dav_Xml
  imports Go_Prelude
begin

text \<open>
  Raw XML values of the WebDAV client (\<open>pkg/filesystem/webdav/client/xml.go\<close>): a token with
  its children, kept undecoded. Tokens are those of package \<open>encoding/xml\<close>. A value made by
  \<open>EncodeRawXMLElement\<close> can only be written; it is represented by the tokens that encoding
  its \<open>out\<close> field writes.
\<close>

record xml_name =
  xn_space :: string
  xn_local :: string

type_synonym xml_attr = "xml_name \<times> string"

datatype xml_token =
    StartElement xml_name "xml_attr list"
  | EndElement xml_name
  | CharData string
  | Comment string
  | ProcInst string string
  | Directive string

datatype raw_xml =
    RawXml xml_token "raw_xml list"
  | RawOut "xml_token list"

definition NewRawXMLElement :: "xml_name \<Rightarrow> xml_attr list \<Rightarrow> raw_xml list \<Rightarrow> raw_xml" where
  "NewRawXMLElement name attr children = RawXml (StartElement name attr) children"

fun XMLName :: "raw_xml \<Rightarrow> xml_name option" where
  "XMLName (RawXml (StartElement name attr) children) = Some name"
| "XMLName _ = None"

end
