(* ===== verification/Go_Errors.thy ===== *)
theory Go_Errors
  imports Dav_Xml
begin

text \<open>
  Error values. Every error the repository creates, wraps or tests is a constructor: the
  sentinels of \<open>io\<close>, \<open>os\<close> and \<open>io/fs\<close>, the struct errors that wrap another one, the
  errors of the client libraries that the code takes apart with \<open>errors.As\<close>, and the gRPC
  status errors of the CSI driver. A Go function that returns only an \<open>error\<close> is modelled
  with \<^typ>\<open>'e option\<close> (\<^const>\<open>None\<close> is \<open>nil\<close>), one that returns a value or an error with a sum
  (\<^const>\<open>Inl\<close> is the error).
\<close>

datatype errno = ENOENT | EEXIST | ENOTEMPTY | EACCES | EPERM | ENOTDIR | EFBIG | EOTHER nat

datatype grpc_code = InvalidArgument | Internal | Unimplemented

datatype go_error =
    ErrNotExist
  | ErrExist
  | ErrPermission
  | ErrInvalid
  | EOF
  | ErrUnexpectedEOF
  | ErrClosedPipe
  | ErrTimeout
  | ErrNotSupported
  | SkipDir
  | SkipAll
  | Errno errno
  | PathError string string go_error
  | LinkError string string string go_error
  | UrlError string string go_error
  | WrapError string go_error
  | ErrorString string
  | TextprotoError int string
  | MinioError int string
  | HTTPError int "go_error option"
  | DavError "raw_xml list option"
  | StatusError grpc_code string
  | Blocks
  | Panics

text \<open>The last two are no errors of Go. As the result of a call, \<open>Blocks\<close> says that the call does not
  return (it waits for a channel that nobody will send on, or the fuel of its loop has run out),
  and \<open>Panics\<close> that it panics.\<close>

fun unwrap :: "go_error \<Rightarrow> go_error option" where
  "unwrap (PathError op p e) = Some e"
| "unwrap (LinkError op old new e) = Some e"
| "unwrap (UrlError op u e) = Some e"
| "unwrap (WrapError msg e) = Some e"
| "unwrap (HTTPError code e) = e"
| "unwrap _ = None"

text \<open>\<open>syscall.Errno\<close> answers \<open>errors.Is\<close> for the three portable conditions.\<close>

fun errno_is :: "errno \<Rightarrow> go_error \<Rightarrow> bool" where
  "errno_is ENOENT t = (t = ErrNotExist)"
| "errno_is EEXIST t = (t = ErrExist)"
| "errno_is ENOTEMPTY t = (t = ErrExist)"
| "errno_is EACCES t = (t = ErrPermission)"
| "errno_is EPERM t = (t = ErrPermission)"
| "errno_is _ t = False"

text \<open>\<open>errors.Is(err, target)\<close> for a sentinel target: it follows the whole chain.\<close>

fun errors_is :: "go_error \<Rightarrow> go_error \<Rightarrow> bool" where
  "errors_is (Errno n) t = (Errno n = t \<or> errno_is n t)"
| "errors_is (PathError op p e) t = (PathError op p e = t \<or> errors_is e t)"
| "errors_is (LinkError op old new e) t = (LinkError op old new e = t \<or> errors_is e t)"
| "errors_is (UrlError op u e) t = (UrlError op u e = t \<or> errors_is e t)"
| "errors_is (WrapError msg e) t = (WrapError msg e = t \<or> errors_is e t)"
| "errors_is (HTTPError code (Some e)) t = (HTTPError code (Some e) = t \<or> errors_is e t)"
| "errors_is e t = (e = t)"

text \<open>
  \<open>os.IsNotExist\<close> and \<open>os.IsExist\<close> look under one \<open>PathError\<close> or \<open>LinkError\<close> only;
  they do not follow errors wrapped by \<open>fmt.Errorf\<close>.
\<close>

fun underlying_error :: "go_error \<Rightarrow> go_error" where
  "underlying_error (PathError op p e) = e"
| "underlying_error (LinkError op old new e) = e"
| "underlying_error e = e"

definition underlying_error_is :: "go_error \<Rightarrow> go_error \<Rightarrow> bool" where
  "underlying_error_is e t =
     (let u = underlying_error e in
      u = t \<or> (case u of Errno n \<Rightarrow> errno_is n t | _ \<Rightarrow> False))"

definition os_is_not_exist :: "go_error \<Rightarrow> bool" where
  "os_is_not_exist e = underlying_error_is e ErrNotExist"

definition os_is_exist :: "go_error \<Rightarrow> bool" where
  "os_is_exist e = underlying_error_is e ErrExist"

text \<open>\<open>errors.As\<close> at the types the code asks for.\<close>

fun as_textproto :: "go_error \<Rightarrow> int option" where
  "as_textproto (TextprotoError code msg) = Some code"
| "as_textproto (PathError op p e) = as_textproto e"
| "as_textproto (LinkError op old new e) = as_textproto e"
| "as_textproto (UrlError op u e) = as_textproto e"
| "as_textproto (WrapError msg e) = as_textproto e"
| "as_textproto (HTTPError code (Some e)) = as_textproto e"
| "as_textproto _ = None"

fun as_minio :: "go_error \<Rightarrow> int option" where
  "as_minio (MinioError status code) = Some status"
| "as_minio (PathError op p e) = as_minio e"
| "as_minio (LinkError op old new e) = as_minio e"
| "as_minio (UrlError op u e) = as_minio e"
| "as_minio (WrapError msg e) = as_minio e"
| "as_minio (HTTPError code (Some e)) = as_minio e"
| "as_minio _ = None"

fun as_http :: "go_error \<Rightarrow> int option" where
  "as_http (HTTPError code e) = Some code"
| "as_http (PathError op p e) = as_http e"
| "as_http (LinkError op old new e) = as_http e"
| "as_http (UrlError op u e) = as_http e"
| "as_http (WrapError msg e) = as_http e"
| "as_http _ = None"

lemma errors_is_refl [simp]: "errors_is e e"
  by (cases "(e, e)" rule: errors_is.cases) auto

text \<open>Whatever \<open>os.IsNotExist\<close> accepts, \<open>errors.Is\<close> accepts: the converse fails on wrapped errors.\<close>

lemma os_is_not_exist_errors_is: "os_is_not_exist e \<Longrightarrow> errors_is e ErrNotExist"
  by (cases e) (auto simp: os_is_not_exist_def underlying_error_is_def Let_def split: go_error.splits)

end
