(* ===== verification/Go_Url.thy ===== *)
theory Go_Url
  imports Go_Errors
begin

text \<open>
  What the repository uses of package \<open>net/url\<close>: \<open>ParseRequestURI\<close> and \<open>Parse\<close>, \<open>URL.String\<close>,
  \<open>URL.Hostname\<close>, \<open>URL.Port\<close>, and the query values with \<open>ParseQuery\<close>, \<open>Get\<close> and \<open>Encode\<close>.
  The validation of a bracketed IP literal (package \<open>net/netip\<close>) is the parameter
  \<open>ip_literal\<close> of the parser: it is given a host that holds a bracket. Of the errors only the
  fixed texts are kept.
  Query values are a Go map from keys to value lists; the association list here is kept sorted
  by key, so that equal maps are equal lists (Go's iteration order is never observed: \<open>Encode\<close>
  sorts the keys).
\<close>

datatype enc_mode = EncPath | EncHost | EncUserPassword | EncQuery

definition is_alnum :: "char \<Rightarrow> bool" where
  "is_alnum c \<longleftrightarrow> is_lower c \<or> is_upper c \<or> is_digit c"

text \<open>The character classes of RFC 3986 that \<open>shouldEscape\<close> and \<open>validUserinfo\<close> name.\<close>

definition host_delims :: string where
  "host_delims = [CHR 0x27, CHR 0x22] @ ''!$&()*+,;=:[]<>''"

definition mark_chars :: string where
  "mark_chars = ''-_.~''"

definition reserved_chars :: string where
  "reserved_chars = ''$&+,/:;=?@''"

definition userinfo_chars :: string where
  "userinfo_chars = [CHR 0x27, CHR 0x25] @ ''-._:~!$&()*+,;=@''"

definition should_escape :: "char \<Rightarrow> enc_mode \<Rightarrow> bool" where
  "should_escape c mode =
     (if is_alnum c then False
      else if mode = EncHost \<and> c \<in> set host_delims then False
      else if c \<in> set mark_chars then False
      else if c \<in> set reserved_chars then
        (case mode of
           EncPath \<Rightarrow> c = CHR ''?''
         | EncUserPassword \<Rightarrow> c \<in> set ''@/?:''
         | EncQuery \<Rightarrow> True
         | EncHost \<Rightarrow> True)
      else True)"

definition is_hex :: "char \<Rightarrow> bool" where
  "is_hex c \<longleftrightarrow> is_digit c \<or> CHR ''a'' \<le> c \<and> c \<le> CHR ''f'' \<or> CHR ''A'' \<le> c \<and> c \<le> CHR ''F''"

definition unhex :: "char \<Rightarrow> nat" where
  "unhex c =
     (if is_digit c then of_char c - 48
      else if CHR ''a'' \<le> c \<and> c \<le> CHR ''f'' then of_char c - 87
      else of_char c - 55)"

definition upper_hex :: "nat \<Rightarrow> char" where
  "upper_hex d = (if d < 10 then char_of (48 + d) else char_of (55 + d))"

definition escape_char :: "enc_mode \<Rightarrow> char \<Rightarrow> string" where
  "escape_char mode c =
     (if should_escape c mode then
        (if c = CHR '' '' \<and> mode = EncQuery then ''+''
         else [CHR 0x25, upper_hex (of_char c div 16), upper_hex (of_char c mod 16)])
      else [c])"

definition escape :: "enc_mode \<Rightarrow> string \<Rightarrow> string" where
  "escape mode s = concat (map (escape_char mode) s)"

fun unescape :: "enc_mode \<Rightarrow> string \<Rightarrow> string option" where
  "unescape mode [] = Some []"
| "unescape mode (c # s) =
     (if c = CHR 0x25 then
        (case s of
           a # b # t \<Rightarrow>
             if is_hex a \<and> is_hex b \<and> (mode = EncHost \<longrightarrow> 8 \<le> unhex a \<or> a = CHR ''2'' \<and> b = CHR ''5'')
             then map_option (\<lambda>r. char_of (16 * unhex a + unhex b) # r) (unescape mode t)
             else None
         | _ \<Rightarrow> None)
      else if c = CHR ''+'' \<and> mode = EncQuery then map_option (\<lambda>r. CHR '' '' # r) (unescape mode s)
      else if mode = EncHost \<and> of_char c < (128 :: nat) \<and> should_escape c mode then None
      else map_option (\<lambda>r. c # r) (unescape mode s))"

section \<open>Parsing and printing\<close>

record url =
  url_scheme :: string
  url_opaque :: string
  url_user :: "(string \<times> string option) option"
  url_host :: string
  url_path :: string
  url_raw_query :: string
  url_force_query :: bool
  url_omit_host :: bool

definition empty_url :: url where
  "empty_url = \<lparr>url_scheme = [], url_opaque = [], url_user = None, url_host = [], url_path = [],
     url_raw_query = [], url_force_query = False, url_omit_host = False\<rparr>"

fun get_scheme_from :: "string \<Rightarrow> string \<Rightarrow> string \<Rightarrow> go_error + string \<times> string" where
  "get_scheme_from raw seen [] = Inr ([], raw)"
| "get_scheme_from raw seen (c # s) =
     (if is_lower c \<or> is_upper c
      then get_scheme_from raw (seen @ [c]) s
      else if is_digit c \<or> c \<in> set ''+-.'' then
        (if seen = [] then Inr ([], raw) else get_scheme_from raw (seen @ [c]) s)
      else if c = CHR '':'' then
        (if seen = [] then Inl (ErrorString ''missing protocol scheme'') else Inr (seen, s))
      else Inr ([], raw))"

definition get_scheme :: "string \<Rightarrow> go_error + string \<times> string" where
  "get_scheme raw = get_scheme_from raw [] raw"

definition valid_optional_port :: "string \<Rightarrow> bool" where
  "valid_optional_port p \<longleftrightarrow> (case p of [] \<Rightarrow> True | c # ds \<Rightarrow> c = CHR '':'' \<and> list_all is_digit ds)"

definition valid_userinfo :: "string \<Rightarrow> bool" where
  "valid_userinfo s \<longleftrightarrow>
     list_all (\<lambda>c. is_alnum c \<or> c \<in> set userinfo_chars) s"

definition parse_host :: "(string \<Rightarrow> go_error + string) \<Rightarrow> string \<Rightarrow> go_error + string" where
  "parse_host ip_literal host =
     (if CHR ''['' \<in> set host then ip_literal host
      else if (case last_index CHR '':'' host of
                 Some i \<Rightarrow> \<not> valid_optional_port (drop i host) | None \<Rightarrow> False)
      then Inl (ErrorString ''invalid port after host'')
      else (case unescape EncHost host of
              None \<Rightarrow> Inl (ErrorString ''invalid URL escape'')
            | Some h \<Rightarrow> Inr h))"

definition parse_userinfo :: "string \<Rightarrow> go_error + string \<times> string option" where
  "parse_userinfo ui =
     (if \<not> valid_userinfo ui then Inl (ErrorString ''net/url: invalid userinfo'')
      else if CHR '':'' \<notin> set ui then
        (case unescape EncUserPassword ui of
           None \<Rightarrow> Inl (ErrorString ''invalid URL escape'')
         | Some u \<Rightarrow> Inr (u, None))
      else
        (let (u, p, _) = cut CHR '':'' ui in
         case (unescape EncUserPassword u, unescape EncUserPassword p) of
           (Some u', Some p') \<Rightarrow> Inr (u', Some p')
         | _ \<Rightarrow> Inl (ErrorString ''invalid URL escape'')))"

definition parse_authority ::
  "(string \<Rightarrow> go_error + string) \<Rightarrow> string \<Rightarrow> go_error + (string \<times> string option) option \<times> string" where
  "parse_authority ip_literal authority =
     (case last_index CHR ''@'' authority of
        None \<Rightarrow> map_sum id (\<lambda>h. (None, h)) (parse_host ip_literal authority)
      | Some i \<Rightarrow>
          (case parse_host ip_literal (drop (i + 1) authority) of
             Inl e \<Rightarrow> Inl e
           | Inr h \<Rightarrow> map_sum id (\<lambda>u. (Some u, h)) (parse_userinfo (take i authority))))"

definition is_ctl :: "char \<Rightarrow> bool" where
  "is_ctl c \<longleftrightarrow> of_char c < (32 :: nat) \<or> of_char c = (127 :: nat)"

text \<open>The split of the part after the scheme into hierarchical part, query and \<open>ForceQuery\<close>.\<close>

definition split_query :: "string \<Rightarrow> string \<times> string \<times> bool" where
  "split_query rest =
     (if rest \<noteq> [] \<and> last rest = CHR ''?'' \<and> count_list rest CHR ''?'' = 1
      then (butlast rest, [], True)
      else (let (r, q, _) = cut CHR ''?'' rest in (r, q, False)))"

definition set_path :: "url \<Rightarrow> string \<Rightarrow> go_error + url" where
  "set_path u p =
     (case unescape EncPath p of
        None \<Rightarrow> Inl (ErrorString ''invalid URL escape'')
      | Some p' \<Rightarrow> Inr (u\<lparr>url_path := p'\<rparr>))"

definition parse_hier ::
  "(string \<Rightarrow> go_error + string) \<Rightarrow> bool \<Rightarrow> url \<Rightarrow> string \<Rightarrow> go_error + url" where
  "parse_hier ip_literal via_request u rest =
     (if (url_scheme u \<noteq> [] \<or> \<not> via_request \<and> \<not> has_prefix rest ''///'') \<and> has_prefix rest ''//'' then
        (let auth = takeWhile (\<lambda>c. c \<noteq> slash) (drop 2 rest);
             rest' = dropWhile (\<lambda>c. c \<noteq> slash) (drop 2 rest) in
         case parse_authority ip_literal auth of
           Inl e \<Rightarrow> Inl e
         | Inr (user, host) \<Rightarrow> set_path (u\<lparr>url_user := user, url_host := host\<rparr>) rest')
      else if url_scheme u \<noteq> [] \<and> has_prefix rest ''/'' then set_path (u\<lparr>url_omit_host := True\<rparr>) rest
      else set_path u rest)"

definition parse_url_raw ::
  "(string \<Rightarrow> go_error + string) \<Rightarrow> bool \<Rightarrow> string \<Rightarrow> go_error + url" where
  "parse_url_raw ip_literal via_request raw =
     (if list_ex is_ctl raw then Inl (ErrorString ''net/url: invalid control character in URL'')
      else if raw = [] \<and> via_request then Inl (ErrorString ''empty url'')
      else if raw = ''*'' then Inr (empty_url\<lparr>url_path := ''*''\<rparr>)
      else
        (case get_scheme raw of
           Inl e \<Rightarrow> Inl e
         | Inr (scheme, rest0) \<Rightarrow>
             (let (rest, q, fq) = split_query rest0;
                  u = empty_url\<lparr>url_scheme := to_lower scheme, url_raw_query := q, url_force_query := fq\<rparr> in
              if \<not> has_prefix rest ''/'' then
                (if scheme \<noteq> [] then Inr (u\<lparr>url_opaque := rest\<rparr>)
                 else if via_request then Inl (ErrorString ''invalid URI for request'')
                 else if CHR '':'' \<in> set (fst (cut slash rest))
                 then Inl (ErrorString ''first path segment in URL cannot contain colon'')
                 else parse_hier ip_literal via_request u rest)
              else parse_hier ip_literal via_request u rest)))"

definition parse_request_uri :: "(string \<Rightarrow> go_error + string) \<Rightarrow> string \<Rightarrow> go_error + url" where
  "parse_request_uri ip_literal raw =
     (case parse_url_raw ip_literal True raw of
        Inl e \<Rightarrow> Inl (UrlError ''parse'' raw e)
      | Inr u \<Rightarrow> Inr u)"

text \<open>\<open>url.Parse\<close>: the fragment is cut off first; it is checked and not kept.\<close>

definition url_parse :: "(string \<Rightarrow> go_error + string) \<Rightarrow> string \<Rightarrow> go_error + url" where
  "url_parse ip_literal raw =
     (let (main, frag, _) = cut CHR ''#'' raw in
      case parse_url_raw ip_literal False main of
        Inl e \<Rightarrow> Inl (UrlError ''parse'' main e)
      | Inr u \<Rightarrow>
          if frag \<noteq> [] \<and> unescape EncPath frag = None
          then Inl (UrlError ''parse'' raw (ErrorString ''invalid URL escape'')) else Inr u)"

definition userinfo_string :: "string \<times> string option \<Rightarrow> string" where
  "userinfo_string ui =
     escape EncUserPassword (fst ui)
     @ (case snd ui of None \<Rightarrow> [] | Some p \<Rightarrow> CHR '':'' # escape EncUserPassword p)"

definition escaped_path :: "url \<Rightarrow> string" where
  "escaped_path u = (if url_path u = ''*'' then ''*'' else escape EncPath (url_path u))"

definition url_authority_string :: "url \<Rightarrow> string" where
  "url_authority_string u =
     (if url_scheme u \<noteq> [] \<or> url_host u \<noteq> [] \<or> url_user u \<noteq> None then
        (if url_omit_host u \<and> url_host u = [] \<and> url_user u = None then []
         else
           (if url_host u \<noteq> [] \<or> url_path u \<noteq> [] \<or> url_user u \<noteq> None then ''//'' else [])
           @ (case url_user u of None \<Rightarrow> [] | Some ui \<Rightarrow> userinfo_string ui @ ''@'')
           @ escape EncHost (url_host u))
      else [])"

definition url_string :: "url \<Rightarrow> string" where
  "url_string u =
     (let scheme = (if url_scheme u \<noteq> [] then url_scheme u @ '':'' else []);
          pth = escaped_path u;
          auth = scheme @ url_authority_string u
                 @ (if pth \<noteq> [] \<and> \<not> has_prefix pth ''/'' \<and> url_host u \<noteq> [] then ''/'' else []) in
      (if url_opaque u \<noteq> [] then scheme @ url_opaque u
       else auth @ (if auth = [] \<and> CHR '':'' \<in> set (fst (cut slash pth)) then ''./'' else []) @ pth)
      @ (if url_force_query u \<or> url_raw_query u \<noteq> [] then CHR ''?'' # url_raw_query u else []))"

text \<open>\<open>URL.Hostname\<close> and \<open>URL.Port\<close>.\<close>

definition split_host_port :: "string \<Rightarrow> string \<times> string" where
  "split_host_port hp =
     (let (host, port) =
        (case last_index CHR '':'' hp of
           Some i \<Rightarrow> if valid_optional_port (drop i hp) then (take i hp, drop (i + 1) hp) else (hp, [])
         | None \<Rightarrow> (hp, [])) in
      (if has_prefix host ''['' \<and> has_suffix host '']'' then butlast (tl host) else host, port))"

definition url_hostname :: "url \<Rightarrow> string" where
  "url_hostname u = fst (split_host_port (url_host u))"

definition url_port :: "url \<Rightarrow> string" where
  "url_port u = snd (split_host_port (url_host u))"

section \<open>Query values\<close>

type_synonym url_values = "(string \<times> string list) list"

fun values_add :: "string \<Rightarrow> string \<Rightarrow> url_values \<Rightarrow> url_values" where
  "values_add k v [] = [(k, [v])]"
| "values_add k v ((k', vs) # m) =
     (if k = k' then (k', vs @ [v]) # m
      else if k < k' then (k, [v]) # (k', vs) # m
      else (k', vs) # values_add k v m)"

definition values_get :: "url_values \<Rightarrow> string \<Rightarrow> string" where
  "values_get m k = (case map_of m k of Some (v # vs) \<Rightarrow> v | _ \<Rightarrow> [])"

text \<open>One step of the loop of \<open>parseQuery\<close>, on the piece before the next \<open>&\<close>; the flag records
  whether an error has been seen.\<close>

definition query_step :: "url_values \<times> bool \<Rightarrow> string \<Rightarrow> url_values \<times> bool" where
  "query_step acc piece =
     (if CHR '';'' \<in> set piece then (fst acc, True)
      else if piece = [] then acc
      else
        (let (k, v, _) = cut CHR ''='' piece in
         case (unescape EncQuery k, unescape EncQuery v) of
           (Some k', Some v') \<Rightarrow> (values_add k' v' (fst acc), snd acc)
         | _ \<Rightarrow> (fst acc, True)))"

definition parse_query :: "string \<Rightarrow> url_values \<times> bool" where
  "parse_query q = foldl query_step ([], False) (split_on CHR ''&'' q)"

text \<open>\<open>URL.Query\<close> drops the error.\<close>

definition url_query :: "url \<Rightarrow> url_values" where
  "url_query u = fst (parse_query (url_raw_query u))"

definition encode_values :: "url_values \<Rightarrow> string" where
  "encode_values m =
     join_with ''&'' (concat (map (\<lambda>(k, vs). map (\<lambda>v. escape EncQuery k @ ''='' @ escape EncQuery v) vs) m))"

section \<open>Escaping and its inverse\<close>

lemma upper_hex_digit: "d < 16 \<Longrightarrow> is_hex (upper_hex d) \<and> unhex (upper_hex d) = d \<and> is_alnum (upper_hex d)"
proof -
  assume "d < 16"
  then have "d \<in> set [0..<16]" by simp
  moreover have "\<forall>d \<in> set [0..<16]. is_hex (upper_hex d) \<and> unhex (upper_hex d) = d \<and> is_alnum (upper_hex d)"
    by code_simp
  ultimately show ?thesis by blast
qed

lemma hex_split: "char_of (16 * (of_char c div 16) + of_char c mod 16 :: nat) = c"
  by (simp only: mult_div_mod_eq char_of_char)

lemma of_char_div16 [simp]: "of_char c div (16 :: nat) < 16"
  using nat_of_char_less_256 [of c] by (simp only: less_mult_imp_div_less)

text \<open>The characters a host name may hold for its printed form to parse back.\<close>

definition host_char_ok :: "char \<Rightarrow> bool" where
  "host_char_ok c \<longleftrightarrow> (of_char c < (128 :: nat) \<longrightarrow> \<not> should_escape c EncHost)"

text \<open>What \<^const>\<open>should_escape\<close> says of single characters.\<close>

lemmas class_defs = host_delims_def mark_chars_def reserved_chars_def userinfo_chars_def

lemma alnum_not_escaped: "is_alnum c \<Longrightarrow> \<not> should_escape c m"
  by (simp add: should_escape_def)

lemma escaped_percent [simp]: "should_escape CHR 0x25 m"
  by (simp add: should_escape_def is_alnum_def is_digit_def class_defs)

lemma escaped_plus_query [simp]: "should_escape CHR ''+'' EncQuery"
  by (simp add: should_escape_def is_alnum_def is_digit_def class_defs)

lemma not_escaped_percent: "\<not> should_escape c m \<Longrightarrow> c \<noteq> CHR 0x25"
  by auto

lemma not_escaped_query_plus: "\<not> should_escape c EncQuery \<Longrightarrow> c \<noteq> CHR ''+''"
  by auto

lemma not_escaped_class:
  "\<not> should_escape c m \<Longrightarrow>
     is_alnum c \<or> m = EncHost \<and> c \<in> set host_delims \<or> c \<in> set mark_chars
     \<or> c \<in> set reserved_chars \<and> (m = EncUserPassword \<longrightarrow> c \<notin> set ''@/?:'')"
  by (auto simp: should_escape_def simp del: list.set split: if_splits enc_mode.splits)

lemma no_ctl_class:
  "list_all (\<lambda>c. \<not> is_ctl c) (host_delims @ mark_chars @ reserved_chars)"
  by (simp add: class_defs is_ctl_def)

lemma alnum_not_ctl: "is_alnum c \<Longrightarrow> \<not> is_ctl c"
  by (auto simp: is_ctl_def is_alnum_def is_digit_def less_eq_char_def)

lemma ctl_escaped: "is_ctl c \<Longrightarrow> should_escape c m"
  using not_escaped_class [of c m] no_ctl_class alnum_not_ctl [of c]
  by (auto simp: list_all_iff)

lemma userinfo_class:
  "list_all (\<lambda>c. c \<in> set ''@/?:'' \<or> c \<in> set userinfo_chars) reserved_chars"
  "list_all (\<lambda>c. c \<in> set userinfo_chars) mark_chars" "CHR 0x25 \<in> set userinfo_chars"
  by (simp_all add: class_defs)

lemma unescape_escape_char:
  assumes "m = EncHost \<longrightarrow> host_char_ok c"
  shows "unescape m (escape_char m c @ t) = map_option ((#) c) (unescape m t)"
proof (cases "should_escape c m")
  case False
  then have "c \<noteq> CHR 0x25" "m = EncQuery \<longrightarrow> c \<noteq> CHR ''+''"
    using not_escaped_percent not_escaped_query_plus by blast+
  then show ?thesis using False by (cases "c = CHR ''+''") (auto simp: escape_char_def)
next
  case True
  have hi: "is_hex (upper_hex (of_char c div 16))" "unhex (upper_hex (of_char c div 16)) = of_char c div 16"
    and lo: "is_hex (upper_hex (of_char c mod 16))" "unhex (upper_hex (of_char c mod 16)) = of_char c mod 16"
    using upper_hex_digit by auto
  have host: "m = EncHost \<longrightarrow> 8 \<le> of_char c div (16 :: nat)"
    using True assms by (auto simp: host_char_ok_def)
  show ?thesis
  proof (cases "c = CHR '' '' \<and> m = EncQuery")
    case True
    then show ?thesis by (simp add: escape_char_def should_escape_def is_alnum_def is_digit_def)
  next
    case False
    then show ?thesis using True hi lo host hex_split [of c] by (simp add: escape_char_def)
  qed
qed

lemma unescape_escape:
  assumes "m = EncHost \<longrightarrow> list_all host_char_ok s"
  shows "unescape m (escape m s) = Some s"
  using assms
  by (induction s) (simp_all add: escape_def unescape_escape_char)

lemma unescape_plain:
  assumes "\<forall>c \<in> set s. \<not> should_escape c m"
  shows "unescape m s = Some s"
  using assms not_escaped_percent not_escaped_query_plus by (induction s) auto

lemma escape_char_set:
  assumes "c \<in> set (escape_char m x)"
  shows "\<not> should_escape c m \<or> c = CHR 0x25 \<or> c = CHR ''+'' \<and> m = EncQuery"
proof (cases "should_escape x m")
  case False
  then show ?thesis using assms by (simp add: escape_char_def)
next
  case esc: True
  have hex: "is_alnum (upper_hex (of_char x div 16))" "is_alnum (upper_hex (of_char x mod 16))"
    using upper_hex_digit by auto
  show ?thesis
  proof (cases "x = CHR '' '' \<and> m = EncQuery")
    case True
    then show ?thesis using esc assms by (simp add: escape_char_def)
  next
    case False
    then have "c \<in> {CHR 0x25, upper_hex (of_char x div 16), upper_hex (of_char x mod 16)}"
      using esc assms by (auto simp: escape_char_def)
    then show ?thesis using hex alnum_not_escaped by blast
  qed
qed

lemma escape_set:
  "c \<in> set (escape m s) \<Longrightarrow> \<not> should_escape c m \<or> c = CHR 0x25 \<or> c = CHR ''+'' \<and> m = EncQuery"
  by (auto simp: escape_def dest: escape_char_set)


lemma escape_no_ctl: "\<not> list_ex is_ctl (escape m s)"
proof -
  have "\<not> is_ctl c" if "c \<in> set (escape m s)" for c
    using escape_set [OF that] ctl_escaped [of c m] by (auto simp: is_ctl_def)
  then show ?thesis by (auto simp: list_ex_iff)
qed

lemma escape_append: "escape m (a @ b) = escape m a @ escape m b"
  by (simp add: escape_def)

lemma escape_plain: "\<forall>c \<in> set s. \<not> should_escape c m \<Longrightarrow> escape m s = s"
  by (induction s) (auto simp: escape_def escape_char_def)

lemma escape_avoids:
  assumes "should_escape c m" "c \<noteq> CHR 0x25" "c \<noteq> CHR ''+''"
  shows "c \<notin> set (escape m s)"
  using assms escape_set by blast

lemma escape_path_avoids [simp]: "CHR ''?'' \<notin> set (escape EncPath s)"
  by (rule escape_avoids) (simp_all add: should_escape_def is_alnum_def is_digit_def class_defs)

lemma escape_user_avoids [simp]:
  "CHR ''?'' \<notin> set (escape EncUserPassword s)" "CHR ''@'' \<notin> set (escape EncUserPassword s)"
  "slash \<notin> set (escape EncUserPassword s)" "CHR '':'' \<notin> set (escape EncUserPassword s)"
  by (rule escape_avoids; simp add: should_escape_def is_alnum_def is_digit_def class_defs)+

lemma escape_host_avoids [simp]:
  "CHR ''?'' \<notin> set (escape EncHost s)" "CHR ''@'' \<notin> set (escape EncHost s)"
  "slash \<notin> set (escape EncHost s)"
  by (rule escape_avoids; simp add: should_escape_def is_alnum_def is_digit_def class_defs)+

lemma escape_query_avoids [simp]:
  "CHR ''?'' \<notin> set (escape EncQuery s)" "CHR ''&'' \<notin> set (escape EncQuery s)"
  "CHR ''='' \<notin> set (escape EncQuery s)" "CHR '';'' \<notin> set (escape EncQuery s)"
  by (rule escape_avoids; simp add: should_escape_def is_alnum_def is_digit_def class_defs)+

lemma escape_host_free:
  assumes "x \<in> set '':[]''" "x \<notin> set s"
  shows "x \<notin> set (escape EncHost s)"
proof -
  have "x \<notin> set (escape_char EncHost y)" if "y \<noteq> x" for y
  proof -
    have "is_alnum (upper_hex (of_char y div 16))" "is_alnum (upper_hex (of_char y mod 16))"
      using upper_hex_digit by auto
    moreover have "\<not> is_alnum x" using assms(1) by (auto simp: is_alnum_def is_digit_def)
    ultimately show ?thesis using that assms(1) by (auto simp: escape_char_def)
  qed
  then have "x \<notin> set (escape_char EncHost y)" if "y \<in> set s" for y
    using that assms(2) by metis
  then show ?thesis by (simp add: escape_def)
qed

lemma valid_userinfo_escape: "valid_userinfo (escape EncUserPassword s)"
proof -
  have "is_alnum c \<or> c \<in> set userinfo_chars" if "c \<in> set (escape EncUserPassword s)" for c
    using escape_set [OF that] not_escaped_class [of c EncUserPassword] userinfo_class
    by (auto simp: list_all_iff simp del: list.set)
  then show ?thesis by (simp add: valid_userinfo_def list_all_iff)
qed

section \<open>Ports\<close>

lemma digit_char_facts: "d < 10 \<Longrightarrow> is_digit (digit_char d) \<and> digit_val (digit_char d) = d"
  by (auto simp: is_digit_def digit_char_def digit_val_def less_eq_char_def)

lemma digits_val_snoc: "digits_val (s @ [c]) = 10 * digits_val s + digit_val c"
  by (simp add: digits_val_def)

lemma format_uint_facts: "format_uint n \<noteq> [] \<and> list_all is_digit (format_uint n) \<and> digits_val (format_uint n) = n"
proof (induction n rule: format_uint.induct)
  case (1 n)
  show ?case
  proof (cases "n < 10")
    case True
    then show ?thesis using digit_char_facts
      by (subst (1 2 3) format_uint.simps) (simp add: digits_val_def)
  next
    case False
    then show ?thesis using 1 digit_char_facts [of "n mod 10"]
      by (subst (1 2 3) format_uint.simps) (simp add: digits_val_snoc)
  qed
qed

lemma parse_format_uint: "n < 2 ^ bits \<Longrightarrow> parse_uint bits (format_uint n) = Some n"
  using format_uint_facts [of n] by (simp add: parse_uint_def)

lemma digit_not_escaped: "is_digit c \<Longrightarrow> \<not> should_escape c m"
  by (simp add: should_escape_def is_alnum_def)

lemma last_index_append: "c \<notin> set b \<Longrightarrow> last_index c (a @ c # b) = Some (length a)"
proof -
  assume "c \<notin> set b"
  then have "takeWhile (\<lambda>x. x \<noteq> c) (rev b @ c # rev a) = rev b"
    by (subst takeWhile_append2) auto
  then show ?thesis by (simp add: last_index_def)
qed

lemma last_index_None: "c \<notin> set s \<Longrightarrow> last_index c s = None"
  by (simp add: last_index_def)

lemma is_digit_not: "list_all is_digit s \<Longrightarrow> \<not> is_digit x \<Longrightarrow> x \<notin> set s"
  by (auto simp: list_all_iff)

lemma span_sep:
  assumes "c \<notin> set a"
  shows "takeWhile (\<lambda>x. x \<noteq> c) (a @ c # b) = a" "dropWhile (\<lambda>x. x \<noteq> c) (a @ c # b) = c # b"
    "takeWhile (\<lambda>x. x \<noteq> c) a = a" "dropWhile (\<lambda>x. x \<noteq> c) a = []"
  using assms by (induction a) auto

lemma format_uint_free: "\<not> is_digit x \<Longrightarrow> x \<notin> set (format_uint n)"
  using format_uint_facts [of n] is_digit_not by blast

lemma cut_append: "c \<notin> set a \<Longrightarrow> cut c (a @ c # b) = (a, b, True)"
  by (simp add: cut_def span_sep)

lemma cut_none: "c \<notin> set a \<Longrightarrow> cut c a = (a, [], False)"
  by (simp add: cut_def span_sep)


section \<open>Query values and their encoding\<close>

text \<open>The canonical form of a query map: keys strictly sorted, no key without a value.\<close>

definition values_ok :: "url_values \<Rightarrow> bool" where
  "values_ok m \<longleftrightarrow> sorted_wrt (<) (map fst m) \<and> list_all (\<lambda>(k, vs). vs \<noteq> []) m"

definition query_piece :: "string \<Rightarrow> string \<Rightarrow> string" where
  "query_piece k v = escape EncQuery k @ ''='' @ escape EncQuery v"

lemma query_step_piece: "query_step (m, b) (query_piece k v) = (values_add k v m, b)"
proof -
  have "cut CHR ''='' (query_piece k v) = (escape EncQuery k, escape EncQuery v, True)"
    by (simp add: query_piece_def cut_append)
  moreover have "CHR '';'' \<notin> set (query_piece k v)" "query_piece k v \<noteq> []"
    by (simp_all add: query_piece_def)
  ultimately show ?thesis by (simp add: query_step_def unescape_escape)
qed

lemma values_add_last:
  "\<forall>k' \<in> set (map fst m). k' < k \<Longrightarrow> values_add k v (m @ [(k, vs)]) = m @ [(k, vs @ [v])]"
  by (induction m) auto

lemma values_add_new: "\<forall>k' \<in> set (map fst m). k' < k \<Longrightarrow> values_add k v m = m @ [(k, [v])]"
  by (induction m) auto

lemma query_fold_values:
  assumes "\<forall>k' \<in> set (map fst m). k' < k"
  shows "foldl query_step (m @ [(k, us)], b) (map (query_piece k) vs) = (m @ [(k, us @ vs)], b)"
  by (induction vs arbitrary: us) (simp_all add: query_step_piece values_add_last [OF assms])

lemma query_fold_key:
  assumes "\<forall>k' \<in> set (map fst m). k' < k" "vs \<noteq> []"
  shows "foldl query_step (m, b) (map (query_piece k) vs) = (m @ [(k, vs)], b)"
  using assms(2) query_fold_values [OF assms(1)]
  by (cases vs) (simp_all add: query_step_piece values_add_new [OF assms(1)])

definition query_pieces :: "url_values \<Rightarrow> string list" where
  "query_pieces m = concat (map (\<lambda>(k, vs). map (query_piece k) vs) m)"

lemma query_fold_pieces:
  assumes "values_ok (m @ m')"
  shows "foldl query_step (m, b) (query_pieces m') = (m @ m', b)"
  using assms
proof (induction m' arbitrary: m)
  case Nil
  then show ?case by (simp add: query_pieces_def)
next
  case (Cons kv m')
  obtain k vs where kv: "kv = (k, vs)" by (cases kv)
  have ok: "\<forall>k' \<in> set (map fst m). k' < k" "vs \<noteq> []"
    using Cons.prems kv by (auto simp: values_ok_def sorted_wrt_append)
  have "foldl query_step (m @ [kv], b) (query_pieces m') = ((m @ [kv]) @ m', b)"
    using Cons by simp
  then show ?case
    using query_fold_key [OF ok] kv by (simp add: query_pieces_def)
qed

lemma encode_values_pieces: "encode_values m = join_with ''&'' (query_pieces m)"
  by (simp add: encode_values_def query_pieces_def query_piece_def [abs_def])

lemma query_pieces_free: "p \<in> set (query_pieces m) \<Longrightarrow> CHR ''&'' \<notin> set p"
  by (auto simp: query_pieces_def query_piece_def)

lemma parse_encode_values: "values_ok m \<Longrightarrow> parse_query (encode_values m) = (m, False)"
proof (cases "query_pieces m = []")
  case True
  assume "values_ok m"
  with True have "m = []" by (cases m) (auto simp: query_pieces_def values_ok_def)
  then show ?thesis by (simp add: parse_query_def encode_values_def query_step_def)
next
  case False
  assume "values_ok m"
  then show ?thesis
    using False query_fold_pieces [of "[]" m False] query_pieces_free
    by (simp add: parse_query_def encode_values_pieces split_join)
qed

lemma join_with_set: "set (join_with sep xs) \<subseteq> set sep \<union> \<Union> (set ` set xs)"
  by (induction sep xs rule: join_with.induct) auto

lemma encode_values_chars:
  assumes "c \<in> set (encode_values m)"
  shows "c = CHR ''&'' \<or> c = CHR ''='' \<or> (\<exists>s. c \<in> set (escape EncQuery s))"
  using subsetD [OF join_with_set assms [unfolded encode_values_pieces]]
  by (auto simp: query_pieces_def query_piece_def)

lemma encode_values_avoids: "CHR ''?'' \<notin> set (encode_values m)"
  using encode_values_chars [of "CHR ''?''" m] by auto

lemma encode_values_no_ctl: "\<not> list_ex is_ctl (encode_values m)"
proof -
  have "\<not> is_ctl c" if "c \<in> set (encode_values m)" for c
    using encode_values_chars [OF that] escape_no_ctl [of EncQuery]
    by (auto simp: list_ex_iff is_ctl_def)
  then show ?thesis by (auto simp: list_ex_iff)
qed

end
