(* ===== verification/Units.thy ===== *)
theory Units
  imports Go_Url "HOL-Library.Word"
begin

text \<open>
  Binary sizes (\<open>pkg/units/binary_size.go\<close>): the unit constants and the text conversions.
  Parsing and printing a quantity is done by \<open>k8s.io/apimachinery\<close>, a parameter here:
  \<open>parse_quantity\<close> gives the error or the \<open>int64\<close> that \<open>Quantity.Value\<close> returns, and
  \<open>format_quantity\<close> prints an \<open>int64\<close> in binary notation.
\<close>

type_synonym BinarySize = "64 word"

definition KB :: BinarySize where "KB = 1000"
definition MB :: BinarySize where "MB = 1000 * KB"
definition GB :: BinarySize where "GB = 1000 * MB"
definition TB :: BinarySize where "TB = 1000 * GB"
definition PB :: BinarySize where "PB = 1000 * TB"
definition KiB :: BinarySize where "KiB = 1024"
definition MiB :: BinarySize where "MiB = 1024 * KiB"
definition GiB :: BinarySize where "GiB = 1024 * MiB"
definition TiB :: BinarySize where "TiB = 1024 * GiB"
definition PiB :: BinarySize where "PiB = 1024 * TiB"

lemmas size_units = KB_def MB_def GB_def TB_def PB_def KiB_def MiB_def GiB_def TiB_def PiB_def

definition BinarySize_IsZero :: "BinarySize \<Rightarrow> bool" where
  "BinarySize_IsZero v \<longleftrightarrow> v = 0"

definition BinarySize_UnmarshalText ::
  "(string \<Rightarrow> go_error + 64 word) \<Rightarrow> BinarySize \<Rightarrow> bytes \<Rightarrow> go_error option \<times> BinarySize" where
  "BinarySize_UnmarshalText parse_quantity v b =
     (if b = [] then (None, v)
      else
        (let size' = (if has_suffix b ''B'' then butlast b else b) in
         case parse_quantity size' of
           Inl err \<Rightarrow> (Some err, v)
         | Inr q \<Rightarrow> (None, q)))"

text \<open>\<open>Quantity\<close> reads the 64 bits as a signed number.\<close>

definition BinarySize_Quantity :: "BinarySize \<Rightarrow> int" where
  "BinarySize_Quantity v = sint v"

definition BinarySize_String :: "(int \<Rightarrow> string) \<Rightarrow> BinarySize \<Rightarrow> string" where
  "BinarySize_String format_quantity v = format_quantity (BinarySize_Quantity v)"

definition BinarySize_MarshalText :: "(int \<Rightarrow> string) \<Rightarrow> BinarySize \<Rightarrow> go_error + bytes" where
  "BinarySize_MarshalText format_quantity v = Inr (format_quantity (BinarySize_Quantity v))"

text \<open>If the quantity library parses what it prints, a binary size survives being written as
  text and read back, for all 64 bits; a printed quantity is never empty and does not end in B.\<close>

theorem BinarySize_roundtrip:
  assumes "\<And>w. parse_quantity (format_quantity (sint w)) = Inr w"
    and "\<And>w :: 64 word. format_quantity (sint w) \<noteq> [] \<and> \<not> has_suffix (format_quantity (sint w)) ''B''"
    and "BinarySize_MarshalText format_quantity v = Inr text"
  shows "BinarySize_UnmarshalText parse_quantity old text = (None, v)"
  using assms
  by (auto simp: BinarySize_MarshalText_def BinarySize_UnmarshalText_def BinarySize_Quantity_def)

text \<open>Plain decimal numbers are such a notation.\<close>

definition parse_decimal :: "string \<Rightarrow> go_error + 64 word" where
  "parse_decimal s =
     (if has_prefix s ''-'' then Inr (- of_nat (digits_val (tl s))) else Inr (of_nat (digits_val s)))"

lemma format_uint_ends:
  "\<not> has_prefix (format_uint n) ''-''" "\<not> has_suffix (format_uint n) ''B''" "\<not> has_suffix (x # format_uint n) ''B''"
proof -
  have d: "list_all is_digit (format_uint n)" "format_uint n \<noteq> []" using format_uint_facts [of n] by auto
  show "\<not> has_prefix (format_uint n) ''-''"
    using d by (cases "format_uint n") (auto simp: has_prefix_def is_digit_def less_eq_char_def)
  have l: "last (format_uint n) \<noteq> CHR ''B''"
    using d by (auto simp: list_all_iff is_digit_def less_eq_char_def dest!: last_in_set)
  have no: "\<not> has_suffix (u @ format_uint n) ''B''" for u
  proof (rule notI)
    assume "has_suffix (u @ format_uint n) ''B''"
    then obtain t where t: "u @ format_uint n = t @ [CHR ''B'']" by (auto simp: has_suffix_iff)
    have "last (u @ format_uint n) = CHR ''B''" unfolding t by (rule last_snoc)
    then show False using d(2) l by simp
  qed
  show "\<not> has_suffix (format_uint n) ''B''" "\<not> has_suffix (x # format_uint n) ''B''"
    using no [of "[]"] no [of "[x]"] by simp_all
qed

lemma parse_decimal_format: "parse_decimal (format_int (sint w)) = Inr w"
proof (cases "sint w < 0")
  case True
  have "(of_nat (nat (- sint w)) :: 64 word) = of_int (- sint w)" using True by (metis int_nat_eq neg_0_le_iff_le not_less of_int_of_nat_eq order_less_imp_le)
  then show ?thesis
    using True format_uint_facts [of "nat (- sint w)"] by (simp add: parse_decimal_def format_int_def)
next
  case False
  have "(of_nat (nat (sint w)) :: 64 word) = of_int (sint w)" using False by (metis int_nat_eq not_less of_int_of_nat_eq)
  then show ?thesis
    using False format_uint_facts [of "nat (sint w)"] format_uint_ends(1)
    by (simp add: parse_decimal_def format_int_def)
qed

theorem BinarySize_roundtrip_witness:
  "BinarySize_MarshalText format_int (5 * GiB) = Inr (format_int (sint (5 * GiB)))
   \<and> BinarySize_UnmarshalText parse_decimal 0 (format_int (sint (5 * GiB))) = (None, 5 * GiB)"
  using BinarySize_roundtrip [of parse_decimal format_int "5 * GiB" "format_int (sint (5 * GiB))" 0]
    parse_decimal_format format_uint_ends format_uint_facts
  by (auto simp: BinarySize_MarshalText_def BinarySize_Quantity_def format_int_def)

end
