(* ===== verification/Filesystem.thy ===== *)
theory Filesystem
  imports Go_Errors "HOL-Library.Word"
begin

unbundle bit_operations_syntax

text \<open>
  The file system interface (\<open>pkg/filesystem/fs.go\<close>, an alias of the interface of
  \<open>golang.org/x/net/webdav\<close>), the file information values (\<open>fsutil/file_info.go\<close>) and the
  helpers that work over any file system (\<open>util.go\<close>): \<open>Write\<close>, \<open>Open\<close>, \<open>Create\<close>, \<open>Stat\<close>,
  \<open>MkdirAll\<close>, \<open>ReadDir\<close> and \<open>WalkDir\<close>.

  A file system is a record of operations over an explicit state \<open>'s\<close>, which stands for
  everything outside the process. An open file is a value of type \<open>'h\<close>: each file operation
  takes it and returns it updated. A context argument that only carries cancellation is left out.
\<close>

section \<open>Flags, modes and file information\<close>

type_synonym open_flag = int
type_synonym file_mode = "32 word"

text \<open>The open flags of package \<open>os\<close> (their Linux values) and the mode bits of \<open>io/fs\<close>.\<close>

definition O_RDONLY :: open_flag where "O_RDONLY = 0"
definition O_WRONLY :: open_flag where "O_WRONLY = 1"
definition O_RDWR :: open_flag where "O_RDWR = 2"
definition O_CREATE :: open_flag where "O_CREATE = 0x40"
definition O_TRUNC :: open_flag where "O_TRUNC = 0x200"
definition O_APPEND :: open_flag where "O_APPEND = 0x400"

lemmas open_flags = O_RDONLY_def O_WRONLY_def O_RDWR_def O_CREATE_def O_TRUNC_def O_APPEND_def

definition ModePerm :: file_mode where "ModePerm = 0x1FF"
definition ModeDir :: file_mode where "ModeDir = 0x80000000"

definition has_flag :: "open_flag \<Rightarrow> open_flag \<Rightarrow> bool" where
  "has_flag flag b \<longleftrightarrow> flag AND b \<noteq> 0"

record file_info =
  fi_name :: string
  fi_size :: int
  fi_mode :: file_mode
  fi_mod_time :: int
  fi_is_dir :: bool

definition NewDirFileInfo :: "string \<Rightarrow> file_info" where
  "NewDirFileInfo name =
     \<lparr>fi_name = name, fi_size = 0, fi_mode = 0x1ED, fi_mod_time = 0, fi_is_dir = True\<rparr>"

definition NewFileInfo :: "string \<Rightarrow> int \<Rightarrow> int \<Rightarrow> file_info" where
  "NewFileInfo name sz modTime =
     \<lparr>fi_name = name, fi_size = sz, fi_mode = 0x1B4, fi_mod_time = modTime, fi_is_dir = False\<rparr>"

lemma NewDirFileInfo_simps [simp]:
  "fi_name (NewDirFileInfo n) = n" "fi_is_dir (NewDirFileInfo n)"
  by (simp_all add: NewDirFileInfo_def)

lemma NewFileInfo_simps [simp]:
  "fi_name (NewFileInfo n k t) = n" "\<not> fi_is_dir (NewFileInfo n k t)" "fi_size (NewFileInfo n k t) = k"
  by (simp_all add: NewFileInfo_def)

record dir_entry =
  de_name :: string
  de_is_dir :: bool
  de_type :: file_mode
  de_info :: "go_error + file_info"

text \<open>The entry made from a file information value: \<open>statDirEntry\<close>, and \<open>fs.FileInfoToDirEntry\<close>,
  which answers the same. The type keeps the mode's type bits only.\<close>

definition mode_type :: "file_mode \<Rightarrow> file_mode" where
  "mode_type m = m AND 0x8F280000"

definition statDirEntry :: "file_info \<Rightarrow> dir_entry" where
  "statDirEntry fi =
     \<lparr>de_name = fi_name fi, de_is_dir = fi_is_dir fi, de_type = mode_type (fi_mode fi), de_info = Inr fi\<rparr>"

section \<open>The interface\<close>

record ('h, 's) filesystem =
  fs_mkdir :: "string \<Rightarrow> file_mode \<Rightarrow> 's \<Rightarrow> go_error option \<times> 's"
  fs_open_file :: "string \<Rightarrow> open_flag \<Rightarrow> file_mode \<Rightarrow> 's \<Rightarrow> (go_error + 'h) \<times> 's"
  fs_remove_all :: "string \<Rightarrow> 's \<Rightarrow> go_error option \<times> 's"
  fs_rename :: "string \<Rightarrow> string \<Rightarrow> 's \<Rightarrow> go_error option \<times> 's"
  fs_stat :: "string \<Rightarrow> 's \<Rightarrow> (go_error + file_info) \<times> 's"
  f_close :: "'h \<Rightarrow> 's \<Rightarrow> go_error option \<times> 'h \<times> 's"
  f_read :: "'h \<Rightarrow> nat \<Rightarrow> 's \<Rightarrow> (int \<times> bytes \<times> go_error option) \<times> 'h \<times> 's"
  f_write :: "'h \<Rightarrow> bytes \<Rightarrow> 's \<Rightarrow> (int \<times> go_error option) \<times> 'h \<times> 's"
  f_seek :: "'h \<Rightarrow> int \<Rightarrow> int \<Rightarrow> 's \<Rightarrow> (int \<times> go_error option) \<times> 'h \<times> 's"
  f_readdir :: "'h \<Rightarrow> int \<Rightarrow> 's \<Rightarrow> (go_error + file_info list) \<times> 'h \<times> 's"
  f_stat :: "'h \<Rightarrow> 's \<Rightarrow> (go_error + file_info) \<times> 'h \<times> 's"
  f_read_dir :: "('h \<Rightarrow> int \<Rightarrow> 's \<Rightarrow> (dir_entry list \<times> go_error option) \<times> 'h \<times> 's) option"

text \<open>
  The last field says whether the files also implement \<open>fs.ReadDirFile\<close>, the dynamic test
  of \<open>ReadDir\<close>. A read returns the count, the bytes put into the buffer and the error.
\<close>

section \<open>Helpers over any file system\<close>

definition Stat :: "('h, 's) filesystem \<Rightarrow> string \<Rightarrow> 's \<Rightarrow> (go_error + file_info) \<times> 's" where
  "Stat fsys name s = fs_stat fsys name s"

text \<open>\<open>Write\<close>: the deferred \<open>Close\<close> runs, its error is dropped.\<close>

definition Write :: "('h, 's) filesystem \<Rightarrow> string \<Rightarrow> bytes \<Rightarrow> 's \<Rightarrow> go_error option \<times> 's" where
  "Write system name data s =
     (case fs_open_file system name (O_RDWR OR O_CREATE OR O_TRUNC) ModePerm s of
        (Inl err, s1) \<Rightarrow> (Some err, s1)
      | (Inr f, s1) \<Rightarrow>
          (case f_write system f data s1 of
             ((n, err), f', s2) \<Rightarrow>
               (case f_close system f' s2 of (_, _, s3) \<Rightarrow> (err, s3))))"

definition Open :: "('h, 's) filesystem \<Rightarrow> string \<Rightarrow> 's \<Rightarrow> (go_error + 'h) \<times> 's" where
  "Open system name = fs_open_file system name O_RDONLY 0"

definition Create :: "('h, 's) filesystem \<Rightarrow> string \<Rightarrow> 's \<Rightarrow> (go_error + 'h) \<times> 's" where
  "Create system name = fs_open_file system name (O_RDWR OR O_CREATE OR O_TRUNC) 0x1B6"

text \<open>A client that writes a list of chunks to an open file, up to the first error.\<close>

fun write_all :: "('h, 's) filesystem \<Rightarrow> 'h \<Rightarrow> bytes list \<Rightarrow> 's \<Rightarrow> bool \<times> 'h \<times> 's" where
  "write_all fsys f [] s = (True, f, s)"
| "write_all fsys f (p # ps) s =
     (case f_write fsys f p s of
        ((n, None), f', s') \<Rightarrow> write_all fsys f' ps s'
      | ((n, Some e), f', s') \<Rightarrow> (False, f', s'))"

text \<open>The two scans of \<open>MkdirAll\<close>, from an index back over separators and over an element.\<close>

fun back_over_seps :: "string \<Rightarrow> nat \<Rightarrow> nat" where
  "back_over_seps path 0 = 0"
| "back_over_seps path (Suc i) = (if path ! i = slash then back_over_seps path i else Suc i)"

fun back_over_elem :: "string \<Rightarrow> nat \<Rightarrow> nat" where
  "back_over_elem path 0 = 0"
| "back_over_elem path (Suc j) = (if path ! j \<noteq> slash then back_over_elem path j else Suc j)"

lemma back_over_le: "back_over_seps p i \<le> i" "back_over_elem p i \<le> i"
  by (induction i) (auto intro: le_SucI)

definition parent_index :: "string \<Rightarrow> nat" where
  "parent_index path = back_over_elem path (back_over_seps path (length path))"

lemma parent_index_le: "parent_index p \<le> length p"
  unfolding parent_index_def using back_over_le by (meson le_trans)

function MkdirAll :: "('h, 's) filesystem \<Rightarrow> string \<Rightarrow> 's \<Rightarrow> go_error option \<times> 's" where
  "MkdirAll fsys path s =
     (case Stat fsys path s of
        (Inr dir, s1) \<Rightarrow>
          if fi_is_dir dir then (None, s1)
          else (Some (PathError ''mkdir'' path (Errno ENOTDIR)), s1)
      | (Inl _, s1) \<Rightarrow>
          (case (if 1 < parent_index path
                 then MkdirAll fsys (take (parent_index path - 1) path) s1 else (None, s1)) of
             (Some err, s2) \<Rightarrow> (Some err, s2)
           | (None, s2) \<Rightarrow>
               (case fs_mkdir fsys path ModePerm s2 of
                  (None, s3) \<Rightarrow> (None, s3)
                | (Some err, s3) \<Rightarrow>
                    (case Stat fsys path s3 of
                       (Inr dir, s4) \<Rightarrow> if fi_is_dir dir then (None, s4) else (Some err, s4)
                     | (Inl _, s4) \<Rightarrow> (Some err, s4)))))"
  by pat_completeness auto
termination
proof (relation "measure (\<lambda>(fsys, path, s). length path)", goal_cases)
  case (2 fsys path s a b)
  then show ?case using parent_index_le [of path] by simp
qed simp

declare MkdirAll.simps [simp del]

text \<open>\<open>ReadDir\<close>. Go's sort is not stable, which shows only between entries of one name.\<close>

definition ReadDir ::
  "('h, 's) filesystem \<Rightarrow> string \<Rightarrow> 's \<Rightarrow> (dir_entry list \<times> go_error option) \<times> 's" where
  "ReadDir fsys name s =
     (case fs_open_file fsys name O_RDONLY ModeDir s of
        (Inl err, s1) \<Rightarrow> (([], Some err), s1)
      | (Inr file, s1) \<Rightarrow>
          (case f_read_dir fsys of
             None \<Rightarrow>
               (case f_readdir fsys file (-1) s1 of
                  (Inl err, file', s2) \<Rightarrow> (([], Some err), snd (snd (f_close fsys file' s2)))
                | (Inr infos, file', s2) \<Rightarrow>
                    ((sort_key de_name (map statDirEntry infos), None), snd (snd (f_close fsys file' s2))))
           | Some read_dir \<Rightarrow>
               (case read_dir file (-1) s1 of
                  ((list, err), file', s2) \<Rightarrow>
                    ((sort_key de_name list, err), snd (snd (f_close fsys file' s2))))))"

text \<open>
  \<open>WalkDir\<close>. The callback may change the state. Directories can nest without bound (the
  tree is the server's), so the walk takes fuel: \<^const>\<open>None\<close> means that it was not enough.
\<close>

type_synonym 's walk_fn = "string \<Rightarrow> dir_entry option \<Rightarrow> go_error option \<Rightarrow> 's \<Rightarrow> go_error option \<times> 's"

definition skipped_dir :: "dir_entry \<Rightarrow> go_error option \<Rightarrow> go_error option" where
  "skipped_dir d err =
     (case err of Some e \<Rightarrow> if errors_is e SkipDir \<and> de_is_dir d then None else err | None \<Rightarrow> None)"

fun walkDir :: "nat \<Rightarrow> ('h, 's) filesystem \<Rightarrow> 's walk_fn \<Rightarrow> string \<Rightarrow> dir_entry \<Rightarrow> 's
    \<Rightarrow> (go_error option \<times> 's) option"
  and walkEntries :: "nat \<Rightarrow> ('h, 's) filesystem \<Rightarrow> 's walk_fn \<Rightarrow> string \<Rightarrow> dir_entry list \<Rightarrow> 's
    \<Rightarrow> (go_error option \<times> 's) option" where
  "walkDir 0 fsys walkDirFn name d s = None"
| "walkDir (Suc n) fsys walkDirFn name d s =
     (case walkDirFn name (Some d) None s of
        (err, s1) \<Rightarrow>
          if err \<noteq> None \<or> \<not> de_is_dir d then Some (skipped_dir d err, s1)
          else
            (case ReadDir fsys name s1 of
               ((dirs, None), s2) \<Rightarrow> walkEntries n fsys walkDirFn name dirs s2
             | ((dirs, Some rerr), s2) \<Rightarrow>
                 (case walkDirFn name (Some d) (Some rerr) s2 of
                    (Some e, s3) \<Rightarrow> Some (skipped_dir d (Some e), s3)
                  | (None, s3) \<Rightarrow> walkEntries n fsys walkDirFn name dirs s3)))"
| "walkEntries n fsys walkDirFn name [] s = Some (None, s)"
| "walkEntries n fsys walkDirFn name (d1 # ds) s =
     (case walkDir n fsys walkDirFn (path_join [name, de_name d1]) d1 s of
        None \<Rightarrow> None
      | Some (Some e, s1) \<Rightarrow> if errors_is e SkipDir then Some (None, s1) else Some (Some e, s1)
      | Some (None, s1) \<Rightarrow> walkEntries n fsys walkDirFn name ds s1)"

definition WalkDir :: "nat \<Rightarrow> ('h, 's) filesystem \<Rightarrow> string \<Rightarrow> 's walk_fn \<Rightarrow> 's
    \<Rightarrow> (go_error option \<times> 's) option" where
  "WalkDir n fsys root fn s =
     (case (case Stat fsys root s of
              (Inl err, s1) \<Rightarrow> Some (fn root None (Some err) s1)
            | (Inr info, s1) \<Rightarrow> walkDir n fsys fn root (statDirEntry info) s1) of
        None \<Rightarrow> None
      | Some (Some e, s2) \<Rightarrow>
          if errors_is e SkipDir \<or> errors_is e SkipAll then Some (None, s2) else Some (Some e, s2)
      | Some (None, s2) \<Rightarrow> Some (None, s2))"


section \<open>MkdirAll on absolute paths\<close>

lemma back_over_elem_stop:
  "slash \<notin> set c \<Longrightarrow> k \<le> length c \<Longrightarrow> back_over_elem (s @ slash # c) (length s + 1 + k) = length s + 1"
proof (induction k)
  case (Suc k)
  then have "(s @ slash # c) ! (length s + 1 + k) = c ! k" "c ! k \<noteq> slash"
    by (auto simp: nth_append in_set_conv_nth)
  then show ?case using Suc by simp
qed simp

lemma parent_index_snoc:
  assumes "slash \<notin> set c" "c \<noteq> []"
  shows "parent_index (s @ slash # c) = length s + 1"
proof -
  obtain k where k: "length c = Suc k" using assms(2) by (cases c) auto
  then have "(s @ slash # c) ! (length s + length c) \<noteq> slash"
    using assms(1) by (auto simp: nth_append in_set_conv_nth)
  then have "back_over_seps (s @ slash # c) (length (s @ slash # c)) = length s + 1 + length c"
    by simp
  then show ?thesis
    using back_over_elem_stop [OF assms(1), of "length c" s] by (simp add: parent_index_def)
qed

text \<open>One level of the recursion: the parent first when there is one, then the directory.\<close>

lemma MkdirAll_abs:
  assumes "name_ok c"
  shows "MkdirAll fsys (abs_path (cs @ [c])) s =
     (case Stat fsys (abs_path (cs @ [c])) s of
        (Inr dir, s1) \<Rightarrow>
          if fi_is_dir dir then (None, s1)
          else (Some (PathError ''mkdir'' (abs_path (cs @ [c])) (Errno ENOTDIR)), s1)
      | (Inl _, s1) \<Rightarrow>
          (case (if cs = [] then (None, s1) else MkdirAll fsys (abs_path cs) s1) of
             (Some err, s2) \<Rightarrow> (Some err, s2)
           | (None, s2) \<Rightarrow>
               (case fs_mkdir fsys (abs_path (cs @ [c])) ModePerm s2 of
                  (None, s3) \<Rightarrow> (None, s3)
                | (Some err, s3) \<Rightarrow>
                    (case Stat fsys (abs_path (cs @ [c])) s3 of
                       (Inr dir, s4) \<Rightarrow> if fi_is_dir dir then (None, s4) else (Some err, s4)
                     | (Inl _, s4) \<Rightarrow> (Some err, s4)))))"
proof -
  let ?pre = "if cs = [] then [] else abs_path cs"
  have "parent_index (abs_path (cs @ [c])) = length ?pre + 1"
    using assms unfolding abs_path_snoc by (intro parent_index_snoc) (auto dest: name_okD)
  moreover have "take (length ?pre) (abs_path (cs @ [c])) = ?pre"
    by (simp add: abs_path_snoc)
  moreover have "(1 < length ?pre + 1) = (cs \<noteq> [])"
    by (auto simp: abs_path_def)
  ultimately have parent: "(if 1 < parent_index (abs_path (cs @ [c]))
       then MkdirAll fsys (take (parent_index (abs_path (cs @ [c])) - 1) (abs_path (cs @ [c]))) x
       else (None, x)) = (if cs = [] then (None, x) else MkdirAll fsys (abs_path cs) x)" for x
    by (cases "cs = []") auto
  show ?thesis by (subst MkdirAll.simps, unfold parent) (rule refl)
qed

definition is_dir_at :: "('h, 's) filesystem \<Rightarrow> 's \<Rightarrow> string \<Rightarrow> bool" where
  "is_dir_at fsys s name \<longleftrightarrow>
     (case fst (fs_stat fsys name s) of Inr fi \<Rightarrow> fi_is_dir fi | Inl _ \<Rightarrow> False)"

text \<open>
  What a file system promises about directories on the paths it accepts (\<open>good\<close>: lists of path
  elements): looking does not change anything, a successful \<open>Mkdir\<close> leaves a directory, and
  no \<open>Mkdir\<close> takes a directory away.
\<close>

locale dir_maker =
  fixes fsys :: "('h, 's) filesystem"
    and good :: "string list \<Rightarrow> bool"
  assumes stat_pure: "snd (fs_stat fsys name s) = s"
    and good_names: "good cs \<Longrightarrow> list_all name_ok cs"
    and good_parent: "good (cs @ [c]) \<Longrightarrow> cs \<noteq> [] \<Longrightarrow> good cs"
    and mkdir_makes:
      "good cs \<Longrightarrow> cs \<noteq> [] \<Longrightarrow> fs_mkdir fsys (abs_path cs) m s = (None, s') \<Longrightarrow> is_dir_at fsys s' (abs_path cs)"
    and mkdir_keeps:
      "good cs \<Longrightarrow> cs \<noteq> [] \<Longrightarrow> good ds \<Longrightarrow> ds \<noteq> [] \<Longrightarrow> is_dir_at fsys s (abs_path ds)
       \<Longrightarrow> is_dir_at fsys (snd (fs_mkdir fsys (abs_path cs) m s)) (abs_path ds)"
begin

lemma Stat_state: "Stat fsys name s = (r, s') \<Longrightarrow> s' = s"
  using stat_pure [of name s] by (simp add: Stat_def)

lemma Stat_dir: "Stat fsys name s = (Inr fi, s') \<Longrightarrow> fi_is_dir fi \<Longrightarrow> is_dir_at fsys s' name"
  using Stat_state [of name s "Inr fi" s'] by (simp add: Stat_def is_dir_at_def)

lemma MkdirAll_existing: "is_dir_at fsys s name \<Longrightarrow> MkdirAll fsys name s = (None, s)"
  using stat_pure [of name s]
  by (subst MkdirAll.simps) (auto simp: is_dir_at_def Stat_def split: prod.splits sum.splits)

lemma MkdirAll_keeps:
  assumes "good cs" "cs \<noteq> []" "good ds" "ds \<noteq> []" "is_dir_at fsys s (abs_path ds)"
  shows "is_dir_at fsys (snd (MkdirAll fsys (abs_path cs) s)) (abs_path ds)"
  using assms
proof (induction cs arbitrary: s rule: rev_induct)
  case (snoc c cs)
  have c: "name_ok c" using good_names [OF snoc.prems(1)] by simp
  let ?p = "abs_path (cs @ [c])"
  obtain r where st: "Stat fsys ?p s = (r, s)" by (metis Stat_state surj_pair)
  show ?case
  proof (cases r)
    case (Inr fi)
    then show ?thesis using st snoc.prems by (simp add: MkdirAll_abs [OF c])
  next
    case (Inl e)
    obtain r2 s2 where up: "(if cs = [] then (None, s) else MkdirAll fsys (abs_path cs) s) = (r2, s2)"
      by fastforce
    have dir2: "is_dir_at fsys s2 (abs_path ds)"
    proof (cases "cs = []")
      case False
      then show ?thesis
        using up snoc.IH [OF good_parent [OF snoc.prems(1) False] False snoc.prems(3-5)] by simp
    qed (use up snoc.prems in simp)
    obtain r3 s3 where mk: "fs_mkdir fsys ?p ModePerm s2 = (r3, s3)" by fastforce
    have dir3: "is_dir_at fsys s3 (abs_path ds)"
      using mkdir_keeps [OF snoc.prems(1) _ snoc.prems(3,4) dir2, of ModePerm] mk by simp
    obtain r4 where st4: "Stat fsys ?p s3 = (r4, s3)" by (metis Stat_state surj_pair)
    show ?thesis
      using st Inl up mk st4 dir2 dir3 by (simp add: MkdirAll_abs [OF c] split: option.split sum.split)
  qed
qed simp

lemma MkdirAll_makes:
  assumes "good cs" "cs \<noteq> []" "MkdirAll fsys (abs_path cs) s = (None, s')"
  shows "is_dir_at fsys s' (abs_path cs)"
proof -
  obtain ds c where cs: "cs = ds @ [c]" using assms(2) by (cases cs rule: rev_cases) auto
  have c: "name_ok c" using good_names [OF assms(1)] cs by simp
  note run = assms(3) [unfolded cs MkdirAll_abs [OF c]]
  show ?thesis
    using run mkdir_makes [OF assms(1,2)] Stat_dir
    unfolding cs by (auto split: prod.splits sum.splits option.splits if_splits)
qed

end

section \<open>WalkDir and its reference\<close>

text \<open>
  A finite tree of entries, and the walk by recursion on the tree: no file system, no fuel.
\<close>

datatype ftree = Tree (root_entry: dir_entry) (children: "ftree list")

fun height :: "ftree \<Rightarrow> nat" where
  "height (Tree d ts) = Suc (foldr max (map height ts) 0)"

fun tree_walk :: "'s walk_fn \<Rightarrow> string \<Rightarrow> ftree \<Rightarrow> 's \<Rightarrow> go_error option \<times> 's"
  and tree_walks :: "'s walk_fn \<Rightarrow> string \<Rightarrow> ftree list \<Rightarrow> 's \<Rightarrow> go_error option \<times> 's" where
  "tree_walk fn name (Tree d ts) s =
     (case fn name (Some d) None s of
        (err, s1) \<Rightarrow> if err \<noteq> None \<or> \<not> de_is_dir d then (skipped_dir d err, s1) else tree_walks fn name ts s1)"
| "tree_walks fn name [] s = (None, s)"
| "tree_walks fn name (t # ts) s =
     (case tree_walk fn (path_join [name, de_name (root_entry t)]) t s of
        (Some e, s1) \<Rightarrow> if errors_is e SkipDir then (None, s1) else (Some e, s1)
      | (None, s1) \<Rightarrow> tree_walks fn name ts s1)"

text \<open>
  The file system lists the tree as long as \<open>I\<close> holds of the state: every directory of the
  tree reads as its children, and reading it changes nothing.
\<close>

fun lists_tree :: "('s \<Rightarrow> bool) \<Rightarrow> ('h, 's) filesystem \<Rightarrow> string \<Rightarrow> ftree \<Rightarrow> bool" where
  "lists_tree I fsys name (Tree d ts) \<longleftrightarrow>
     (de_is_dir d \<longrightarrow> (\<forall>s. I s \<longrightarrow> ReadDir fsys name s = ((map root_entry ts, None), s))
        \<and> (\<forall>t \<in> set ts. lists_tree I fsys (path_join [name, de_name (root_entry t)]) t))"

text \<open>The entries in the order of the walk: a directory, then what is below it.\<close>

fun preorder :: "string \<Rightarrow> ftree \<Rightarrow> (string \<times> dir_entry) list" where
  "preorder name (Tree d ts) =
     (name, d) # (if de_is_dir d
                  then concat (map (\<lambda>t. preorder (path_join [name, de_name (root_entry t)]) t) ts) else [])"

text \<open>The callback leaves \<open>I\<close> true.\<close>

definition keeps :: "('s \<Rightarrow> bool) \<Rightarrow> 's walk_fn \<Rightarrow> bool" where
  "keeps I fn \<longleftrightarrow> (\<forall>name d err s. I s \<longrightarrow> I (snd (fn name d err s)))"

text \<open>The same for the entries the walk comes to.\<close>

definition keeps_on :: "('s \<Rightarrow> bool) \<Rightarrow> 's walk_fn \<Rightarrow> (string \<times> dir_entry) set \<Rightarrow> bool" where
  "keeps_on I fn P \<longleftrightarrow> (\<forall>(p, d) \<in> P. \<forall>err s. I s \<longrightarrow> I (snd (fn p (Some d) err s)))"

lemma keeps_on: "keeps I fn \<Longrightarrow> keeps_on I fn P"
  by (auto simp: keeps_def keeps_on_def)

lemma keeps_on_Un [simp]: "keeps_on I fn (P \<union> Q) \<longleftrightarrow> keeps_on I fn P \<and> keeps_on I fn Q"
  unfolding keeps_on_def by blast

lemma keeps_onD: "keeps_on I fn P \<Longrightarrow> (p, d) \<in> P \<Longrightarrow> I s \<Longrightarrow> fn p (Some d) err s = (r, s') \<Longrightarrow> I s'"
  unfolding keeps_on_def by (metis (mono_tags, lifting) case_prodD snd_conv)

lemma keeps_on_tree:
  "de_is_dir d \<Longrightarrow> keeps_on I fn (set (preorder name (Tree d ts))) \<Longrightarrow>
     keeps_on I fn (set (concat (map (\<lambda>t. preorder (path_join [name, de_name (root_entry t)]) t) ts)))"
  by (auto simp: keeps_on_def)

lemma height_child: "t \<in> set ts \<Longrightarrow> height t \<le> foldr max (map height ts) 0"
  by (induction ts) auto

lemma walk_keeps:
  "keeps_on I fn (set (preorder name t)) \<Longrightarrow> I s \<Longrightarrow> I (snd (tree_walk fn name t s))"
  "keeps_on I fn (set (concat (map (\<lambda>t. preorder (path_join [name, de_name (root_entry t)]) t) ts))) \<Longrightarrow> I s
     \<Longrightarrow> I (snd (tree_walks fn name ts s))"
proof (induction fn name t s and fn name ts s rule: tree_walk_tree_walks.induct)
  case (1 fn name d ts s)
  obtain err s1 where fn: "fn name (Some d) None s = (err, s1)" by fastforce
  have I1: "I s1" by (rule keeps_onD [OF 1(2) _ 1(3) fn]) simp
  show ?case
    using 1(1) [OF fn [symmetric] _ keeps_on_tree [OF _ 1(2)] I1] fn I1 by (cases "err \<noteq> None \<or> \<not> de_is_dir d") auto
next
  case (2 fn name s)
  then show ?case by simp
next
  case (3 fn name t ts s)
  have on: "keeps_on I fn (set (preorder (path_join [name, de_name (root_entry t)]) t))"
    "keeps_on I fn (set (concat (map (\<lambda>t. preorder (path_join [name, de_name (root_entry t)]) t) ts)))"
    using 3(3) by simp_all
  have "I (snd (tree_walk fn (path_join [name, de_name (root_entry t)]) t s))" by (rule 3(1) [OF on(1) 3(4)])
  then show ?case
    using 3(2) [OF _ _ on(2)]
    by (cases "tree_walk fn (path_join [name, de_name (root_entry t)]) t s") (auto split: option.splits)
qed

lemma walkDir_tree:
  "keeps_on I fn (set (preorder name t)) \<Longrightarrow> I s \<Longrightarrow> lists_tree I fsys name t \<Longrightarrow> height t \<le> n \<Longrightarrow>
     walkDir n fsys fn name (root_entry t) s = Some (tree_walk fn name t s)"
  "keeps_on I fn (set (concat (map (\<lambda>t. preorder (path_join [name, de_name (root_entry t)]) t) ts))) \<Longrightarrow> I s \<Longrightarrow>
     \<forall>t \<in> set ts. lists_tree I fsys (path_join [name, de_name (root_entry t)]) t \<and> height t \<le> n \<Longrightarrow>
     walkEntries n fsys fn name (map root_entry ts) s = Some (tree_walks fn name ts s)"
proof (induction fn name t s and fn name ts s arbitrary: n and n rule: tree_walk_tree_walks.induct)
  case (1 fn name d ts s)
  obtain m where n: "n = Suc m" using 1(5) by (cases n) auto
  obtain err s1 where fn: "fn name (Some d) None s = (err, s1)" by fastforce
  show ?case
  proof (cases "err \<noteq> None \<or> \<not> de_is_dir d")
    case True
    then show ?thesis using fn n by auto
  next
    case False
    have I1: "I s1" by (rule keeps_onD [OF 1(2) _ 1(3) fn]) simp
    have "\<forall>t \<in> set ts. lists_tree I fsys (path_join [name, de_name (root_entry t)]) t \<and> height t \<le> m"
      using 1(4,5) False n height_child [of _ ts] by fastforce
    then have "walkEntries m fsys fn name (map root_entry ts) s1 = Some (tree_walks fn name ts s1)"
      using 1(1) [OF fn [symmetric] False keeps_on_tree [OF _ 1(2)] I1] False by simp
    then show ?thesis using False fn n 1(4) I1 by simp
  qed
next
  case (2 fn name s)
  then show ?case by simp
next
  case (3 fn name t ts s)
  have on: "keeps_on I fn (set (preorder (path_join [name, de_name (root_entry t)]) t))"
    "keeps_on I fn (set (concat (map (\<lambda>t. preorder (path_join [name, de_name (root_entry t)]) t) ts)))"
    using 3(3) by simp_all
  have "walkDir n fsys fn (path_join [name, de_name (root_entry t)]) (root_entry t) s
      = Some (tree_walk fn (path_join [name, de_name (root_entry t)]) t s)"
    using 3(1) [OF on(1) 3(4)] 3(5) by simp
  moreover have "I (snd (tree_walk fn (path_join [name, de_name (root_entry t)]) t s))"
    using walk_keeps(1) [OF on(1) 3(4)] .
  ultimately show ?case
    using 3(2) [OF _ _ on(2)] 3(5)
    by (cases "tree_walk fn (path_join [name, de_name (root_entry t)]) t s") (auto split: option.split)
qed

text \<open>What \<open>WalkDir\<close> makes of the walk's error: the two skip values end the walk quietly.\<close>

fun walk_end :: "go_error option \<times> 's \<Rightarrow> go_error option \<times> 's" where
  "walk_end (None, s) = (None, s)"
| "walk_end (Some e, s) = (if errors_is e SkipDir \<or> errors_is e SkipAll then None else Some e, s)"

lemma WalkDir_tree:
  assumes "fs_stat fsys root s = (Inr info, s)" "root_entry t = statDirEntry info"
    and "keeps_on I fn (set (preorder root t))" "I s" "lists_tree I fsys root t" "height t \<le> n"
  shows "WalkDir n fsys root fn s = Some (walk_end (tree_walk fn root t s))"
  using walkDir_tree(1) [OF assms(3-6)] assms(1,2)
  by (cases "tree_walk fn root t s" rule: walk_end.cases) (simp_all add: WalkDir_def Stat_def)

text \<open>A callback that never fails is called on exactly the entries of the tree, in that order.\<close>

definition visits :: "(string \<Rightarrow> dir_entry option \<Rightarrow> 's \<Rightarrow> 's) \<Rightarrow> 's walk_fn" where
  "visits g = (\<lambda>name d err s. (None, g name d s))"

lemma tree_walk_visits:
  "fn = visits g \<Longrightarrow> tree_walk fn name t s = (None, fold (\<lambda>(p, d). g p (Some d)) (preorder name t) s)"
  "fn = visits g \<Longrightarrow> tree_walks fn name ts s =
     (None, fold (\<lambda>(p, d). g p (Some d))
              (concat (map (\<lambda>t. preorder (path_join [name, de_name (root_entry t)]) t) ts)) s)"
proof (induction fn name t s and fn name ts s rule: tree_walk_tree_walks.induct)
  case (1 fn name d ts s)
  then show ?case by (simp add: visits_def skipped_dir_def)
next
  case (2 fn name s)
  then show ?case by simp
next
  case (3 fn name t ts s)
  then show ?case by simp
qed

end
