(* ===== verification/Sub_Fs.thy ===== *)
theory Sub_Fs
  imports Filesystem
begin

text \<open>
  The view of a file system below one directory (\<open>pkg/filesystem/fs_sub.go\<close>): every name is
  checked and joined to the directory, and the paths in errors are cut back. The interface
  \<open>path_scope\<close> says what the joining promises, and the main results are that the view never
  names anything outside the directory and that its errors speak the caller's names.
\<close>

section \<open>The code\<close>

definition shorten :: "string \<Rightarrow> string \<Rightarrow> string option" where
  "shorten dir name =
     (if name = dir then Some ''.''
      else if length dir + 2 \<le> length name \<and> name ! length dir = slash \<and> take (length dir) name = dir
      then Some (drop (length dir + 1) name)
      else None)"

text \<open>\<open>fixErr\<close> rewrites the path of the first \<open>PathError\<close> that \<open>errors.As\<close> finds.\<close>

fun fixErr :: "string \<Rightarrow> go_error \<Rightarrow> go_error" where
  "fixErr dir (PathError op p e) =
     PathError op (case shorten dir p of Some short \<Rightarrow> short | None \<Rightarrow> p) e"
| "fixErr dir (LinkError op old new e) = LinkError op old new (fixErr dir e)"
| "fixErr dir (UrlError op u e) = UrlError op u (fixErr dir e)"
| "fixErr dir (WrapError msg e) = WrapError msg (fixErr dir e)"
| "fixErr dir (HTTPError code (Some e)) = HTTPError code (Some (fixErr dir e))"
| "fixErr dir e = e"

definition sub_name :: "string \<Rightarrow> string" where
  "sub_name name =
     (let name1 = (if has_prefix name ''/'' then tl name else name) in
      if name1 = [] then ''.'' else name1)"

definition fullName :: "string \<Rightarrow> string \<Rightarrow> string \<Rightarrow> go_error + string" where
  "fullName dir op name =
     (if \<not> valid_path (sub_name name)
      then Inl (PathError op (sub_name name) (ErrorString ''invalid name''))
      else Inr (path_join [dir, sub_name name]))"

definition subFS_Mkdir ::
  "('h, 's) filesystem \<Rightarrow> string \<Rightarrow> string \<Rightarrow> file_mode \<Rightarrow> 's \<Rightarrow> go_error option \<times> 's" where
  "subFS_Mkdir source dir name perm s =
     (case fullName dir ''mkdir'' name of
        Inl err \<Rightarrow> (Some err, s)
      | Inr full \<Rightarrow> apfst (map_option (fixErr dir)) (fs_mkdir source full perm s))"

definition subFS_OpenFile ::
  "('h, 's) filesystem \<Rightarrow> string \<Rightarrow> string \<Rightarrow> open_flag \<Rightarrow> file_mode \<Rightarrow> 's \<Rightarrow> (go_error + 'h) \<times> 's" where
  "subFS_OpenFile source dir name flag perm s =
     (case fullName dir ''openfile'' name of
        Inl err \<Rightarrow> (Inl err, s)
      | Inr full \<Rightarrow> apfst (map_sum (fixErr dir) id) (fs_open_file source full flag perm s))"

definition subFS_RemoveAll :: "('h, 's) filesystem \<Rightarrow> string \<Rightarrow> string \<Rightarrow> 's \<Rightarrow> go_error option \<times> 's" where
  "subFS_RemoveAll source dir name s =
     (case fullName dir ''remove_all'' name of
        Inl err \<Rightarrow> (Some err, s)
      | Inr full \<Rightarrow> apfst (map_option (fixErr dir)) (fs_remove_all source full s))"

definition subFS_Rename ::
  "('h, 's) filesystem \<Rightarrow> string \<Rightarrow> string \<Rightarrow> string \<Rightarrow> 's \<Rightarrow> go_error option \<times> 's" where
  "subFS_Rename source dir oldName newName s =
     (case fullName dir ''rename'' oldName of
        Inl err \<Rightarrow> (Some err, s)
      | Inr oldFull \<Rightarrow>
          (case fullName dir ''rename'' newName of
             Inl err \<Rightarrow> (Some err, s)
           | Inr newFull \<Rightarrow> apfst (map_option (fixErr dir)) (fs_rename source oldFull newFull s)))"

definition subFS_Stat :: "('h, 's) filesystem \<Rightarrow> string \<Rightarrow> string \<Rightarrow> 's \<Rightarrow> (go_error + file_info) \<times> 's" where
  "subFS_Stat source dir name s =
     (case fullName dir ''stat'' name of
        Inl err \<Rightarrow> (Inl err, s)
      | Inr full \<Rightarrow> apfst (map_sum (fixErr dir) id) (fs_stat source full s))"

text \<open>\<open>Sub\<close>; the files that the view opens are the source's files.\<close>

definition Sub :: "('h, 's) filesystem \<Rightarrow> string \<Rightarrow> ('h, 's) filesystem" where
  "Sub source dir =
     (if dir = ''/'' \<or> dir = [] then source
      else source\<lparr>fs_mkdir := subFS_Mkdir source dir,
                  fs_open_file := subFS_OpenFile source dir,
                  fs_remove_all := subFS_RemoveAll source dir,
                  fs_rename := subFS_Rename source dir,
                  fs_stat := subFS_Stat source dir\<rparr>)"

section \<open>Confinement\<close>

text \<open>What a resolver of names promises: whatever it accepts lies below its base.\<close>

locale path_scope =
  fixes base :: string
    and resolve :: "string \<Rightarrow> go_error + string"
  assumes resolve_under: "resolve name = Inr p \<Longrightarrow> under base p"
begin

text \<open>An operation on the resolved name depends on what lies below the base only.\<close>

lemma resolved_cong:
  assumes "\<And>p. under base p \<Longrightarrow> F p = G p"
  shows "(case resolve name of Inl e \<Rightarrow> E e | Inr p \<Rightarrow> F p) = (case resolve name of Inl e \<Rightarrow> E e | Inr p \<Rightarrow> G p)"
  using assms resolve_under by (auto split: sum.split)

lemma resolved_pair_cong:
  assumes "\<And>p q. under base p \<Longrightarrow> under base q \<Longrightarrow> F p q = G p q"
  shows "(case resolve n of Inl e \<Rightarrow> E e | Inr p \<Rightarrow> (case resolve m of Inl e \<Rightarrow> E e | Inr q \<Rightarrow> F p q))
    = (case resolve n of Inl e \<Rightarrow> E e | Inr p \<Rightarrow> (case resolve m of Inl e \<Rightarrow> E e | Inr q \<Rightarrow> G p q))"
  using assms resolve_under by (auto split: sum.split)

end

interpretation sub_scope: path_scope dir "fullName dir op" for dir op
  by unfold_locales (auto simp: fullName_def path_join_valid_under split: if_splits)

definition agree_under :: "string \<Rightarrow> ('h, 's) filesystem \<Rightarrow> ('h, 's) filesystem \<Rightarrow> bool" where
  "agree_under dir f g \<longleftrightarrow>
     (\<forall>p. under dir p \<longrightarrow>
        fs_mkdir f p = fs_mkdir g p \<and> fs_open_file f p = fs_open_file g p
        \<and> fs_remove_all f p = fs_remove_all g p \<and> fs_stat f p = fs_stat g p
        \<and> (\<forall>q. under dir q \<longrightarrow> fs_rename f p q = fs_rename g p q))"

lemma agree_underD:
  assumes "agree_under dir f g" "under dir p"
  shows "fs_mkdir f p = fs_mkdir g p" "fs_open_file f p = fs_open_file g p"
    "fs_remove_all f p = fs_remove_all g p" "fs_stat f p = fs_stat g p"
    "under dir q \<Longrightarrow> fs_rename f p q = fs_rename g p q"
  using assms by (auto simp: agree_under_def)

text \<open>C1: A view is confined to its directory: two file systems that agree on every path below the
  directory (the same root, the directory's elements first, and no dot-dot element) have views
  with the same operations, on all names, also names with dot-dot elements.\<close>

theorem Sub_confined:
  assumes "agree_under dir f g" "dir \<noteq> []" "dir \<noteq> ''/''"
  shows "fs_mkdir (Sub f dir) = fs_mkdir (Sub g dir)
    \<and> fs_open_file (Sub f dir) = fs_open_file (Sub g dir)
    \<and> fs_remove_all (Sub f dir) = fs_remove_all (Sub g dir)
    \<and> fs_rename (Sub f dir) = fs_rename (Sub g dir)
    \<and> fs_stat (Sub f dir) = fs_stat (Sub g dir)"
proof -
  note agree = agree_underD [OF assms(1)]
  have "subFS_Mkdir f dir = subFS_Mkdir g dir" "subFS_OpenFile f dir = subFS_OpenFile g dir"
    "subFS_RemoveAll f dir = subFS_RemoveAll g dir" "subFS_Stat f dir = subFS_Stat g dir"
    by (auto simp: fun_eq_iff subFS_Mkdir_def subFS_OpenFile_def subFS_RemoveAll_def subFS_Stat_def
        agree intro!: sub_scope.resolved_cong)
  moreover have "subFS_Rename f dir = subFS_Rename g dir"
    by (auto simp: fun_eq_iff subFS_Rename_def agree intro!: sub_scope.resolved_pair_cong)
  ultimately show ?thesis using assms(2,3) by (simp add: Sub_def)
qed

section \<open>Errors in the caller's names\<close>

lemma shorten_join: "n \<noteq> [] \<Longrightarrow> shorten dir (dir @ slash # n) = Some n"
  by (cases n) (auto simp: shorten_def)

lemma fullName_join:
  assumes "list_all name_ok cs" "cs \<noteq> []" "valid_path n" "n \<noteq> ''.''" "\<not> has_prefix n ''/''"
  shows "path_join [abs_path cs, n] = abs_path cs @ slash # n"
proof -
  have ns: "list_all name_ok (split_on slash n)" using assms(3,4) by (rule valid_path_good)
  then have good: "\<forall>e \<in> set (split_on slash n). good_elem e" by (auto simp: list_all_iff name_ok_def)
  have ne: "abs_path cs \<noteq> []" by (simp add: abs_path_def)
  have "abs_path cs @ slash # n = abs_path (cs @ split_on slash n)"
    using assms(2) by (simp add: abs_path_def join_with_append)
  moreover have "path_clean (abs_path (cs @ split_on slash n)) = abs_path (cs @ split_on slash n)"
    using assms(1) ns by (intro path_clean_abs) simp
  ultimately show ?thesis using ne by (simp add: path_join2)
qed

text \<open>The error of the source names the full path; the view's error names the path the caller
  gave (without its leading slash), with the operation and the cause unchanged.\<close>

theorem Sub_error_names:
  assumes "list_all name_ok cs" "cs \<noteq> []" "valid_path n" "n \<noteq> ''.''"
    and "fs_stat source (abs_path cs @ slash # n) s = (Inl (PathError op (abs_path cs @ slash # n) e), s')"
  shows "fs_stat (Sub source (abs_path cs)) (slash # n) s = (Inl (PathError op n e), s')"
proof -
  have n: "n \<noteq> []" "\<not> has_prefix n ''/''"
    using assms(3) by (cases n; auto simp: valid_path_def good_elem_def)+
  have "join_with ''/'' cs \<noteq> []" using assms(1,2) by (cases cs; cases "tl cs") (auto dest: name_okD)
  then have dir: "abs_path cs \<noteq> ''/''" "abs_path cs \<noteq> []" by (simp_all add: abs_path_def)
  have "fullName (abs_path cs) ''stat'' (slash # n) = Inr (abs_path cs @ slash # n)"
    using assms(3) n fullName_join [OF assms(1-4) n(2)] by (simp add: fullName_def sub_name_def)
  then show ?thesis
    using dir assms(5) shorten_join [OF n(1)] by (simp add: Sub_def subFS_Stat_def)
qed


section \<open>Witnesses\<close>

text \<open>A file system that only answers \<open>Stat\<close>: every path is missing, but for the ones given.\<close>

definition stat_only :: "string list \<Rightarrow> (unit, unit) filesystem" where
  "stat_only present =
     \<lparr>fs_mkdir = (\<lambda>name perm s. (Some ErrPermission, s)),
      fs_open_file = (\<lambda>name flag perm s. (Inl ErrPermission, s)),
      fs_remove_all = (\<lambda>name s. (Some ErrPermission, s)),
      fs_rename = (\<lambda>old new s. (Some ErrPermission, s)),
      fs_stat = (\<lambda>name s.
        (if name \<in> set present then Inr (NewDirFileInfo (path_base name))
         else Inl (PathError ''stat'' name ErrNotExist), s)),
      f_close = (\<lambda>h s. (None, h, s)),
      f_read = (\<lambda>h n s. ((0, [], Some EOF), h, s)),
      f_write = (\<lambda>h p s. ((0, Some ErrPermission), h, s)),
      f_seek = (\<lambda>h off whence s. ((0, None), h, s)),
      f_readdir = (\<lambda>h n s. (Inr [], h, s)),
      f_stat = (\<lambda>h s. (Inl ErrNotExist, h, s)),
      f_read_dir = None\<rparr>"

lemma stat_only_agree: "agree_under ''/srv'' (stat_only [''/etc'']) (stat_only [])"
proof -
  have "path_elems ''/etc'' = [''etc'']" "path_elems ''/srv'' = [''srv'']"
    by (simp_all add: path_elems_def clean_step_def)
  then have "\<not> under ''/srv'' ''/etc''" by (simp add: under_def)
  then show ?thesis by (auto simp: agree_under_def stat_only_def fun_eq_iff)
qed

theorem Sub_confined_witness:
  "agree_under ''/srv'' (stat_only [''/etc'']) (stat_only [])
   \<and> fs_stat (stat_only [''/etc'']) ''/etc'' () \<noteq> fs_stat (stat_only []) ''/etc'' ()
   \<and> fs_stat (Sub (stat_only [''/etc'']) ''/srv'') = fs_stat (Sub (stat_only []) ''/srv'')"
  using stat_only_agree Sub_confined [OF stat_only_agree] by (simp add: stat_only_def)

theorem Sub_error_names_witness:
  "fs_stat (Sub (stat_only []) ''/srv'') ''/a/b'' () = (Inl (PathError ''stat'' ''a/b'' ErrNotExist), ())"
proof -
  have srv: "abs_path [''srv''] = ''/srv''" by (simp add: abs_path_def)
  have "fs_stat (Sub (stat_only []) (abs_path [''srv''])) (slash # ''a/b'') ()
      = (Inl (PathError ''stat'' ''a/b'' ErrNotExist), ())"
    by (rule Sub_error_names)
      (simp_all add: srv name_ok_def good_elem_def valid_path_def stat_only_def)
  then show ?thesis by (simp add: srv)
qed

end
