(* ===== verification/Wrappers.thy ===== *)
theory Wrappers
  imports Sub_Fs
begin

text \<open>
  The two wrappers that put a file system behind the FTP server: the logging wrapper
  (\<open>pkg/filesystem/logr/fs.go\<close>) and the adaptor to \<open>afero\<close> (\<open>pkg/aferofsutil/adaptor.go\<close>).
  The log is a list of entries that the wrapper's state carries next to the wrapped state.
\<close>

section \<open>Logging\<close>

datatype log_level = LogError go_error | LogDebug

record log_entry =
  le_values :: "(string \<times> string) list"
  le_level :: log_level

definition logr_done :: "go_error option \<Rightarrow> string \<Rightarrow> string \<Rightarrow> (string \<times> string) list \<Rightarrow> log_entry" where
  "logr_done err op path values =
     \<lparr>le_values = [(''op'', op), (''path'', path)] @ values,
      le_level = (case err of Some e \<Rightarrow> LogError e | None \<Rightarrow> LogDebug)\<rparr>"

text \<open>
  Each method starts with \<open>defer f.done(err, ...)\<close>. Go evaluates the arguments of a deferred
  call when the \<open>defer\<close> statement runs, so the entry is made with the initial value of the
  result \<open>err\<close>, which is \<open>nil\<close>, and is written when the method returns.
\<close>

definition deferred :: "log_entry \<Rightarrow> 'a \<times> 's \<Rightarrow> log_entry list \<Rightarrow> 'a \<times> 's \<times> log_entry list" where
  "deferred entry res log = (case res of (r, s') \<Rightarrow> (r, s', log @ [entry]))"

definition logr_Mkdir ::
  "('h, 's) filesystem \<Rightarrow> string \<Rightarrow> file_mode \<Rightarrow> 's \<times> log_entry list \<Rightarrow> go_error option \<times> 's \<times> log_entry list" where
  "logr_Mkdir f name perm = (\<lambda>(s, log).
     deferred (logr_done None ''mkdir'' name []) (fs_mkdir f name perm s) log)"

definition logr_OpenFile ::
  "('h, 's) filesystem \<Rightarrow> string \<Rightarrow> open_flag \<Rightarrow> file_mode \<Rightarrow> 's \<times> log_entry list
   \<Rightarrow> (go_error + 'h) \<times> 's \<times> log_entry list" where
  "logr_OpenFile f name flag perm = (\<lambda>(s, log).
     deferred (logr_done None ''openfile'' name []) (fs_open_file f name flag perm s) log)"

definition logr_RemoveAll ::
  "('h, 's) filesystem \<Rightarrow> string \<Rightarrow> 's \<times> log_entry list \<Rightarrow> go_error option \<times> 's \<times> log_entry list" where
  "logr_RemoveAll f name = (\<lambda>(s, log).
     deferred (logr_done None ''removeall'' name []) (fs_remove_all f name s) log)"

definition logr_Rename ::
  "('h, 's) filesystem \<Rightarrow> string \<Rightarrow> string \<Rightarrow> 's \<times> log_entry list \<Rightarrow> go_error option \<times> 's \<times> log_entry list" where
  "logr_Rename f oldName newName = (\<lambda>(s, log).
     deferred (logr_done None ''rename'' newName [(''from'', oldName)]) (fs_rename f oldName newName s) log)"

definition logr_Stat ::
  "('h, 's) filesystem \<Rightarrow> string \<Rightarrow> 's \<times> log_entry list \<Rightarrow> (go_error + file_info) \<times> 's \<times> log_entry list" where
  "logr_Stat f name = (\<lambda>(s, log).
     deferred (logr_done None ''stat'' name []) (fs_stat f name s) log)"

text \<open>The files are the wrapped file system's files; their operations do not log.\<close>

definition unlogged :: "('h \<Rightarrow> 's \<Rightarrow> 'a \<times> 'h \<times> 's) \<Rightarrow> 'h \<Rightarrow> 's \<times> 'l \<Rightarrow> 'a \<times> 'h \<times> 's \<times> 'l" where
  "unlogged op h = (\<lambda>(s, log). case op h s of (r, h', s') \<Rightarrow> (r, h', s', log))"

definition logr_Wrap :: "('h, 's) filesystem \<Rightarrow> ('h, 's \<times> log_entry list) filesystem" where
  "logr_Wrap f =
     \<lparr>fs_mkdir = logr_Mkdir f, fs_open_file = logr_OpenFile f, fs_remove_all = logr_RemoveAll f,
      fs_rename = logr_Rename f, fs_stat = logr_Stat f,
      f_close = unlogged (f_close f),
      f_read = (\<lambda>h n. unlogged (\<lambda>h. f_read f h n) h),
      f_write = (\<lambda>h p. unlogged (\<lambda>h. f_write f h p) h),
      f_seek = (\<lambda>h off whence. unlogged (\<lambda>h. f_seek f h off whence) h),
      f_readdir = (\<lambda>h n. unlogged (\<lambda>h. f_readdir f h n) h),
      f_stat = unlogged (f_stat f),
      f_read_dir = map_option (\<lambda>rd h n. unlogged (\<lambda>h. rd h n) h) (f_read_dir f)\<rparr>"

lemmas logr_ops = logr_Mkdir_def logr_OpenFile_def logr_RemoveAll_def logr_Rename_def logr_Stat_def

lemma logr_Wrap_simps [simp]:
  "fs_mkdir (logr_Wrap f) = logr_Mkdir f" "fs_open_file (logr_Wrap f) = logr_OpenFile f"
  "fs_remove_all (logr_Wrap f) = logr_RemoveAll f" "fs_rename (logr_Wrap f) = logr_Rename f"
  "fs_stat (logr_Wrap f) = logr_Stat f"
  by (simp_all add: logr_Wrap_def)

text \<open>The five operations that log, as requests: what they answer and how they change the state.\<close>

datatype fs_request =
    ReqMkdir string file_mode
  | ReqOpen string open_flag file_mode
  | ReqRemoveAll string
  | ReqRename string string
  | ReqStat string

datatype 'h fs_answer =
    AnsErr "go_error option"
  | AnsOpen "go_error + 'h"
  | AnsStat "go_error + file_info"

fun serve :: "('h, 's) filesystem \<Rightarrow> fs_request \<Rightarrow> 's \<Rightarrow> 'h fs_answer \<times> 's" where
  "serve f (ReqMkdir name perm) s = apfst AnsErr (fs_mkdir f name perm s)"
| "serve f (ReqOpen name flag perm) s = apfst AnsOpen (fs_open_file f name flag perm s)"
| "serve f (ReqRemoveAll name) s = apfst AnsErr (fs_remove_all f name s)"
| "serve f (ReqRename old new) s = apfst AnsErr (fs_rename f old new s)"
| "serve f (ReqStat name) s = apfst AnsStat (fs_stat f name s)"

fun serve_all :: "('h, 's) filesystem \<Rightarrow> fs_request list \<Rightarrow> 's \<Rightarrow> 'h fs_answer list \<times> 's" where
  "serve_all f [] s = ([], s)"
| "serve_all f (r # rs) s =
     (case serve f r s of (a, s1) \<Rightarrow> (case serve_all f rs s1 of (as, s2) \<Rightarrow> (a # as, s2)))"

lemma serve_logr:
  "serve (logr_Wrap f) r (s, log) = (case serve f r s of (a, s') \<Rightarrow>
     (a, s', log @ [snd (snd (serve (logr_Wrap f) r (s, []))) ! 0]))"
  by (cases r) (auto simp: logr_ops deferred_def split: prod.splits)

text \<open>C10: The logging wrapper changes no behaviour: for every sequence of requests it gives the
  wrapped file system's answers and leaves it in the same state, and it writes one entry for
  each request.\<close>

theorem logr_transparent:
  "\<exists>entries. serve_all (logr_Wrap f) rs (s, log)
      = (fst (serve_all f rs s), snd (serve_all f rs s), log @ entries)
    \<and> length entries = length rs"
proof (induction rs arbitrary: s log)
  case (Cons r rs)
  obtain a s1 where r: "serve f r s = (a, s1)" by fastforce
  obtain e where one: "serve (logr_Wrap f) r (s, log) = (a, s1, log @ [e])"
    using serve_logr [of f r s log] r by auto
  obtain entries where rest: "serve_all (logr_Wrap f) rs (s1, log @ [e])
      = (fst (serve_all f rs s1), snd (serve_all f rs s1), (log @ [e]) @ entries)"
    "length entries = length rs"
    using Cons.IH [of s1 "log @ [e]"] by blast
  show ?case
    using r one rest by (intro exI [of _ "e # entries"]) (auto split: prod.splits)
qed simp

text \<open>No failure is ever logged: whatever errors the wrapped file system returns, every entry
  that the wrapper adds is a debug entry.\<close>

theorem logr_never_logs_errors:
  assumes "le_level ` set log \<subseteq> {LogDebug}"
  shows "le_level ` set (snd (snd (serve_all (logr_Wrap f) rs (s, log)))) \<subseteq> {LogDebug}"
  using assms unfolding image_subset_iff singleton_iff
proof (induction rs arbitrary: s log)
  case (Cons r rs)
  obtain a s1 log1 where r: "serve (logr_Wrap f) r (s, log) = (a, s1, log1)" by (metis prod_cases3)
  then have "\<forall>entry \<in> set log1. le_level entry = LogDebug"
    using Cons.prems by (cases r) (auto simp: logr_ops deferred_def logr_done_def split: prod.splits)
  then show ?case using Cons.IH [of log1 s1] r by (simp split: prod.split)
qed simp

theorem logr_never_logs_errors_witness:
  "le_level ` set (snd (snd (serve_all (logr_Wrap (stat_only [])) [ReqStat ''/a''] ((), [])))) \<subseteq> {LogDebug}"
  by (rule logr_never_logs_errors) simp

section \<open>The adaptor to afero\<close>

record 'h afile =
  af_info :: file_info
  af_file :: 'h

definition notImplemented :: "string \<Rightarrow> string \<Rightarrow> go_error" where
  "notImplemented op path = PathError op path ErrPermission"

definition adaptor_OpenFile ::
  "('h, 's) filesystem \<Rightarrow> string \<Rightarrow> open_flag \<Rightarrow> file_mode \<Rightarrow> 's \<Rightarrow> (go_error + 'h afile) \<times> 's" where
  "adaptor_OpenFile fs name flag perm s =
     (case fs_open_file fs name flag perm s of
        (Inl err, s1) \<Rightarrow> (Inl err, s1)
      | (Inr f, s1) \<Rightarrow>
          (case f_stat fs f s1 of
             (Inl err, f', s2) \<Rightarrow> (Inl err, s2)
           | (Inr info, f', s2) \<Rightarrow> (Inr \<lparr>af_info = info, af_file = f'\<rparr>, s2)))"

definition adaptor_Create :: "('h, 's) filesystem \<Rightarrow> string \<Rightarrow> 's \<Rightarrow> (go_error + 'h afile) \<times> 's" where
  "adaptor_Create fs name = adaptor_OpenFile fs name (O_RDWR OR O_CREATE OR O_TRUNC) 0x1B6"

definition adaptor_Open :: "('h, 's) filesystem \<Rightarrow> string \<Rightarrow> 's \<Rightarrow> (go_error + 'h afile) \<times> 's" where
  "adaptor_Open fs name = adaptor_OpenFile fs name O_RDONLY 0"

definition adaptor_Mkdir :: "('h, 's) filesystem \<Rightarrow> string \<Rightarrow> file_mode \<Rightarrow> 's \<Rightarrow> go_error option \<times> 's" where
  "adaptor_Mkdir fs name perm = fs_mkdir fs name perm"

definition adaptor_MkdirAll :: "('h, 's) filesystem \<Rightarrow> string \<Rightarrow> file_mode \<Rightarrow> 's \<Rightarrow> go_error option \<times> 's" where
  "adaptor_MkdirAll fs path perm = MkdirAll fs path"

definition adaptor_Remove :: "('h, 's) filesystem \<Rightarrow> string \<Rightarrow> 's \<Rightarrow> go_error option \<times> 's" where
  "adaptor_Remove fs name = fs_remove_all fs name"

definition adaptor_RemoveAll :: "('h, 's) filesystem \<Rightarrow> string \<Rightarrow> 's \<Rightarrow> go_error option \<times> 's" where
  "adaptor_RemoveAll fs path = fs_remove_all fs path"

definition adaptor_Rename :: "('h, 's) filesystem \<Rightarrow> string \<Rightarrow> string \<Rightarrow> 's \<Rightarrow> go_error option \<times> 's" where
  "adaptor_Rename fs oldname newname = fs_rename fs oldname newname"

definition adaptor_Stat :: "('h, 's) filesystem \<Rightarrow> string \<Rightarrow> 's \<Rightarrow> (go_error + file_info) \<times> 's" where
  "adaptor_Stat fs name = fs_stat fs name"

definition adaptor_Name :: string where
  "adaptor_Name = ''unifs''"

definition adaptor_Chmod :: "string \<Rightarrow> file_mode \<Rightarrow> go_error option" where
  "adaptor_Chmod name mode = Some (notImplemented ''chmod'' name)"

definition adaptor_Chown :: "string \<Rightarrow> int \<Rightarrow> int \<Rightarrow> go_error option" where
  "adaptor_Chown name uid gid = Some (notImplemented ''chown'' name)"

definition adaptor_Chtimes :: "string \<Rightarrow> int \<Rightarrow> int \<Rightarrow> go_error option" where
  "adaptor_Chtimes name atime mtime = Some (notImplemented ''chtimes'' name)"

definition afile_Name :: "'h afile \<Rightarrow> string" where
  "afile_Name f = fi_name (af_info f)"

text \<open>The optional interfaces \<open>io.ReaderAt\<close>, \<open>io.WriterAt\<close>, \<open>FileSyncer\<close> and \<open>FileTruncator\<close>
  of the wrapped file are arguments: \<^const>\<open>None\<close> where its type does not implement them.\<close>

definition afile_ReadAt ::
  "('h \<Rightarrow> nat \<Rightarrow> int \<Rightarrow> 's \<Rightarrow> (int \<times> bytes \<times> go_error option) \<times> 'h \<times> 's) option
   \<Rightarrow> 'h afile \<Rightarrow> nat \<Rightarrow> int \<Rightarrow> 's \<Rightarrow> (int \<times> bytes \<times> go_error option) \<times> 'h afile \<times> 's" where
  "afile_ReadAt readerAt f n off s =
     (case readerAt of
        None \<Rightarrow> ((-1, [], Some (notImplemented ''readat'' (afile_Name f))), f, s)
      | Some read \<Rightarrow> (case read (af_file f) n off s of (r, h, s1) \<Rightarrow> (r, f\<lparr>af_file := h\<rparr>, s1)))"

definition afile_WriteAt ::
  "('h \<Rightarrow> bytes \<Rightarrow> int \<Rightarrow> 's \<Rightarrow> (int \<times> go_error option) \<times> 'h \<times> 's) option
   \<Rightarrow> 'h afile \<Rightarrow> bytes \<Rightarrow> int \<Rightarrow> 's \<Rightarrow> (int \<times> go_error option) \<times> 'h afile \<times> 's" where
  "afile_WriteAt writerAt f p off s =
     (case writerAt of
        None \<Rightarrow> ((-1, Some (notImplemented ''writeat'' (afile_Name f))), f, s)
      | Some wr \<Rightarrow> (case wr (af_file f) p off s of (r, h, s1) \<Rightarrow> (r, f\<lparr>af_file := h\<rparr>, s1)))"

definition afile_Readdirnames ::
  "('h, 's) filesystem \<Rightarrow> 'h afile \<Rightarrow> int \<Rightarrow> 's \<Rightarrow> (go_error + string list) \<times> 'h afile \<times> 's" where
  "afile_Readdirnames fs f n s =
     (case f_readdir fs (af_file f) n s of
        (r, h, s1) \<Rightarrow> (map_sum id (map fi_name) r, f\<lparr>af_file := h\<rparr>, s1))"

definition afile_Sync ::
  "('h \<Rightarrow> 's \<Rightarrow> go_error option \<times> 'h \<times> 's) option \<Rightarrow> 'h afile \<Rightarrow> 's \<Rightarrow> go_error option \<times> 'h afile \<times> 's" where
  "afile_Sync syncer f s =
     (case syncer of
        Some sync \<Rightarrow> (case sync (af_file f) s of (r, h, s1) \<Rightarrow> (r, f\<lparr>af_file := h\<rparr>, s1))
      | None \<Rightarrow> (None, f, s))"

definition afile_Truncate ::
  "('h \<Rightarrow> int \<Rightarrow> 's \<Rightarrow> go_error option \<times> 'h \<times> 's) option
   \<Rightarrow> 'h afile \<Rightarrow> int \<Rightarrow> 's \<Rightarrow> go_error option \<times> 'h afile \<times> 's" where
  "afile_Truncate truncator f sz s =
     (case truncator of
        Some trunc \<Rightarrow> (case trunc (af_file f) sz s of (r, h, s1) \<Rightarrow> (r, f\<lparr>af_file := h\<rparr>, s1))
      | None \<Rightarrow> (Some (notImplemented ''truncate'' (afile_Name f)), f, s))"

text \<open>
  \<open>WriteString\<close> calls \<open>io.WriteString(f, s)\<close>, and \<open>io.WriteString\<close> calls the \<open>WriteString\<close>
  method of its writer when the writer has one. The writer is the adaptor's file itself, whose
  type has the method.
\<close>

definition afile_is_StringWriter :: bool where
  "afile_is_StringWriter \<longleftrightarrow> True"

definition afile_Write ::
  "('h, 's) filesystem \<Rightarrow> 'h afile \<Rightarrow> bytes \<Rightarrow> 's \<Rightarrow> (int \<times> go_error option) \<times> 'h afile \<times> 's" where
  "afile_Write fs f p s = (case f_write fs (af_file f) p s of (r, h, s1) \<Rightarrow> (r, f\<lparr>af_file := h\<rparr>, s1))"

partial_function (option) afile_WriteString ::
  "('h, 's) filesystem \<Rightarrow> 'h afile \<Rightarrow> string \<Rightarrow> 's \<Rightarrow> ((int \<times> go_error option) \<times> 'h afile \<times> 's) option" where
  "afile_WriteString fs f str s =
     (if afile_is_StringWriter then afile_WriteString fs f str s
      else Some (afile_Write fs f str s))"

text \<open>The adaptor's \<open>WriteString\<close> never returns, for any file and any string: it calls itself
  through \<open>io.WriteString\<close>.\<close>

theorem WriteString_diverges: "afile_WriteString fs f str s = None"
proof (rule ccontr)
  assume "afile_WriteString fs f str s \<noteq> None"
  then obtain r where "afile_WriteString fs f str s = Some r" by blast
  then show False
    by (rule afile_WriteString.raw_induct [where P = "\<lambda>fs f str s r. False", rotated])
      (simp add: afile_is_StringWriter_def)
qed

text \<open>An adaptor file is open exactly when the file system opened it and could stat it, and it
  answers \<open>Name\<close> with the name of that stat.\<close>

theorem adaptor_OpenFile_result:
  "adaptor_OpenFile fs name flag perm s = (Inr af, s2) \<longleftrightarrow>
     (\<exists>f s1 f' info. fs_open_file fs name flag perm s = (Inr f, s1)
        \<and> f_stat fs f s1 = (Inr info, f', s2) \<and> af = \<lparr>af_info = info, af_file = f'\<rparr>
        \<and> afile_Name af = fi_name info)"
  by (auto simp: adaptor_OpenFile_def afile_Name_def split: prod.splits sum.splits)

end
