(* ===== verification/Strfmt.thy ===== *)
theory Strfmt
  imports Go_Url "HOL-Library.Word"
begin

text \<open>
  The endpoint of a backend (\<open>pkg/strfmt/endpoint.go\<close>): parsing, printing and the derived
  fields. The main result is that parsing what \<open>String\<close> prints gives the endpoint back; the
  mount command depends on it, since \<open>mounter.Mount\<close> hands the printed endpoint to a second
  process that parses it again.
\<close>

section \<open>The code\<close>

record Endpoint =
  Scheme :: string
  Hostname :: string
  Port :: "16 word"
  Path :: string
  Username :: string
  Password :: string
  Extra :: url_values

definition ParseEndpoint :: "(string \<Rightarrow> go_error + string) \<Rightarrow> string \<Rightarrow> go_error + Endpoint" where
  "ParseEndpoint ip_literal text =
     (case parse_request_uri ip_literal text of
        Inl err \<Rightarrow> Inl err
      | Inr u \<Rightarrow>
          Inr \<lparr>Scheme = url_scheme u,
               Hostname = url_hostname u,
               Port = (case parse_uint 16 (url_port u) of Some i \<Rightarrow> of_nat i | None \<Rightarrow> 0),
               Path = url_path u,
               Username = (case url_user u of Some (name, _) \<Rightarrow> name | None \<Rightarrow> []),
               Password = (case url_user u of Some (_, Some pwd) \<Rightarrow> pwd | _ \<Rightarrow> []),
               Extra = url_query u\<rparr>)"

definition Endpoint_Base :: "Endpoint \<Rightarrow> string" where
  "Endpoint_Base e = (if Path e \<noteq> [] then hd (split_on slash (tl (Path e))) else [])"

definition Endpoint_IsZero :: "Endpoint \<Rightarrow> bool" where
  "Endpoint_IsZero e \<longleftrightarrow> Scheme e = []"

definition Endpoint_Host :: "Endpoint \<Rightarrow> string" where
  "Endpoint_Host e =
     (if Port e \<noteq> 0 then Hostname e @ '':'' @ format_uint (unat (Port e)) else Hostname e)"

definition Endpoint_url :: "Endpoint \<Rightarrow> url" where
  "Endpoint_url e =
     empty_url\<lparr>url_scheme := Scheme e,
       url_host := Endpoint_Host e,
       url_raw_query := encode_values (Extra e),
       url_path := Path e,
       url_user := (if Username e \<noteq> [] \<or> Password e \<noteq> [] then Some (Username e, Some (Password e)) else None)\<rparr>"

definition Endpoint_String :: "Endpoint \<Rightarrow> string" where
  "Endpoint_String e = url_string (Endpoint_url e)"

definition Endpoint_SecurityString :: "Endpoint \<Rightarrow> string" where
  "Endpoint_SecurityString e =
     Endpoint_String (e\<lparr>Password := replicate (length (Password e)) CHR ''-''\<rparr>)"

definition Endpoint_IsTLS :: "Endpoint \<Rightarrow> bool" where
  "Endpoint_IsTLS e = (if Scheme e = [] then False else last (Scheme e) = CHR ''s'')"

text \<open>\<open>UnmarshalText\<close> overwrites the receiver only when the text parses.\<close>

definition Endpoint_UnmarshalText ::
  "(string \<Rightarrow> go_error + string) \<Rightarrow> Endpoint \<Rightarrow> bytes \<Rightarrow> go_error option \<times> Endpoint" where
  "Endpoint_UnmarshalText ip_literal e text =
     (case ParseEndpoint ip_literal text of Inl err \<Rightarrow> (Some err, e) | Inr e' \<Rightarrow> (None, e'))"

definition Endpoint_MarshalText :: "Endpoint \<Rightarrow> go_error + bytes" where
  "Endpoint_MarshalText e = Inr (Endpoint_String e)"

section \<open>Printing and parsing are inverse\<close>

text \<open>
  The endpoints the syntax can express: a lower-case scheme; a host name of characters that
  need no escape in a host (no colon and no brackets: see \<open>host_ipv6\<close> below for why); a path
  that is empty or absolute; a query in canonical form.
\<close>

definition scheme_char :: "char \<Rightarrow> bool" where
  "scheme_char c \<longleftrightarrow> is_lower c \<or> is_digit c \<or> c \<in> set ''+-.''"

definition wf_scheme :: "string \<Rightarrow> bool" where
  "wf_scheme s \<longleftrightarrow> s \<noteq> [] \<and> is_lower (hd s) \<and> list_all scheme_char s"

definition wf_hostname :: "string \<Rightarrow> bool" where
  "wf_hostname h \<longleftrightarrow> list_all (\<lambda>c. host_char_ok c \<and> c \<notin> set '':[]'') h"

definition wf_endpoint :: "Endpoint \<Rightarrow> bool" where
  "wf_endpoint e \<longleftrightarrow> wf_scheme (Scheme e) \<and> wf_hostname (Hostname e)
     \<and> (Path e = [] \<or> is_rooted (Path e)) \<and> values_ok (Extra e)"

lemma get_scheme_from_wf:
  assumes "list_all scheme_char s" "seen \<noteq> []"
  shows "get_scheme_from raw seen (s @ CHR '':'' # t) = Inr (seen @ s, t)"
  using assms
proof (induction s arbitrary: seen)
  case Nil
  then show ?case by (simp add: is_digit_def less_eq_char_def)
next
  case (Cons c s)
  then have "scheme_char c" and "c \<noteq> CHR '':''"
    by (auto simp: scheme_char_def is_digit_def less_eq_char_def)
  then have "get_scheme_from raw seen ((c # s) @ CHR '':'' # t)
    = get_scheme_from raw (seen @ [c]) (s @ CHR '':'' # t)"
    using Cons.prems(2) by (auto simp: scheme_char_def simp del: list.set)
  then show ?case using Cons by simp
qed

lemma get_scheme_wf: "wf_scheme s \<Longrightarrow> get_scheme (s @ CHR '':'' # t) = Inr (s, t)"
  by (cases s) (simp_all add: wf_scheme_def get_scheme_def get_scheme_from_wf del: list.set)

lemma scheme_char_lower: "scheme_char c \<Longrightarrow> \<not> (is_upper c)"
  by (auto simp: scheme_char_def is_digit_def less_eq_char_def)

lemma to_lower_wf: "wf_scheme s \<Longrightarrow> to_lower s = s"
  using scheme_char_lower unfolding to_lower_def wf_scheme_def list_all_iff
  by (intro map_idI) (metis (no_types, lifting))

lemma scheme_no_ctl: "wf_scheme s \<Longrightarrow> \<not> list_ex is_ctl s"
proof -
  have "\<not> is_ctl c" if "scheme_char c" for c
    using that by (auto simp: scheme_char_def is_digit_def is_ctl_def less_eq_char_def)
  then show "wf_scheme s \<Longrightarrow> \<not> list_ex is_ctl s"
    by (auto simp: wf_scheme_def list_all_iff list_ex_iff)
qed

text \<open>The host with its port.\<close>

lemma host_facts:
  assumes "wf_hostname (Hostname e)"
  shows host_ok: "list_all host_char_ok (Endpoint_Host e)"
    and host_no_bracket: "CHR ''['' \<notin> set (Endpoint_Host e)"
    and host_split: "split_host_port (Endpoint_Host e)
      = (Hostname e, if Port e = 0 then [] else format_uint (unat (Port e)))"
    and host_port_valid: "case last_index CHR '':'' (escape EncHost (Endpoint_Host e)) of
      Some i \<Rightarrow> valid_optional_port (drop i (escape EncHost (Endpoint_Host e))) | None \<Rightarrow> True"
proof -
  let ?h = "Hostname e" and ?p = "format_uint (unat (Port e))"
  have h: "list_all host_char_ok ?h" "CHR '':'' \<notin> set ?h" "CHR ''['' \<notin> set ?h"
    using assms by (auto simp: wf_hostname_def list_all_iff)
  have p: "list_all is_digit ?p" "CHR '':'' \<notin> set ?p" "CHR ''['' \<notin> set ?p"
    using format_uint_facts is_digit_not by (auto simp: is_digit_def)
  have colon: "host_char_ok CHR '':''" "escape EncHost '':'' = '':''"
    by (simp_all add: host_char_ok_def escape_def escape_char_def should_escape_def class_defs)
  have pe: "escape EncHost ?p = ?p" "list_all host_char_ok ?p"
    using p(1) digit_not_escaped
    by (auto intro!: escape_plain simp: list_all_iff host_char_ok_def)
  have he: "CHR '':'' \<notin> set (escape EncHost ?h)"
    using h(2) by (intro escape_host_free) simp_all
  have nob: "\<not> has_prefix ?h ''[''"
    using h(3) by (auto simp: has_prefix_iff)
  show "list_all host_char_ok (Endpoint_Host e)" "CHR ''['' \<notin> set (Endpoint_Host e)"
    using h p pe colon by (simp_all add: Endpoint_Host_def)
  show "split_host_port (Endpoint_Host e) = (?h, if Port e = 0 then [] else ?p)"
    using h(2) p nob
    by (simp add: Endpoint_Host_def split_host_port_def last_index_None last_index_append
        valid_optional_port_def)
  have "escape EncHost (?h @ CHR '':'' # ?p) = escape EncHost ?h @ CHR '':'' # ?p"
    using escape_append [of EncHost ?h "'':'' @ ?p"] escape_append [of EncHost "'':''" ?p] colon pe
    by simp
  then show "case last_index CHR '':'' (escape EncHost (Endpoint_Host e)) of
      Some i \<Rightarrow> valid_optional_port (drop i (escape EncHost (Endpoint_Host e))) | None \<Rightarrow> True"
    using he p
    by (simp add: Endpoint_Host_def last_index_None last_index_append valid_optional_port_def)
qed

lemma parse_host_wf:
  assumes "wf_hostname (Hostname e)"
  shows "parse_host ip (escape EncHost (Endpoint_Host e)) = Inr (Endpoint_Host e)"
  using host_port_valid [OF assms] host_ok [OF assms]
    escape_host_free [of "CHR ''[''"] host_no_bracket [OF assms]
  by (simp add: parse_host_def unescape_escape split: option.splits)

lemma parse_userinfo_string: "parse_userinfo (userinfo_string (u, Some p)) = Inr (u, Some p)"
proof -
  have "valid_userinfo (userinfo_string (u, Some p))"
    using valid_userinfo_escape [of u] valid_userinfo_escape [of p]
    by (simp add: userinfo_string_def valid_userinfo_def class_defs)
  then show ?thesis
    by (simp add: parse_userinfo_def userinfo_string_def cut_append unescape_escape)
qed


text \<open>The printed form: scheme, authority, path and query.\<close>

abbreviation endpoint_user :: "Endpoint \<Rightarrow> (string \<times> string option) option" where
  "endpoint_user e \<equiv>
     (if Username e \<noteq> [] \<or> Password e \<noteq> [] then Some (Username e, Some (Password e)) else None)"

definition endpoint_auth :: "Endpoint \<Rightarrow> string" where
  "endpoint_auth e =
     (case endpoint_user e of None \<Rightarrow> [] | Some ui \<Rightarrow> userinfo_string ui @ ''@'')
     @ escape EncHost (Endpoint_Host e)"

definition endpoint_rest :: "Endpoint \<Rightarrow> string" where
  "endpoint_rest e =
     (if Endpoint_Host e = [] \<and> Path e = [] \<and> endpoint_user e = None then []
      else ''//'' @ endpoint_auth e @ escape EncPath (Path e))"

lemma escape_path_rooted: "is_rooted p \<Longrightarrow> is_rooted (escape EncPath p)"
  by (cases p) (simp_all add: escape_def escape_char_def should_escape_def is_alnum_def is_digit_def class_defs)

lemma rooted_prefix: "is_rooted s = has_prefix s ''/''"
  by (cases s) auto

lemma Endpoint_String_parts:
  assumes "wf_endpoint e"
  shows "Endpoint_String e = Scheme e @ CHR '':'' # endpoint_rest e
    @ (if encode_values (Extra e) = [] then [] else CHR ''?'' # encode_values (Extra e))"
proof -
  have path: "escaped_path (Endpoint_url e) = escape EncPath (Path e)"
    "escape EncPath (Path e) = [] \<or> has_prefix (escape EncPath (Path e)) ''/''"
    using assms escape_path_rooted [of "Path e"]
    by (auto simp: wf_endpoint_def escaped_path_def Endpoint_url_def empty_url_def rooted_prefix escape_def)
  have scheme: "Scheme e \<noteq> []" using assms by (simp add: wf_endpoint_def wf_scheme_def)
  have none: "escape EncHost [] = []" "escape EncPath [] = []" by (simp_all add: escape_def)
  show ?thesis
    using path scheme none unfolding Endpoint_String_def url_string_def Let_def
    by (auto simp: Endpoint_url_def empty_url_def url_authority_string_def endpoint_rest_def
        endpoint_auth_def)
qed

lemma endpoint_auth_free:
  assumes "wf_endpoint e"
  shows "slash \<notin> set (endpoint_auth e)" "CHR ''?'' \<notin> set (endpoint_auth e)"
  by (auto simp: endpoint_auth_def userinfo_string_def)

lemma endpoint_rest_avoids: "wf_endpoint e \<Longrightarrow> CHR ''?'' \<notin> set (endpoint_rest e)"
  using endpoint_auth_free by (auto simp: endpoint_rest_def)

lemma split_query_append:
  assumes "CHR ''?'' \<notin> set r" "CHR ''?'' \<notin> set q"
  shows "split_query (r @ (if q = [] then [] else CHR ''?'' # q)) = (r, q, False)"
proof (cases "q = []")
  case True
  then show ?thesis using assms(1) by (auto simp: split_query_def cut_none)
next
  case False
  then have "last (r @ CHR ''?'' # q) \<noteq> CHR ''?''"
    using assms(2) by (simp, metis last_in_set)
  then show ?thesis using False assms(1) by (simp add: split_query_def cut_append)
qed

lemma parse_authority_wf:
  assumes "wf_endpoint e"
  shows "parse_authority ip (endpoint_auth e) = Inr (endpoint_user e, Endpoint_Host e)"
  using assms
  by (simp add: wf_endpoint_def parse_authority_def endpoint_auth_def last_index_None
      last_index_append parse_host_wf parse_userinfo_string)

lemma parse_hier_wf:
  assumes "wf_endpoint e" "endpoint_rest e \<noteq> []" "url_scheme u = Scheme e"
  shows "parse_hier ip via u (endpoint_rest e)
    = Inr (u\<lparr>url_user := endpoint_user e, url_host := Endpoint_Host e, url_path := Path e\<rparr>)"
proof -
  let ?a = "endpoint_auth e" and ?p = "escape EncPath (Path e)"
  have rest: "endpoint_rest e = ''//'' @ ?a @ ?p"
    using assms(2) by (auto simp: endpoint_rest_def split: if_splits)
  have scheme: "Scheme e \<noteq> []" using assms(1) by (simp add: wf_endpoint_def wf_scheme_def)
  have "?p = [] \<or> is_rooted ?p"
    using assms(1) escape_path_rooted by (auto simp: wf_endpoint_def escape_def)
  then consider "?p = []" | t where "?p = slash # t" by (cases ?p) auto
  then have span: "takeWhile (\<lambda>c. c \<noteq> slash) (?a @ ?p) = ?a" "dropWhile (\<lambda>c. c \<noteq> slash) (?a @ ?p) = ?p"
    by (cases; use endpoint_auth_free(1) [OF assms(1)] in \<open>simp add: span_sep\<close>)+
  show ?thesis
    using scheme assms(1,3) span
    by (simp add: rest parse_hier_def parse_authority_wf set_path_def unescape_escape)
qed

lemma Endpoint_String_no_ctl:
  assumes "wf_endpoint e"
  shows "\<not> list_ex is_ctl (Endpoint_String e)"
proof -
  have ctl: "\<not> is_ctl c" if "c \<in> set ''/:?@''" for c using that by (auto simp: is_ctl_def)
  have "\<not> list_ex is_ctl (endpoint_rest e)"
    using escape_no_ctl ctl
    by (auto simp: endpoint_rest_def endpoint_auth_def userinfo_string_def)
  then show ?thesis
    using assms scheme_no_ctl encode_values_no_ctl ctl
    by (auto simp: Endpoint_String_parts wf_endpoint_def)
qed

lemma parse_url_raw_wf:
  assumes "wf_endpoint e"
  shows "parse_url_raw ip via (Endpoint_String e) = Inr (Endpoint_url e)"
proof -
  let ?q = "encode_values (Extra e)"
  have sch: "wf_scheme (Scheme e)" "Scheme e \<noteq> []"
    using assms by (auto simp: wf_endpoint_def wf_scheme_def)
  have star: "Endpoint_String e \<noteq> ''*''" "Endpoint_String e \<noteq> []"
    using sch by (auto simp: Endpoint_String_parts [OF assms] append_eq_Cons_conv)
  have gs: "get_scheme (Endpoint_String e)
      = Inr (Scheme e, endpoint_rest e @ (if ?q = [] then [] else CHR ''?'' # ?q))"
    by (simp only: Endpoint_String_parts [OF assms] get_scheme_wf [OF sch(1)])
  have sq: "split_query (endpoint_rest e @ (if ?q = [] then [] else CHR ''?'' # ?q))
      = (endpoint_rest e, ?q, False)"
    by (rule split_query_append [OF endpoint_rest_avoids [OF assms] encode_values_avoids])
  have rest: "endpoint_rest e \<noteq> [] \<Longrightarrow> has_prefix (endpoint_rest e) ''/''"
    by (auto simp: endpoint_rest_def split: if_splits)
  have empty: "endpoint_rest e = [] \<Longrightarrow> Endpoint_Host e = [] \<and> Path e = [] \<and> endpoint_user e = None"
    by (simp add: endpoint_rest_def split: if_splits)
  show ?thesis
  proof (cases "endpoint_rest e = []")
    case True
    then show ?thesis
      using star gs sq sch empty Endpoint_String_no_ctl [OF assms]
      by (simp add: parse_url_raw_def to_lower_wf Endpoint_url_def empty_url_def
          has_prefix_def)
  next
    case False
    then show ?thesis
      using star gs sq sch rest Endpoint_String_no_ctl [OF assms] assms
      by (simp add: parse_url_raw_def to_lower_wf parse_hier_wf
          Endpoint_url_def empty_url_def)
  qed
qed

lemma parse_request_uri_wf:
  "wf_endpoint e \<Longrightarrow> parse_request_uri ip (Endpoint_String e) = Inr (Endpoint_url e)"
  by (simp add: parse_request_uri_def parse_url_raw_wf)

lemma escape_hash_free: "CHR ''#'' \<notin> set (escape m s)"
  by (rule escape_avoids) (simp_all add: should_escape_def is_alnum_def is_digit_def class_defs)

lemma Endpoint_String_hash_free:
  assumes "wf_endpoint e"
  shows "CHR ''#'' \<notin> set (Endpoint_String e)"
proof -
  have "CHR ''#'' \<notin> set (Scheme e)"
    using assms by (auto simp: wf_endpoint_def wf_scheme_def list_all_iff scheme_char_def is_digit_def less_eq_char_def)
  moreover have "CHR ''#'' \<notin> set (endpoint_rest e)"
    using escape_hash_free by (auto simp: endpoint_rest_def endpoint_auth_def userinfo_string_def)
  moreover have "CHR ''#'' \<notin> set (encode_values (Extra e))"
    using encode_values_chars [of "CHR ''#''" "Extra e"] escape_hash_free by auto
  ultimately show ?thesis by (simp add: Endpoint_String_parts [OF assms])
qed

lemma url_parse_wf: "wf_endpoint e \<Longrightarrow> url_parse ip (Endpoint_String e) = Inr (Endpoint_url e)"
  by (simp add: url_parse_def cut_none Endpoint_String_hash_free parse_url_raw_wf)

lemma parse_printed_endpoint:
  assumes "wf_endpoint e"
  shows "ParseEndpoint ip_literal (Endpoint_String e) = Inr e"
proof -
  have "wf_hostname (Hostname e)" and q: "parse_query (encode_values (Extra e)) = (Extra e, False)"
    using assms parse_encode_values by (auto simp: wf_endpoint_def)
  note split = host_split [OF this(1)]
  have parse_uint_Nil: "parse_uint 16 [] = None" by (simp add: parse_uint_def)
  have port: "unat (Port e) < 2 ^ 16" using unsigned_less [of "Port e"] by simp
  show ?thesis
    using parse_request_uri_wf [OF assms, of ip_literal] split q parse_format_uint [OF port]
    by (simp add: ParseEndpoint_def Endpoint_url_def empty_url_def url_hostname_def url_port_def
        url_query_def parse_uint_Nil)
qed

text \<open>C9: Parsing the printed form of a well-formed endpoint gives the endpoint back: scheme,
  host, port, path, user, password and every query value survive \<open>String\<close> followed by
  \<open>ParseEndpoint\<close>, whatever bytes path, user, password and query hold.\<close>

theorem ParseEndpoint_String:
  assumes "wf_endpoint e"
  shows "ParseEndpoint ip_literal (Endpoint_String e) = Inr e"
  using assms by (rule parse_printed_endpoint)

definition sample_endpoint :: Endpoint where
  "sample_endpoint =
     \<lparr>Scheme = ''s3'', Hostname = ''minio.local'', Port = 9000, Path = ''/bucket/a b'',
      Username = ''key'', Password = ''p@:s/?'', Extra = [(''insecure'', [''true''])]\<rparr>"

lemma sample_endpoint_wf: "wf_endpoint sample_endpoint"
  by (simp add: wf_endpoint_def sample_endpoint_def wf_scheme_def scheme_char_def is_digit_def
      wf_hostname_def host_char_ok_def should_escape_def is_alnum_def class_defs values_ok_def
      less_eq_char_def)

theorem ParseEndpoint_String_witness:
  "wf_endpoint sample_endpoint
   \<and> ParseEndpoint Inr (Endpoint_String sample_endpoint) = Inr sample_endpoint"
  using sample_endpoint_wf ParseEndpoint_String [OF sample_endpoint_wf] by simp

text \<open>The string for logs depends on the password only through its length.\<close>

theorem SecurityString_hides_password:
  assumes "length p = length q"
  shows "Endpoint_SecurityString (e\<lparr>Password := p\<rparr>) = Endpoint_SecurityString (e\<lparr>Password := q\<rparr>)"
  using assms by (simp add: Endpoint_SecurityString_def)

theorem SecurityString_hides_password_witness:
  "Endpoint_SecurityString (sample_endpoint\<lparr>Password := ''abc''\<rparr>)
   = Endpoint_SecurityString (sample_endpoint\<lparr>Password := ''xyz''\<rparr>)"
  by (rule SecurityString_hides_password) simp

definition ipv6_endpoint :: Endpoint where
  "ipv6_endpoint =
     \<lparr>Scheme = ''ftp'', Hostname = ''::1'', Port = 0, Path = ''/d'', Username = [], Password = [],
      Extra = []\<rparr>"

lemma ipv6_endpoint_parsed:
  "parse_request_uri ip_literal ''ftp://::1/d''
   = Inr (empty_url\<lparr>url_scheme := ''ftp'', url_host := ''::1'', url_path := ''/d''\<rparr>)"
  "split_host_port ''::1'' = ('':'', ''1'')"
  by code_simp+

text \<open>A host printed without its brackets does not parse back: the endpoint of an IPv6 host
  with no port is printed as \<open>ftp://::1/d\<close>, which parses as host \<open>:\<close> with port 1.\<close>

theorem IPv6_endpoint_not_preserved:
  "Endpoint_String ipv6_endpoint = ''ftp://::1/d''
   \<and> ParseEndpoint ip_literal (Endpoint_String ipv6_endpoint)
     = Inr (ipv6_endpoint\<lparr>Hostname := '':'', Port := 1\<rparr>)"
proof -
  have str: "Endpoint_String ipv6_endpoint = ''ftp://::1/d''" by code_simp
  have "ParseEndpoint ip_literal ''ftp://::1/d'' = Inr (ipv6_endpoint\<lparr>Hostname := '':'', Port := 1\<rparr>)"
    by (simp add: ParseEndpoint_def ipv6_endpoint_parsed url_hostname_def url_port_def url_query_def
        ipv6_endpoint_def empty_url_def parse_uint_def parse_query_def query_step_def
        digits_val_def digit_val_def is_digit_def less_eq_char_def)
  then show ?thesis by (simp only: str)
qed

text \<open>A URL with an explicit port, before the port is read.\<close>

lemma parse_ftp_port:
  "parse_request_uri ip_literal (''ftp://h:'' @ format_uint n)
   = Inr (empty_url\<lparr>url_scheme := ''ftp'', url_host := ''h:'' @ format_uint n\<rparr>)"
proof -
  let ?d = "format_uint n" and ?raw = "''ftp://h:'' @ format_uint n"
  have d: "list_all is_digit ?d" using format_uint_facts by blast
  have plain: "x \<notin> set ?d" if "x \<in> set ''?/@:[''" for x
    using that by (intro format_uint_free) (auto simp: is_digit_def less_eq_char_def)
  have ctl: "\<not> list_ex is_ctl ?d"
    using d by (auto simp: list_all_iff list_ex_iff is_ctl_def is_digit_def less_eq_char_def)
  have scheme: "get_scheme ?raw = Inr (''ftp'', ''//h:'' @ ?d)"
    by (simp add: get_scheme_def is_digit_def)
  have query: "split_query (''//h:'' @ ?d) = (''//h:'' @ ?d, [], False)"
    using split_query_append [of "''//h:'' @ ?d" "[]"] plain by simp
  have esc: "unescape EncHost (''h:'' @ ?d) = Some (''h:'' @ ?d)"
    using d digit_not_escaped
    by (intro unescape_plain) (auto simp: list_all_iff should_escape_def is_alnum_def class_defs)
  have host: "parse_host ip_literal (''h:'' @ ?d) = Inr (''h:'' @ ?d)"
    using esc plain last_index_append [of "CHR '':''" ?d "''h''"] d
    by (simp add: parse_host_def valid_optional_port_def)
  have auth: "parse_authority ip_literal (''h:'' @ ?d) = Inr (None, ''h:'' @ ?d)"
    using host plain by (simp add: parse_authority_def last_index_None)
  have hier: "parse_hier ip_literal True (empty_url\<lparr>url_scheme := ''ftp''\<rparr>) (''//h:'' @ ?d)
      = Inr (empty_url\<lparr>url_scheme := ''ftp'', url_host := ''h:'' @ ?d\<rparr>)"
    using auth plain by (simp add: parse_hier_def set_path_def empty_url_def span_sep)
  have lower: "to_lower ''ftp'' = ''ftp''" by (simp add: to_lower_def less_eq_char_def)
  have noctl: "\<not> list_ex is_ctl ?raw" using ctl by (simp add: is_ctl_def)
  have upd: "empty_url\<lparr>url_scheme := ''ftp'', url_raw_query := [], url_force_query := False\<rparr>
      = empty_url\<lparr>url_scheme := ''ftp''\<rparr>"
    by (simp add: empty_url_def)
  show ?thesis
    unfolding parse_request_uri_def parse_url_raw_def scheme
    using noctl query hier lower upd by simp
qed

text \<open>A port above 65535 is dropped without an error: the endpoint parses with port 0, so the
  host to connect to has no port at all.\<close>

theorem port_out_of_range_dropped:
  assumes "65536 \<le> n"
  shows "\<exists>e. ParseEndpoint ip_literal (''ftp://h:'' @ format_uint n) = Inr e
    \<and> Port e = 0 \<and> Endpoint_Host e = ''h''"
proof -
  have d: "format_uint n \<noteq> []" "list_all is_digit (format_uint n)" "digits_val (format_uint n) = n"
    using format_uint_facts by blast+
  moreover have "CHR '':'' \<notin> set (format_uint n)"
    by (rule format_uint_free) (simp add: is_digit_def less_eq_char_def)
  ultimately have "split_host_port (''h:'' @ format_uint n) = (''h'', format_uint n)"
    using last_index_append [of "CHR '':''" "format_uint n" "''h''"] d
    by (simp add: split_host_port_def valid_optional_port_def)
  moreover have "parse_uint 16 (format_uint n) = None"
    using assms d by (simp add: parse_uint_def)
  ultimately show ?thesis
    using parse_ftp_port [of ip_literal n]
    by (simp add: ParseEndpoint_def url_hostname_def url_port_def empty_url_def Endpoint_Host_def)
qed

theorem port_out_of_range_dropped_witness:
  "\<exists>e. ParseEndpoint Inr (''ftp://h:'' @ format_uint 70000) = Inr e
    \<and> Port e = 0 \<and> Endpoint_Host e = ''h''"
  by (rule port_out_of_range_dropped) simp

end
