(* ===== verification/S3_Fs.thy ===== *)
theory S3_Fs
  imports Filesystem Strfmt Units "HOL-Library.AList"
begin

text \<open>
  The S3 file system (\<open>pkg/filesystem/s3/fs.go\<close>, \<open>file.go\<close> and the path part of
  \<open>config.go\<close>): directories are simulated over a flat set of object keys, with a placeholder
  object \<open>.fs_dir\<close> in each directory that was made.

  The object service (\<open>minio-go\<close>) is a parameter: a record of operations over the outside
  state \<open>'s\<close>, with opened objects of type \<open>'o\<close>. \<open>ListObjects\<close> is the channel's contents, error
  items included. A streaming \<open>PutObject\<close> reads its body from a pipe: \<open>PutFeed\<close> is what it
  does with the next chunk after the bytes already read (it may give up, having taken some bytes
  of the chunk), and \<open>PutObject\<close> is its completion with the whole body.
\<close>

section \<open>The object service\<close>

record object_info =
  oi_key :: string
  oi_size :: int
  oi_last_modified :: int

record put_options =
  po_content_type :: string
  po_cache_control :: string
  po_part_size :: "64 word"

record ('o, 's) s3_client =
  StatObject :: "string \<Rightarrow> string \<Rightarrow> 's \<Rightarrow> (go_error + object_info) \<times> 's"
  ListObjects :: "string \<Rightarrow> string \<Rightarrow> nat \<Rightarrow> 's \<Rightarrow> (go_error + object_info) list \<times> 's"
  GetObject :: "string \<Rightarrow> string \<Rightarrow> 's \<Rightarrow> (go_error + 'o) \<times> 's"
  PutObject :: "string \<Rightarrow> string \<Rightarrow> bytes \<Rightarrow> put_options \<Rightarrow> 's \<Rightarrow> go_error option \<times> 's"
  PutFeed :: "string \<Rightarrow> string \<Rightarrow> bytes \<Rightarrow> bytes \<Rightarrow> 's \<Rightarrow> (nat \<times> go_error) option \<times> 's"
  CopyObject :: "string \<Rightarrow> string \<Rightarrow> string \<Rightarrow> 's \<Rightarrow> go_error option \<times> 's"
  RemoveObject :: "string \<Rightarrow> string \<Rightarrow> bool \<Rightarrow> 's \<Rightarrow> go_error option \<times> 's"
  PresignedGetObject :: "string \<Rightarrow> string \<Rightarrow> 's \<Rightarrow> (go_error + url) \<times> 's"
  PresignedPutObject :: "string \<Rightarrow> string \<Rightarrow> 's \<Rightarrow> (go_error + url) \<times> 's"
  obj_read :: "'o \<Rightarrow> nat \<Rightarrow> 's \<Rightarrow> (int \<times> bytes \<times> go_error option) \<times> 'o \<times> 's"
  obj_seek :: "'o option \<Rightarrow> int \<Rightarrow> int \<Rightarrow> 's \<Rightarrow> (int \<times> go_error option) \<times> 'o option \<times> 's"
  obj_close :: "'o \<Rightarrow> 's \<Rightarrow> go_error option \<times> 'o \<times> 's"

section \<open>State\<close>

record ('o, 's) s3fs =
  s3Client :: "('o, 's) s3_client"
  s3ClientForPresign :: "('o, 's) s3_client"
  presignAs :: "url option"
  s3_bucket :: string
  s3_prefix :: string

text \<open>
  The goroutine that the first \<open>Write\<close> starts reads the pipe until the pipe is closed. It is
  running (with the bytes it has read), or it has ended and its error waits in \<open>errCh\<close>, or
  \<open>Close\<close> has taken the error from the channel.
\<close>

datatype upload =
    Uploading bytes put_options
  | UploadEnded "go_error option"
  | UploadTaken

record 'o s3file =
  sf_name :: string
  sf_flags :: open_flag
  sf_metadata :: "string \<Rightarrow> string"
  sf_writeable :: bool
  sf_upload :: "upload option"
  sf_object :: "'o option"
  sf_redirect :: "url option"

definition dirHolder :: string where
  "dirHolder = ''.fs_dir''"

definition new_file :: "string \<Rightarrow> open_flag \<Rightarrow> (string \<Rightarrow> string) \<Rightarrow> bool \<Rightarrow> 'o s3file" where
  "new_file name flags meta writeable =
     \<lparr>sf_name = name, sf_flags = flags, sf_metadata = meta, sf_writeable = writeable,
      sf_upload = None, sf_object = None, sf_redirect = None\<rparr>"

section \<open>Names and keys\<close>

definition s3_path :: "('o, 's) s3fs \<Rightarrow> string \<Rightarrow> string" where
  "s3_path fsys name =
     (if s3_prefix fsys = [] \<or> s3_prefix fsys = ''/'' then trim_prefix name ''/''
      else trim_prefix (path_join [s3_prefix fsys, name]) ''/'')"

text \<open>\<open>Config.Bucket\<close> and \<open>Config.Prefix\<close>.\<close>

definition Config_Bucket :: "Endpoint \<Rightarrow> string" where
  "Config_Bucket e = Endpoint_Base e"

definition Config_Prefix :: "Endpoint \<Rightarrow> string" where
  "Config_Prefix e =
     (let n = length (Config_Bucket e @ ''/'') in
      if n < length (Path e) then drop n (Path e) else ''/'')"

text \<open>The parent of a name, and whether it has to be looked at.\<close>

definition s3_parent :: "string \<Rightarrow> string" where
  "s3_parent name = path_dir (trim_right slash name)"

section \<open>Stat\<close>

definition s3_statDirectory :: "('o, 's) s3fs \<Rightarrow> string \<Rightarrow> 's \<Rightarrow> (go_error + file_info) \<times> 's" where
  "s3_statDirectory fsys name s =
     (case ListObjects (s3Client fsys) (s3_bucket fsys) (s3_path fsys (path_clean name)) 1 s of
        (objects, s1) \<Rightarrow>
          if objects \<noteq> [] then (Inr (NewDirFileInfo (path_base name)), s1)
          else (Inl (PathError ''stat'' name ErrNotExist), s1))"

definition s3_Stat :: "('o, 's) s3fs \<Rightarrow> string \<Rightarrow> 's \<Rightarrow> (go_error + file_info) \<times> 's" where
  "s3_Stat fsys name s =
     (if name = ''/'' \<or> name = ''.'' then (Inr (NewDirFileInfo ''/''), s)
      else
        (case StatObject (s3Client fsys) (s3_bucket fsys) (s3_path fsys name) s of
           (Inl err, s1) \<Rightarrow>
             if as_minio err = Some 404 then s3_statDirectory fsys name s1
             else (Inl (PathError ''stat'' name err), s1)
         | (Inr info, s1) \<Rightarrow>
             (Inr (NewFileInfo (path_base name) (oi_size info) (oi_last_modified info)), s1)))"

text \<open>The check of the parent directory that opening for writing and making directories share.\<close>

definition s3_check_parent :: "('o, 's) s3fs \<Rightarrow> string \<Rightarrow> 's \<Rightarrow> go_error option \<times> 's" where
  "s3_check_parent fsys name s =
     (if s3_parent name \<noteq> ''/'' then
        (case s3_Stat fsys (s3_parent name) s of (Inl err, s1) \<Rightarrow> (Some err, s1) | (Inr _, s1) \<Rightarrow> (None, s1))
      else (None, s))"

section \<open>Pre-signed access\<close>

definition s3_presignClient :: "('o, 's) s3fs \<Rightarrow> ('o, 's) s3_client" where
  "s3_presignClient fsys =
     (case presignAs fsys of
        Some p \<Rightarrow>
          (case url_user p of
             Some (_, Some pwd) \<Rightarrow> if pwd = ''fake'' then s3Client fsys else s3ClientForPresign fsys
           | _ \<Rightarrow> s3ClientForPresign fsys)
      | None \<Rightarrow> s3Client fsys)"

definition s3_presignForWrite :: "('o, 's) s3fs \<Rightarrow> url option" where
  "s3_presignForWrite fsys =
     (case presignAs fsys of
        Some p \<Rightarrow> (case url_user p of Some (user, _) \<Rightarrow> if user = ''rw'' then Some p else None | None \<Rightarrow> None)
      | None \<Rightarrow> None)"

definition s3_presignForRead :: "('o, 's) s3fs \<Rightarrow> url option" where
  "s3_presignForRead fsys = presignAs fsys"

definition redirect_to :: "url \<Rightarrow> url \<Rightarrow> url" where
  "redirect_to p u = u\<lparr>url_scheme := url_scheme p, url_host := url_host p\<rparr>"

section \<open>Opening\<close>

definition s3_openDir ::
  "('o, 's) s3fs \<Rightarrow> (string \<Rightarrow> string) \<Rightarrow> string \<Rightarrow> 's \<Rightarrow> (go_error + 'o s3file) \<times> 's" where
  "s3_openDir fsys meta name s =
     (case s3_Stat fsys name s of
        (Inl err, s1) \<Rightarrow>
          if os_is_not_exist err then
            (case s3_check_parent fsys name s1 of
               (Some err', s2) \<Rightarrow> (Inl err', s2)
             | (None, s2) \<Rightarrow>
                 (case PutObject (s3Client fsys) (s3_bucket fsys) (s3_path fsys (path_join [name, dirHolder])) []
                         \<lparr>po_content_type = [], po_cache_control = [], po_part_size = 0\<rparr> s2 of
                    (Some err', s3) \<Rightarrow> (Inl err', s3)
                  | (None, s3) \<Rightarrow> (Inr (new_file name 0 meta False), s3)))
          else (Inl err, s1)
      | (Inr info, s1) \<Rightarrow>
          if \<not> fi_is_dir info then (Inl (PathError ''stat'' name ErrExist), s1)
          else (Inr (new_file name 0 meta False), s1))"

definition s3_openFileForWrite ::
  "('o, 's) s3fs \<Rightarrow> (string \<Rightarrow> string) \<Rightarrow> string \<Rightarrow> open_flag \<Rightarrow> 's \<Rightarrow> (go_error + 'o s3file) \<times> 's" where
  "s3_openFileForWrite fsys meta name flags s =
     (case s3_check_parent fsys name s of
        (Some err, s1) \<Rightarrow> (Inl err, s1)
      | (None, s1) \<Rightarrow>
          (let f = new_file name flags meta True in
           case s3_presignForWrite fsys of
             Some p \<Rightarrow>
               (case PresignedPutObject (s3_presignClient fsys) (s3_bucket fsys) (s3_path fsys name) s1 of
                  (Inl err, s2) \<Rightarrow> (Inl err, s2)
                | (Inr u, s2) \<Rightarrow> (Inr (f\<lparr>sf_redirect := Some (redirect_to p u)\<rparr>), s2))
           | None \<Rightarrow> (Inr f, s1)))"

definition s3_openFileForRead ::
  "('o, 's) s3fs \<Rightarrow> (string \<Rightarrow> string) \<Rightarrow> string \<Rightarrow> open_flag \<Rightarrow> 's \<Rightarrow> (go_error + 'o s3file) \<times> 's" where
  "s3_openFileForRead fsys meta name flags s =
     (case s3_Stat fsys name s of
        (Inl err, s1) \<Rightarrow> (Inl err, s1)
      | (Inr _, s1) \<Rightarrow>
          (case GetObject (s3Client fsys) (s3_bucket fsys) (s3_path fsys name) s1 of
             (Inl err, s2) \<Rightarrow> (Inl err, s2)
           | (Inr o', s2) \<Rightarrow>
               (let f = (new_file name flags meta False)\<lparr>sf_object := Some o'\<rparr> in
                case s3_presignForRead fsys of
                  Some p \<Rightarrow>
                    (case PresignedGetObject (s3_presignClient fsys) (s3_bucket fsys) (s3_path fsys name) s2 of
                       (Inl err, s3) \<Rightarrow> (Inl err, s3)
                     | (Inr u, s3) \<Rightarrow> (Inr (f\<lparr>sf_redirect := Some (redirect_to p u)\<rparr>), s3))
                | None \<Rightarrow> (Inr f, s2))))"

text \<open>\<open>OpenFile\<close>; the context's metadata is an argument.\<close>

definition s3_OpenFile ::
  "('o, 's) s3fs \<Rightarrow> (string \<Rightarrow> string) \<Rightarrow> string \<Rightarrow> open_flag \<Rightarrow> file_mode \<Rightarrow> 's \<Rightarrow> (go_error + 'o s3file) \<times> 's" where
  "s3_OpenFile fsys meta name flag perm s =
     (if has_flag flag O_APPEND then (Inl ErrPermission, s)
      else
        (let flag1 = (if has_flag flag O_CREATE then flag OR O_WRONLY else flag) in
         if has_suffix name ''/'' then s3_openDir fsys meta name s
         else if has_flag flag1 O_WRONLY then s3_openFileForWrite fsys meta name flag1 s
         else s3_openFileForRead fsys meta name flag1 s))"

section \<open>File operations\<close>

text \<open>\<open>Readdir\<close>: the prefix that is listed, and the loop over the listing.\<close>

definition s3_dir_prefix :: "('o, 's) s3fs \<Rightarrow> string \<Rightarrow> string" where
  "s3_dir_prefix fsys name =
     (let key = trim_prefix (s3_path fsys name) ''/'' in
      if key \<noteq> [] \<and> \<not> has_suffix key ''/'' then key @ ''/'' else key)"

definition s3_entry_info :: "object_info \<Rightarrow> file_info" where
  "s3_entry_info obj =
     (if has_suffix (oi_key obj) ''/'' then NewDirFileInfo (path_base (slash # oi_key obj))
      else NewFileInfo (path_base (slash # oi_key obj)) (oi_size obj) (oi_last_modified obj))"

fun s3_readdir_loop :: "int \<Rightarrow> int \<Rightarrow> file_info list \<Rightarrow> (go_error + object_info) list \<Rightarrow> go_error + file_info list" where
  "s3_readdir_loop n idx infos [] = Inr infos"
| "s3_readdir_loop n idx infos (Inl err # objs) = Inl err"
| "s3_readdir_loop n idx infos (Inr obj # objs) =
     (if has_suffix (oi_key obj) dirHolder then s3_readdir_loop n idx infos objs
      else if 0 < n \<and> n < idx + 1 then Inr (infos @ [s3_entry_info obj])
      else s3_readdir_loop n (idx + 1) (infos @ [s3_entry_info obj]) objs)"

definition s3_Readdir :: "('o, 's) s3fs \<Rightarrow> string \<Rightarrow> int \<Rightarrow> 's \<Rightarrow> (go_error + file_info list) \<times> 's" where
  "s3_Readdir fsys name n s =
     (case ListObjects (s3Client fsys) (s3_bucket fsys) (s3_dir_prefix fsys name) 0 s of
        (objs, s1) \<Rightarrow> (s3_readdir_loop n 0 [] objs, s1))"

definition s3file_Readdir ::
  "('o, 's) s3fs \<Rightarrow> 'o s3file \<Rightarrow> int \<Rightarrow> 's \<Rightarrow> (go_error + file_info list) \<times> 'o s3file \<times> 's" where
  "s3file_Readdir fsys f n s = (case s3_Readdir fsys (sf_name f) n s of (r, s1) \<Rightarrow> (r, f, s1))"

definition s3file_Stat ::
  "('o, 's) s3fs \<Rightarrow> 'o s3file \<Rightarrow> 's \<Rightarrow> (go_error + file_info) \<times> 'o s3file \<times> 's" where
  "s3file_Stat fsys f s = (case s3_Stat fsys (sf_name f) s of (r, s1) \<Rightarrow> (r, f, s1))"

definition s3file_Seek ::
  "('o, 's) s3fs \<Rightarrow> 'o s3file \<Rightarrow> int \<Rightarrow> int \<Rightarrow> 's \<Rightarrow> (int \<times> go_error option) \<times> 'o s3file \<times> 's" where
  "s3file_Seek fsys f offset whence s =
     (case obj_seek (s3Client fsys) (sf_object f) offset whence s of
        (r, o', s1) \<Rightarrow> (r, f\<lparr>sf_object := o'\<rparr>, s1))"

definition s3file_Read ::
  "('o, 's) s3fs \<Rightarrow> 'o s3file \<Rightarrow> nat \<Rightarrow> 's \<Rightarrow> (int \<times> bytes \<times> go_error option) \<times> 'o s3file \<times> 's" where
  "s3file_Read fsys f n s =
     (case sf_object f of
        None \<Rightarrow> ((-1, [], Some ErrNotExist), f, s)
      | Some o' \<Rightarrow>
          (case obj_read (s3Client fsys) o' n s of (r, o'', s1) \<Rightarrow> (r, f\<lparr>sf_object := Some o''\<rparr>, s1)))"

text \<open>The start of the upload, once per file: the placeholder byte for a file that is created,
  then the stream.\<close>

definition s3_put_options :: "'o s3file \<Rightarrow> put_options" where
  "s3_put_options f =
     \<lparr>po_content_type = sf_metadata f ''Content-Type'',
      po_cache_control = sf_metadata f ''Cache-Control'', po_part_size = 0\<rparr>"

definition s3_start_upload :: "('o, 's) s3fs \<Rightarrow> 'o s3file \<Rightarrow> 's \<Rightarrow> upload \<times> 's" where
  "s3_start_upload fsys f s =
     (let opts = s3_put_options f;
          streaming = Uploading [] (opts\<lparr>po_part_size := 5 * MiB\<rparr>) in
      if has_flag (sf_flags f) O_CREATE then
        (case PutObject (s3Client fsys) (s3_bucket fsys) (s3_path fsys (sf_name f)) [CHR 0x00] opts s of
           (Some err, s1) \<Rightarrow> (UploadEnded (Some err), s1)
         | (None, s1) \<Rightarrow> (streaming, s1))
      else (streaming, s))"

definition s3_pipe_write ::
  "('o, 's) s3fs \<Rightarrow> 'o s3file \<Rightarrow> upload \<Rightarrow> bytes \<Rightarrow> 's \<Rightarrow> (int \<times> go_error option) \<times> upload \<times> 's" where
  "s3_pipe_write fsys f up p s =
     (case up of
        Uploading buf opts \<Rightarrow>
          (case PutFeed (s3Client fsys) (s3_bucket fsys) (s3_path fsys (sf_name f)) buf p s of
             (None, s1) \<Rightarrow> ((int (length p), None), Uploading (buf @ p) opts, s1)
           | (Some (taken, err), s1) \<Rightarrow>
               ((int (min taken (length p)), Some ErrClosedPipe), UploadEnded (Some err), s1))
      | _ \<Rightarrow> ((0, Some ErrClosedPipe), up, s))"

definition s3file_Write ::
  "('o, 's) s3fs \<Rightarrow> 'o s3file \<Rightarrow> bytes \<Rightarrow> 's \<Rightarrow> (int \<times> go_error option) \<times> 'o s3file \<times> 's" where
  "s3file_Write fsys f p s =
     (if \<not> sf_writeable f then ((-1, Some ErrPermission), f, s)
      else
        (case (case sf_upload f of None \<Rightarrow> s3_start_upload fsys f s | Some up \<Rightarrow> (up, s)) of
           (up, s1) \<Rightarrow>
             (case s3_pipe_write fsys f up p s1 of
                (r, up', s2) \<Rightarrow> (r, f\<lparr>sf_upload := Some up'\<rparr>, s2))))"

definition s3file_Close ::
  "('o, 's) s3fs \<Rightarrow> 'o s3file \<Rightarrow> 's \<Rightarrow> go_error option \<times> 'o s3file \<times> 's" where
  "s3file_Close fsys f s =
     (case sf_upload f of
        Some (Uploading buf opts) \<Rightarrow>
          (case PutObject (s3Client fsys) (s3_bucket fsys) (s3_path fsys (sf_name f)) buf opts s of
             (err, s1) \<Rightarrow> (err, f\<lparr>sf_upload := Some UploadTaken\<rparr>, s1))
      | Some (UploadEnded err) \<Rightarrow> (err, f\<lparr>sf_upload := Some UploadTaken\<rparr>, s)
      | Some UploadTaken \<Rightarrow> (Some Blocks, f, s)
      | None \<Rightarrow>
          (case sf_object f of
             Some o' \<Rightarrow>
               (case obj_close (s3Client fsys) o' s of (err, o'', s1) \<Rightarrow> (err, f\<lparr>sf_object := Some o''\<rparr>, s1))
           | None \<Rightarrow> (None, f, s)))"

section \<open>Directory operations\<close>

definition s3_Mkdir :: "('o, 's) s3fs \<Rightarrow> (string \<Rightarrow> string) \<Rightarrow> string \<Rightarrow> file_mode \<Rightarrow> 's \<Rightarrow> go_error option \<times> 's" where
  "s3_Mkdir fsys meta name perm s =
     (case s3_Stat fsys name s of
        (Inr _, s1) \<Rightarrow> (Some (PathError ''mkdir'' name ErrExist), s1)
      | (Inl _, s1) \<Rightarrow>
          (case s3_OpenFile fsys meta (path_clean name @ ''/'') O_CREATE perm s1 of
             (Inl err, s2) \<Rightarrow> (Some err, s2)
           | (Inr f, s2) \<Rightarrow> (case s3file_Close fsys f s2 of (_, _, s3) \<Rightarrow> (None, s3))))"

text \<open>The flag of \<^const>\<open>RemoveObject\<close> is the option \<open>ForceDelete\<close>, which is always set here.\<close>

definition s3_forceRemove :: "('o, 's) s3fs \<Rightarrow> string \<Rightarrow> bool \<Rightarrow> 's \<Rightarrow> go_error option \<times> 's" where
  "s3_forceRemove fsys name isDir s =
     (case (if isDir
            then RemoveObject (s3Client fsys) (s3_bucket fsys) (s3_path fsys (path_join [name, dirHolder])) True s
            else (None, s)) of
        (Some err, s1) \<Rightarrow> (Some err, s1)
      | (None, s1) \<Rightarrow> RemoveObject (s3Client fsys) (s3_bucket fsys) (s3_path fsys name) True s1)"

text \<open>
  \<open>RemoveAll\<close> and \<open>Rename\<close> recurse into the directories that the listings show; the fuel
  bounds the depth (\<^const>\<open>None\<close>: not enough).
\<close>

fun s3_RemoveAll :: "nat \<Rightarrow> ('o, 's) s3fs \<Rightarrow> string \<Rightarrow> 's \<Rightarrow> (go_error option \<times> 's) option"
  and s3_removeEntries :: "nat \<Rightarrow> ('o, 's) s3fs \<Rightarrow> string \<Rightarrow> file_info list \<Rightarrow> 's \<Rightarrow> (go_error option \<times> 's) option" where
  "s3_RemoveAll 0 fsys name s = None"
| "s3_RemoveAll (Suc fuel) fsys name s =
     (if name = ''/'' then Some (Some (WrapError ''rm '/' not allow'' ErrPermission), s)
      else
        (case s3_Readdir fsys name 0 s of
           (Inl err, s1) \<Rightarrow> Some (Some err, s1)
         | (Inr infos, s1) \<Rightarrow>
             (case s3_removeEntries fuel fsys name infos s1 of
                None \<Rightarrow> None
              | Some (Some err, s2) \<Rightarrow> Some (Some err, s2)
              | Some (None, s2) \<Rightarrow> Some (s3_forceRemove fsys (path_clean name @ ''/'') True s2))))"
| "s3_removeEntries fuel fsys name [] s = Some (None, s)"
| "s3_removeEntries fuel fsys name (fi # fis) s =
     (case (if fi_is_dir fi then s3_RemoveAll fuel fsys (path_join [name, fi_name fi]) s
            else Some (s3_forceRemove fsys (path_join [name, fi_name fi]) False s)) of
        None \<Rightarrow> None
      | Some (Some err, s1) \<Rightarrow> Some (Some err, s1)
      | Some (None, s1) \<Rightarrow> s3_removeEntries fuel fsys name fis s1)"

fun s3_Rename :: "nat \<Rightarrow> ('o, 's) s3fs \<Rightarrow> (string \<Rightarrow> string) \<Rightarrow> string \<Rightarrow> string \<Rightarrow> 's \<Rightarrow> (go_error option \<times> 's) option"
  and s3_renameEntries :: "nat \<Rightarrow> ('o, 's) s3fs \<Rightarrow> (string \<Rightarrow> string) \<Rightarrow> string \<Rightarrow> string \<Rightarrow> file_info list \<Rightarrow> 's
    \<Rightarrow> (go_error option \<times> 's) option" where
  "s3_Rename 0 fsys meta oldName newName s = None"
| "s3_Rename (Suc fuel) fsys meta oldName newName s =
     (if newName = oldName then Some (None, s)
      else
        (case s3_Stat fsys oldName s of
           (Inl err, s1) \<Rightarrow> Some (Some err, s1)
         | (Inr info, s1) \<Rightarrow>
             if oldName = ''/'' \<or> has_prefix newName (oldName @ ''/'') then
               Some (Some (LinkError ''rename'' oldName newName ErrPermission), s1)
             else if fi_is_dir info then
               (case s3_Readdir fsys oldName 0 s1 of
                  (Inl err, s2) \<Rightarrow> Some (Some err, s2)
                | (Inr infos, s2) \<Rightarrow>
                    (case s3_Mkdir fsys meta newName ModePerm s2 of
                       (Some err, s3) \<Rightarrow> Some (Some err, s3)
                     | (None, s3) \<Rightarrow>
                         (case s3_renameEntries fuel fsys meta oldName newName infos s3 of
                            None \<Rightarrow> None
                          | Some (Some err, s4) \<Rightarrow> Some (Some err, s4)
                          | Some (None, s4) \<Rightarrow> Some (s3_forceRemove fsys oldName True s4))))
             else
               (case CopyObject (s3Client fsys) (s3_bucket fsys) (s3_path fsys newName) (s3_path fsys oldName) s1 of
                  (Some err, s2) \<Rightarrow> Some (Some (WrapError ''copy failed'' err), s2)
                | (None, s2) \<Rightarrow> Some (s3_forceRemove fsys oldName False s2))))"
| "s3_renameEntries fuel fsys meta oldName newName [] s = Some (None, s)"
| "s3_renameEntries fuel fsys meta oldName newName (fi # fis) s =
     (case s3_Rename fuel fsys meta (path_join [oldName, fi_name fi]) (path_join [newName, fi_name fi]) s of
        None \<Rightarrow> None
      | Some (Some err, s1) \<Rightarrow> Some (Some err, s1)
      | Some (None, s1) \<Rightarrow> s3_renameEntries fuel fsys meta oldName newName fis s1)"

section \<open>The file system\<close>

definition within_fuel :: "('s \<Rightarrow> (go_error option \<times> 's) option) \<Rightarrow> 's \<Rightarrow> go_error option \<times> 's" where
  "within_fuel op s = (case op s of Some r \<Rightarrow> r | None \<Rightarrow> (Some Blocks, s))"

definition s3_filesystem ::
  "nat \<Rightarrow> ('o, 's) s3fs \<Rightarrow> (string \<Rightarrow> string) \<Rightarrow> ('o s3file, 's) filesystem" where
  "s3_filesystem fuel fsys meta =
     \<lparr>fs_mkdir = s3_Mkdir fsys meta,
      fs_open_file = s3_OpenFile fsys meta,
      fs_remove_all = (\<lambda>name. within_fuel (s3_RemoveAll fuel fsys name)),
      fs_rename = (\<lambda>old new. within_fuel (s3_Rename fuel fsys meta old new)),
      fs_stat = s3_Stat fsys,
      f_close = s3file_Close fsys, f_read = s3file_Read fsys, f_write = s3file_Write fsys,
      f_seek = s3file_Seek fsys, f_readdir = s3file_Readdir fsys, f_stat = s3file_Stat fsys,
      f_read_dir = None\<rparr>"

lemma s3_filesystem_simps [simp]:
  "fs_mkdir (s3_filesystem n F m) = s3_Mkdir F m" "fs_open_file (s3_filesystem n F m) = s3_OpenFile F m"
  "fs_stat (s3_filesystem n F m) = s3_Stat F" "f_close (s3_filesystem n F m) = s3file_Close F"
  "f_write (s3_filesystem n F m) = s3file_Write F" "f_readdir (s3_filesystem n F m) = s3file_Readdir F"
  "f_read_dir (s3_filesystem n F m) = None"
  by (simp_all add: s3_filesystem_def)

text \<open>A pre-signed file answers a request with a redirect to its URL instead of its content.\<close>

definition preSigned_StatusCode :: int where
  "preSigned_StatusCode = 307"

definition preSigned_Location :: "'o s3file \<Rightarrow> url option" where
  "preSigned_Location f = sf_redirect f"

end
