(* ===== verification/S3_Store.thy ===== *)
theory S3_Store
  imports S3_Fs
begin

text \<open>
  The object service the S3 file system relies on, as a locale, and what the file system computes
  over it: the keys of absolute paths, \<open>Stat\<close>, \<open>Readdir\<close>, \<open>Mkdir\<close>, uploads and \<open>RemoveAll\<close> as
  functions of the stored objects.
\<close>

section \<open>Keys of absolute paths\<close>

text \<open>The file system is mounted at the path elements \<open>ps\<close> of its bucket.\<close>

definition at_prefix :: "('o, 's) s3fs \<Rightarrow> string list \<Rightarrow> bool" where
  "at_prefix F ps \<longleftrightarrow> list_all name_ok ps \<and>
     (if ps = [] then s3_prefix F = [] \<or> s3_prefix F = ''/''
      else is_rooted (s3_prefix F) \<and> path_elems (s3_prefix F) = ps)"

definition key_of :: "string list \<Rightarrow> string list \<Rightarrow> string" where
  "key_of ps cs = join_with ''/'' (ps @ cs)"

lemma key_of_Nil:
  assumes "list_all name_ok ps" "list_all name_ok cs"
  shows "key_of ps cs = [] \<longleftrightarrow> ps = [] \<and> cs = []"
  using abs_path_inject [of "ps @ cs" "[]"] assms by (simp add: key_of_def abs_path_def)

lemma key_of_snoc: "ps @ cs \<noteq> [] \<Longrightarrow> key_of ps (cs @ [c]) = key_of ps cs @ slash # c"
  using join_with_snoc [of "ps @ cs"] by (simp add: key_of_def)

lemma key_of_append: "ps @ cs \<noteq> [] \<Longrightarrow> ds \<noteq> [] \<Longrightarrow> key_of ps (cs @ ds) = key_of ps cs @ slash # join_with ''/'' ds"
  using join_with_append [of "ps @ cs" ds] by (simp add: key_of_def)

lemma key_of_inject:
  assumes "list_all name_ok ps" "list_all name_ok cs" "list_all name_ok ds"
  shows "key_of ps cs = key_of ps ds \<longleftrightarrow> cs = ds"
  using abs_path_inject [of "ps @ cs" "ps @ ds"] assms by (simp add: key_of_def abs_path_def)

lemma path_join_abs2:
  assumes "is_rooted p" "list_all name_ok cs"
  shows "path_join [p, abs_path cs] = abs_path (path_elems p @ cs)"
proof -
  have p: "p \<noteq> []" using assms(1) by auto
  have "path_elems (p @ slash # abs_path cs) = path_elems p @ cs"
  proof (cases "cs = []")
    case True
    then show ?thesis using p by (simp add: path_elems_join abs_path_def)
  next
    case False
    have free: "\<forall>e \<in> set cs. slash \<notin> set e" and good: "\<forall>e \<in> set cs. good_elem e"
      using assms(2) by (auto simp: list_all_iff name_ok_def)
    have "split_on slash (abs_path cs) = [] # cs"
      using False free by (simp add: abs_path_def split_join)
    then show ?thesis using p good by (simp add: path_elems_join foldl_clean_good)
  qed
  then show ?thesis
    using p assms(1) by (simp add: path_join2 path_clean_rooted is_rooted_append)
qed

lemma s3_path_abs:
  assumes "at_prefix F ps" "list_all name_ok cs"
  shows "s3_path F (abs_path cs) = key_of ps cs"
proof (cases "ps = []")
  case True
  then show ?thesis
    using assms by (auto simp: at_prefix_def s3_path_def key_of_def abs_path_def trim_prefix_def)
next
  case False
  then have "is_rooted (s3_prefix F)" "path_elems (s3_prefix F) = ps" "s3_prefix F \<noteq> []" "s3_prefix F \<noteq> ''/''"
    using assms(1) by (auto simp: at_prefix_def path_elems_def)
  then show ?thesis
    using path_join_abs2 [of "s3_prefix F" cs] assms(2)
    by (simp add: s3_path_def key_of_def) (simp add: abs_path_def trim_prefix_def)
qed

text \<open>A name with a trailing slash keeps it in the key where there is no prefix to join.\<close>

lemma s3_path_slash:
  assumes "at_prefix F ps" "list_all name_ok cs" "cs \<noteq> []"
  shows "s3_path F (abs_path cs @ ''/'') = (if ps = [] then key_of ps cs @ ''/'' else key_of ps cs)"
proof (cases "ps = []")
  case True
  then show ?thesis
    using assms by (auto simp: at_prefix_def s3_path_def key_of_def abs_path_def trim_prefix_def)
next
  case False
  then have p: "s3_prefix F \<noteq> []" "s3_prefix F \<noteq> ''/''"
    using assms(1) by (auto simp: at_prefix_def path_elems_def)
  have "path_join [s3_prefix F, abs_path cs @ ''/''] = path_join [s3_prefix F, abs_path cs]"
    using p path_clean_trailing [of "s3_prefix F @ slash # abs_path cs"] by (simp add: path_join2)
  then have "s3_path F (abs_path cs @ ''/'') = s3_path F (abs_path cs)"
    using p by (simp add: s3_path_def)
  then show ?thesis using False assms by (simp add: s3_path_abs)
qed

lemma abs_path_suffix [simp]:
  assumes "cs \<noteq> []" "list_all name_ok cs"
  shows "\<not> has_suffix (abs_path cs) ''/''"
proof -
  obtain ds c where "cs = ds @ [c]" using assms(1) by (cases cs rule: rev_cases) auto
  then have "last (abs_path cs) \<noteq> slash" using assms(2) abs_path_last [of c ds] by simp
  then show ?thesis by (auto simp: has_suffix_iff)
qed

lemma key_of_suffix: 
  assumes "list_all name_ok ps" "list_all name_ok cs"
  shows "\<not> has_suffix (key_of ps cs) ''/''"
proof
  assume "has_suffix (key_of ps cs) ''/''"
  then have "ps @ cs \<noteq> []" "has_suffix (abs_path (ps @ cs)) ''/''"
    by (auto simp: key_of_def has_suffix_iff abs_path_def intro: append_Cons)
  then show False using assms abs_path_suffix [of "ps @ cs"] by simp
qed

lemma abs_path_eq_root [simp]: "list_all name_ok cs \<Longrightarrow> abs_path cs = ''/'' \<longleftrightarrow> cs = []"
  using abs_path_inject [of cs "[]"] by (simp add: abs_path_def)

lemma abs_path_not_dot [simp]: "abs_path cs \<noteq> ''.''"
  by (simp add: abs_path_def)

lemma s3_dir_prefix_abs:
  assumes "at_prefix F ps" "list_all name_ok cs"
  shows "s3_dir_prefix F (abs_path cs) = (if ps @ cs = [] then [] else key_of ps cs @ ''/'')"
proof -
  have ps: "list_all name_ok ps" using assms(1) by (simp add: at_prefix_def)
  have "trim_prefix (key_of ps cs) ''/'' = key_of ps cs"
  proof (cases "ps @ cs" rule: list.exhaust)
    case (Cons x xs)
    then have "name_ok x" using ps assms(2) list_all_append [of name_ok ps cs] by simp
    then show ?thesis
      using Cons by (cases xs; cases x) (auto simp: key_of_def trim_prefix_def dest: name_okD)
  qed (simp add: key_of_def trim_prefix_def)
  then show ?thesis
    using assms ps key_of_suffix [OF ps assms(2)] key_of_Nil [OF ps assms(2)]
    by (auto simp: s3_dir_prefix_def s3_path_abs)
qed

section \<open>The object service\<close>

text \<open>
  What a listing without recursion shows of a key below a prefix: the key, or the common prefix
  up to the next slash.
\<close>

definition entry_key :: "string \<Rightarrow> string \<Rightarrow> string" where
  "entry_key p k =
     (let rest = drop (length p) k in
      if slash \<in> set rest then p @ takeWhile (\<lambda>x. x \<noteq> slash) rest @ ''/'' else k)"

text \<open>
  The documented behaviour of the service, with \<open>objs s\<close> the objects of the bucket in the state
  \<open>s\<close>: reading is consistent and does not change them; one operation on an object is atomic, so
  when it fails the object is either as it was or as the operation would have left it, and no
  other object changes. The option \<open>ForceDelete\<close> of a removal, which some stores read, makes no difference to this.
\<close>

locale s3_service =
  fixes c :: "('o, 's) s3_client"
    and b :: string
    and objs :: "'s \<Rightarrow> string \<Rightarrow> bytes option"
  assumes stat_found:
      "objs s k = Some d \<Longrightarrow> \<exists>oi. StatObject c b k s = (Inr oi, s) \<and> oi_size oi = int (length d)"
    and stat_missing: "objs s k = None \<Longrightarrow> \<exists>e. StatObject c b k s = (Inl e, s) \<and> as_minio e = Some 404"
    and list_objects: "\<exists>ois. ListObjects c b p m s = (map Inr ois, s) \<and> distinct (map oi_key ois)
      \<and> set (map oi_key ois) = entry_key p ` {k \<in> dom (objs s). has_prefix k p}
      \<and> (\<forall>oi \<in> set ois. \<forall>d. slash \<notin> set (drop (length p) (oi_key oi)) \<longrightarrow> objs s (oi_key oi) = Some d
           \<longrightarrow> oi_size oi = int (length d))"
    and get_object: "objs (snd (GetObject c b k s)) = objs s"
    and put_done: "PutObject c b k d opts s = (None, s') \<Longrightarrow> objs s' = (objs s)(k \<mapsto> d)"
    and put_failed: "PutObject c b k d opts s = (Some e, s') \<Longrightarrow> objs s' = objs s \<or> objs s' = (objs s)(k \<mapsto> d)"
    and put_feed: "objs (snd (PutFeed c b k buf p s)) = objs s"
    and copy_done: "CopyObject c b dst src s = (None, s') \<Longrightarrow>
      objs s src \<noteq> None \<and> objs s' = (objs s)(dst := objs s src)"
    and copy_failed: "CopyObject c b dst src s = (Some e, s') \<Longrightarrow>
      objs s' = objs s \<or> objs s' = (objs s)(dst := objs s src)"
    and remove_done: "RemoveObject c b k force s = (None, s') \<Longrightarrow> objs s' = (objs s)(k := None)"
    and remove_failed: "RemoveObject c b k force s = (Some e, s') \<Longrightarrow> objs s' = objs s \<or> objs s' = (objs s)(k := None)"

context s3_service begin

lemma put_any:
  "objs (snd (PutObject c b k d opts s)) = objs s \<or> objs (snd (PutObject c b k d opts s)) = (objs s)(k \<mapsto> d)"
  using put_done put_failed by (metis not_None_eq prod.collapse)

lemma remove_any:
  "objs (snd (RemoveObject c b k force s)) = objs s \<or> objs (snd (RemoveObject c b k force s)) = (objs s)(k := None)"
  using remove_done remove_failed by (metis not_None_eq prod.collapse)

lemma copy_any:
  "objs (snd (CopyObject c b dst src s)) = objs s
   \<or> objs (snd (CopyObject c b dst src s)) = (objs s)(dst := objs s src)"
  using copy_done copy_failed by (metis not_None_eq prod.collapse)

end

text \<open>The file system over such a service, mounted at \<open>ps\<close>.\<close>

locale s3_mounted = s3_service "s3Client F" "s3_bucket F" objs
  for F :: "('o, 's) s3fs" and objs :: "'s \<Rightarrow> string \<Rightarrow> bytes option" +
  fixes ps :: "string list"
  assumes mounted: "at_prefix F ps"

text \<open>Something is there at a path when some key starts with its key.\<close>

definition s3_exists :: "(string \<Rightarrow> bytes option) \<Rightarrow> string \<Rightarrow> bool" where
  "s3_exists M k \<longleftrightarrow> (\<exists>k' \<in> dom M. has_prefix k' k)"

lemma s3_file_exists: "M k = Some d \<Longrightarrow> s3_exists M k"
  unfolding s3_exists_def by (metis append_Nil2 domI has_prefix_append)

context s3_mounted begin

lemma ps_ok: "list_all name_ok ps"
  using mounted by (simp add: at_prefix_def)

lemma statDirectory_abs:
  assumes "list_all name_ok cs"
  shows "s3_statDirectory F (abs_path cs) s =
    (if s3_exists (objs s) (key_of ps cs) then (Inr (NewDirFileInfo (path_base (abs_path cs))), s)
     else (Inl (PathError ''stat'' (abs_path cs) ErrNotExist), s))"
proof -
  obtain ois where l: "ListObjects (s3Client F) (s3_bucket F) (key_of ps cs) 1 s = (map Inr ois, s)"
    "set (map oi_key ois) = entry_key (key_of ps cs) ` {k \<in> dom (objs s). has_prefix k (key_of ps cs)}"
    using list_objects [of "key_of ps cs" 1 s] by blast
  have "ois = [] \<longleftrightarrow> set (map oi_key ois) = {}" by simp
  then have "ois \<noteq> [] \<longleftrightarrow> s3_exists (objs s) (key_of ps cs)"
    unfolding l(2) s3_exists_def by auto
  then show ?thesis
    using assms l(1) by (simp add: s3_statDirectory_def path_clean_abs s3_path_abs [OF mounted])
qed

lemma Stat_root: "s3_Stat F ''/'' s = (Inr (NewDirFileInfo ''/''), s)"
  by (simp add: s3_Stat_def)

lemma Stat_state [simp]: "snd (s3_Stat F name s) = s"
proof -
  have st: "snd (StatObject (s3Client F) (s3_bucket F) k s) = s" for k
    using stat_found [of s k] stat_missing [of s k] by (cases "objs s k") fastforce+
  have "snd (s3_statDirectory F n s) = s" for n
    using list_objects [of "s3_path F (path_clean n)" 1 s]
    by (auto simp: s3_statDirectory_def split: if_splits)
  then show ?thesis
    using st [of "s3_path F name"]
    by (auto simp: s3_Stat_def split: prod.split sum.split)
qed

lemma Stat_found:
  assumes "list_all name_ok cs" "cs \<noteq> []" "objs s (key_of ps cs) = Some d"
  shows "\<exists>t. s3_Stat F (abs_path cs) s = (Inr (NewFileInfo (last cs) (int (length d)) t), s)"
proof -
  obtain ds x where "cs = ds @ [x]" using assms(2) by (cases cs rule: rev_cases) auto
  then have "path_base (abs_path cs) = last cs" using assms(1) by (simp add: path_base_abs)
  then show ?thesis
    using stat_found [OF assms(3)] assms by (auto simp: s3_Stat_def s3_path_abs [OF mounted])
qed

lemma Stat_missing:
  assumes "list_all name_ok cs" "cs \<noteq> []" "objs s (key_of ps cs) = None"
  shows "s3_Stat F (abs_path cs) s =
    (if s3_exists (objs s) (key_of ps cs) then (Inr (NewDirFileInfo (last cs)), s)
     else (Inl (PathError ''stat'' (abs_path cs) ErrNotExist), s))"
proof -
  obtain ds x where "cs = ds @ [x]" using assms(2) by (cases cs rule: rev_cases) auto
  then have "path_base (abs_path cs) = last cs" using assms(1) by (simp add: path_base_abs)
  then show ?thesis
    using stat_missing [OF assms(3)] assms by (auto simp: s3_Stat_def s3_path_abs [OF mounted] statDirectory_abs)
qed

lemma Stat_exists:
  assumes "list_all name_ok cs" "cs \<noteq> []"
  shows "(\<exists>fi. s3_Stat F (abs_path cs) s = (Inr fi, s)) \<longleftrightarrow> s3_exists (objs s) (key_of ps cs)"
    and "\<not> s3_exists (objs s) (key_of ps cs) \<Longrightarrow>
      s3_Stat F (abs_path cs) s = (Inl (PathError ''stat'' (abs_path cs) ErrNotExist), s)"
  using Stat_found [OF assms] Stat_missing [OF assms] s3_file_exists [of "objs s"]
  by (cases "objs s (key_of ps cs)"; fastforce)+

lemma is_dir_at_abs:
  assumes "list_all name_ok cs" "cs \<noteq> []"
  shows "is_dir_at (s3_filesystem fuel F meta) s (abs_path cs) \<longleftrightarrow>
    objs s (key_of ps cs) = None \<and> s3_exists (objs s) (key_of ps cs)"
  using Stat_found [OF assms, of s] Stat_missing [OF assms, of s]
  by (cases "objs s (key_of ps cs)") (auto simp: is_dir_at_def)

lemma check_parent_abs:
  assumes "list_all name_ok (cs @ [x])" "n = abs_path (cs @ [x]) \<or> n = abs_path (cs @ [x]) @ ''/''"
  shows "s3_check_parent F n s =
    (if cs = [] \<or> s3_exists (objs s) (key_of ps cs) then (None, s)
     else (Some (PathError ''stat'' (abs_path cs) ErrNotExist), s))"
proof -
  have "trim_right slash (abs_path (cs @ [x])) = abs_path (cs @ [x])"
    using assms(1) by (intro trim_right_id abs_path_last) (simp_all add: abs_path_def)
  then have "s3_parent n = abs_path cs"
    using assms path_dir_abs [of cs x] by (auto simp: s3_parent_def)
  then show ?thesis
    using assms(1) Stat_exists [of cs s] by (cases "cs = []") (auto simp: s3_check_parent_def)
qed

lemma not_exists_longer: "\<not> s3_exists M k \<Longrightarrow> M (k @ t) = None"
  unfolding s3_exists_def by (metis domIff has_prefix_append)

lemma path_join_holder:
  assumes "list_all name_ok cs" "cs \<noteq> []"
  shows "path_join [abs_path cs @ ''/'', dirHolder] = abs_path (cs @ [dirHolder])"
proof -
  have h: "name_ok dirHolder" by (simp add: dirHolder_def name_ok_def good_elem_def)
  have "path_elems (abs_path cs @ slash # slash # dirHolder) = cs @ [dirHolder]"
    using assms h path_elems_join [of "abs_path cs" "slash # dirHolder"]
    by (simp add: path_elems_abs split_on_id name_ok_def) (simp add: abs_path_def)
  then have "path_clean (abs_path cs @ slash # slash # dirHolder) = abs_path (cs @ [dirHolder])"
    using path_clean_rooted [of "abs_path cs @ slash # slash # dirHolder"] by (simp add: abs_path_def)
  then show ?thesis by (simp add: path_join2)
qed

lemma holder_ok [simp]: "name_ok dirHolder"
  by (simp add: dirHolder_def name_ok_def good_elem_def)

text \<open>\<open>Mkdir\<close> in full.\<close>

lemma Mkdir_abs:
  assumes ok: "list_all name_ok (cs @ [x])"
  shows "s3_Mkdir F meta (abs_path (cs @ [x])) perm s =
    (if s3_exists (objs s) (key_of ps (cs @ [x]))
     then (Some (PathError ''mkdir'' (abs_path (cs @ [x])) ErrExist), s)
     else if cs \<noteq> [] \<and> \<not> s3_exists (objs s) (key_of ps cs)
     then (Some (PathError ''stat'' (abs_path cs) ErrNotExist), s)
     else PutObject (s3Client F) (s3_bucket F) (key_of ps (cs @ [x, dirHolder])) []
            \<lparr>po_content_type = [], po_cache_control = [], po_part_size = 0\<rparr> s)"
proof -
  let ?n = "abs_path (cs @ [x])" and ?k = "key_of ps (cs @ [x])"
  have ne: "cs @ [x] \<noteq> []" by simp
  show ?thesis
  proof (cases "s3_exists (objs s) ?k")
    case True
    then obtain fi where "s3_Stat F ?n s = (Inr fi, s)" using Stat_exists(1) [OF ok ne] by blast
    then show ?thesis using True by (simp add: s3_Mkdir_def)
  next
    case False
    have st: "s3_Stat F ?n s = (Inl (PathError ''stat'' ?n ErrNotExist), s)"
      using Stat_exists(2) [OF ok ne False] .
    have "objs s (s3_path F (?n @ ''/'')) = None"
      using not_exists_longer [OF False, of "[]"] not_exists_longer [OF False, of "''/''"]
      by (cases "ps = []") (simp_all add: s3_path_slash [OF mounted ok ne])
    then obtain e where e: "StatObject (s3Client F) (s3_bucket F) (s3_path F (?n @ ''/'')) s = (Inl e, s)"
      "as_minio e = Some 404" using stat_missing by blast
    have "path_clean (?n @ ''/'') = ?n"
      using ok path_clean_trailing [of ?n] path_clean_abs [OF ok] by (simp add: abs_path_def)
    then have "s3_statDirectory F (?n @ ''/'') s = (Inl (PathError ''stat'' (?n @ ''/'') ErrNotExist), s)"
      using statDirectory_abs [OF ok, of s] False
      by (auto simp: s3_statDirectory_def path_clean_abs [OF ok] split: prod.splits if_splits)
    then have st2: "s3_Stat F (?n @ ''/'') s = (Inl (PathError ''stat'' (?n @ ''/'') ErrNotExist), s)"
      using e by (simp add: s3_Stat_def) (simp add: abs_path_def)
    have key: "s3_path F (path_join [?n @ ''/'', dirHolder]) = key_of ps (cs @ [x, dirHolder])"
      using ok path_join_holder [OF ok ne] s3_path_abs [OF mounted, of "cs @ [x, dirHolder]"] by simp
    have app: "\<not> has_flag O_CREATE O_APPEND"
      by (simp add: has_flag_def open_flags)
    show ?thesis
      using False st app ok
      by (simp add: s3_Mkdir_def path_clean_abs s3_OpenFile_def s3_openDir_def st2 key
            check_parent_abs [OF ok] os_is_not_exist_def underlying_error_is_def
            s3file_Close_def new_file_def split: prod.split option.split)
  qed
qed

text \<open>A made directory is one, and making one takes none away.\<close>

lemma holder_key_new:
  assumes "list_all name_ok cs" "list_all name_ok ds" "dirHolder \<notin> set ds"
  shows "key_of ps (cs @ [dirHolder]) \<noteq> key_of ps ds"
  using key_of_inject [OF ps_ok, of "cs @ [dirHolder]" ds] assms by auto

lemma exists_holder:
  assumes "list_all name_ok cs" "cs \<noteq> []"
  shows "s3_exists (M(key_of ps (cs @ [dirHolder]) \<mapsto> d)) (key_of ps cs)"
  using assms key_of_snoc [of ps cs dirHolder] unfolding s3_exists_def by auto

lemma exists_upd: "s3_exists M k \<Longrightarrow> s3_exists (M(k' \<mapsto> d)) k"
  by (auto simp: s3_exists_def)

lemma Mkdir_makes:
  assumes cs: "list_all name_ok cs" "cs \<noteq> []" "dirHolder \<notin> set cs"
    and mk: "s3_Mkdir F meta (abs_path cs) perm s = (None, s')"
  shows "objs s' = (objs s)(key_of ps (cs @ [dirHolder]) \<mapsto> [])"
    and "is_dir_at (s3_filesystem fuel F meta) s' (abs_path cs)"
proof -
  obtain ds x where ds: "cs = ds @ [x]" using cs(2) by (cases cs rule: rev_cases) auto
  have no: "\<not> s3_exists (objs s) (key_of ps cs)"
    and put: "PutObject (s3Client F) (s3_bucket F) (key_of ps (cs @ [dirHolder])) []
            \<lparr>po_content_type = [], po_cache_control = [], po_part_size = 0\<rparr> s = (None, s')"
    using mk Mkdir_abs [of ds x meta perm s] cs(1) ds by (auto split: if_splits)
  show put': "objs s' = (objs s)(key_of ps (cs @ [dirHolder]) \<mapsto> [])" using put_done [OF put] .
  show "is_dir_at (s3_filesystem fuel F meta) s' (abs_path cs)"
    using no not_exists_longer [OF no, of "[]"] exists_holder [OF cs(1,2)]
      holder_key_new [OF cs(1) cs(1) cs(3)]
    by (simp add: is_dir_at_abs [OF cs(1,2)] put')
qed

lemma Mkdir_keeps:
  assumes cs: "list_all name_ok cs" "cs \<noteq> []"
    and ds: "list_all name_ok ds" "ds \<noteq> []" "dirHolder \<notin> set ds"
    and dir: "is_dir_at (s3_filesystem fuel F meta) s (abs_path ds)"
  shows "is_dir_at (s3_filesystem fuel F meta) (snd (s3_Mkdir F meta (abs_path cs) perm s)) (abs_path ds)"
proof -
  obtain es x where es: "cs = es @ [x]" using cs(2) by (cases cs rule: rev_cases) auto
  let ?put = "PutObject (s3Client F) (s3_bucket F) (key_of ps (es @ [x, dirHolder])) []
            \<lparr>po_content_type = [], po_cache_control = [], po_part_size = 0\<rparr> s"
  have "objs (snd ?put) = objs s \<or> objs (snd ?put) = (objs s)(key_of ps (cs @ [dirHolder]) \<mapsto> [])"
    using put_any es by simp
  then have keep: "is_dir_at (s3_filesystem fuel F meta) (snd ?put) (abs_path ds)"
    using dir holder_key_new [OF cs(1) ds(1,3)] exists_upd
    by (auto simp: is_dir_at_abs [OF ds(1,2)])
  show ?thesis
    using dir keep Mkdir_abs [of es x meta perm s] cs(1) unfolding es by simp
qed

end

sublocale s3_mounted \<subseteq> dirs: dir_maker "s3_filesystem fuel F meta" "\<lambda>cs. list_all name_ok cs \<and> dirHolder \<notin> set cs"
  for fuel meta
  by unfold_locales (auto intro: Mkdir_makes(2) Mkdir_keeps)

lemma s3_dir_maker:
  assumes "s3_mounted F objs ps"
  shows "dir_maker (s3_filesystem fuel F meta) (\<lambda>cs. list_all name_ok cs \<and> dirHolder \<notin> set cs)"
  using s3_mounted.Mkdir_makes(2) [OF assms] s3_mounted.Mkdir_keeps [OF assms] s3_mounted.Stat_state [OF assms]
  by unfold_locales auto

section \<open>Listing\<close>

text \<open>The entries a listing shows; with a positive argument \<open>Readdir\<close> stops after one more
  entry than it was asked for.\<close>

definition s3_visible :: "object_info \<Rightarrow> bool" where
  "s3_visible oi \<longleftrightarrow> \<not> has_suffix (oi_key oi) dirHolder"

lemma readdir_loop:
  "(0 < n \<longrightarrow> idx \<le> n) \<Longrightarrow> s3_readdir_loop n idx infos (map Inr ois) =
     Inr (infos @ map s3_entry_info
           ((if 0 < n then take (nat (n - idx) + 1) else id) (filter s3_visible ois)))"
proof (induction ois arbitrary: idx infos)
  case (Cons oi ois)
  have *: "nat (n - idx) = Suc (nat (n - (idx + 1)))" if "idx + 1 \<le> n" for n
    using that by auto
  show ?case
    using Cons by (auto simp: s3_visible_def *)
qed simp

text \<open>The keys below a directory.\<close>

definition dir_key :: "string list \<Rightarrow> string list \<Rightarrow> string" where
  "dir_key ps cs = (if ps @ cs = [] then [] else key_of ps cs @ ''/'')"

lemma key_of_dir: "es \<noteq> [] \<Longrightarrow> key_of ps (cs @ es) = dir_key ps cs @ join_with ''/'' es"
  using key_of_append [of ps cs es] by (cases "ps @ cs = []") (auto simp: dir_key_def key_of_def)

lemma key_of_child: "key_of ps (cs @ [x]) = dir_key ps cs @ x"
  using key_of_dir [of "[x]"] by simp

lemma dir_key_child: "dir_key ps (cs @ [x]) = dir_key ps cs @ x @ ''/''"
  using key_of_child [of ps cs x] by (simp add: dir_key_def)

text \<open>Every key below is the key of a path: no empty element, no \<open>.\<close> and no \<open>..\<close> in it.\<close>

definition clean_below :: "(string \<Rightarrow> bytes option) \<Rightarrow> string list \<Rightarrow> string list \<Rightarrow> bool" where
  "clean_below M ps cs \<longleftrightarrow>
     (\<forall>k \<in> dom M. has_prefix k (dir_key ps cs) \<longrightarrow>
        (\<exists>es. es \<noteq> [] \<and> list_all name_ok es \<and> k = key_of ps (cs @ es)))"

definition child_file :: "(string \<Rightarrow> bytes option) \<Rightarrow> string list \<Rightarrow> string list \<Rightarrow> string \<Rightarrow> bool" where
  "child_file M ps cs x \<longleftrightarrow> name_ok x \<and> \<not> has_suffix x dirHolder \<and> key_of ps (cs @ [x]) \<in> dom M"

definition child_dir :: "(string \<Rightarrow> bytes option) \<Rightarrow> string list \<Rightarrow> string list \<Rightarrow> string \<Rightarrow> bool" where
  "child_dir M ps cs x \<longleftrightarrow>
     (\<exists>es. es \<noteq> [] \<and> list_all name_ok (x # es) \<and> key_of ps (cs @ x # es) \<in> dom M)"

lemma has_suffix_free:
  assumes "slash \<notin> set h"
  shows "has_suffix (u @ slash # x) h \<longleftrightarrow> has_suffix x h"
proof
  assume "has_suffix (u @ slash # x) h"
  then obtain t where "u @ slash # x = t @ h" by (auto simp: has_suffix_iff)
  then show "has_suffix x h"
    using assms by (auto simp: append_eq_append_conv2 Cons_eq_append_conv has_suffix_iff)
next
  assume "has_suffix x h"
  then show "has_suffix (u @ slash # x) h"
    unfolding has_suffix_iff by (metis append_assoc append_Cons)
qed

lemma dir_key_suffix: "slash \<notin> set h \<Longrightarrow> has_suffix (dir_key ps cs @ x) h \<longleftrightarrow> has_suffix x h"
  by (simp add: dir_key_def has_suffix_free)

lemma holder_no_slash [simp]: "slash \<notin> set dirHolder"
  by (simp add: dirHolder_def)

lemma entry_key_path:
  assumes "es \<noteq> []" "list_all name_ok es"
  shows "entry_key (dir_key ps cs) (key_of ps (cs @ es)) =
    (if tl es = [] then key_of ps (cs @ es) else key_of ps (cs @ [hd es]) @ ''/'')"
proof (cases es)
  case (Cons x xs)
  have x: "slash \<notin> set x" using assms Cons by (auto dest: name_okD)
  show ?thesis
  proof (cases "xs = []")
    case True
    then show ?thesis using Cons x by (simp add: key_of_child entry_key_def)
  next
    case False
    have key: "key_of ps (cs @ es) = dir_key ps cs @ x @ slash # join_with ''/'' xs"
      using Cons False key_of_dir [of es ps cs] by (simp add: join_with_Cons)
    have "takeWhile (\<lambda>c. c \<noteq> slash) (x @ slash # join_with ''/'' xs) = x"
      using x by (subst takeWhile_append2) auto
    then show ?thesis using Cons False by (simp add: entry_key_def key [unfolded Cons] key_of_child Let_def)
  qed
qed (use assms in simp)

lemma entry_info_file:
  assumes "list_all name_ok ps" "list_all name_ok (cs @ [x])" "oi_key oi = key_of ps (cs @ [x])"
  shows "s3_entry_info oi = NewFileInfo x (oi_size oi) (oi_last_modified oi)"
    and "s3_visible oi \<longleftrightarrow> \<not> has_suffix x dirHolder"
proof -
  have "slash # oi_key oi = abs_path ((ps @ cs) @ [x])" using assms(3) by (simp add: key_of_def abs_path_def)
  then have "path_base (slash # oi_key oi) = x" using assms(2) path_base_abs [of x "ps @ cs"] by simp
  then show "s3_entry_info oi = NewFileInfo x (oi_size oi) (oi_last_modified oi)"
    using key_of_suffix [OF assms(1,2)] assms(3) by (simp add: s3_entry_info_def)
  show "s3_visible oi \<longleftrightarrow> \<not> has_suffix x dirHolder"
    using assms(3) by (simp add: s3_visible_def key_of_child dir_key_suffix)
qed

lemma path_base_trailing: "s \<noteq> [] \<Longrightarrow> path_base (s @ [slash]) = path_base s"
  by (simp add: path_base_def)

lemma entry_info_dir:
  assumes "list_all name_ok ps" "list_all name_ok (cs @ [x])" "oi_key oi = key_of ps (cs @ [x]) @ ''/''"
  shows "s3_entry_info oi = NewDirFileInfo x" and "s3_visible oi"
proof -
  have "slash # oi_key oi = abs_path ((ps @ cs) @ [x]) @ [slash]"
    using assms(3) by (simp add: key_of_def abs_path_def)
  moreover have "abs_path ((ps @ cs) @ [x]) \<noteq> []" by (simp add: abs_path_def)
  ultimately have "path_base (slash # oi_key oi) = x"
    using assms(2) path_base_abs [of x "ps @ cs"] path_base_trailing by simp
  then show "s3_entry_info oi = NewDirFileInfo x"
    using assms(3) by (simp add: s3_entry_info_def)
  show "s3_visible oi"
    using assms(3) has_suffix_free [of dirHolder "key_of ps (cs @ [x])" "[]"]
    by (simp add: s3_visible_def has_suffix_iff) (simp add: dirHolder_def)
qed

context s3_mounted begin

lemma dir_prefix_abs: "list_all name_ok cs \<Longrightarrow> s3_dir_prefix F (abs_path cs) = dir_key ps cs"
  by (simp add: s3_dir_prefix_abs [OF mounted] dir_key_def)

text \<open>An item of the listing is a child: a file, or a directory with its trailing slash.\<close>

lemma listed_child:
  assumes "list_all name_ok cs" "clean_below (objs s) ps cs"
  shows "k \<in> entry_key (dir_key ps cs) ` {k \<in> dom (objs s). has_prefix k (dir_key ps cs)} \<longleftrightarrow>
    (\<exists>x. name_ok x \<and> (k = key_of ps (cs @ [x]) \<and> k \<in> dom (objs s)
                       \<or> k = key_of ps (cs @ [x]) @ ''/'' \<and> child_dir (objs s) ps cs x))"
    (is "?l \<longleftrightarrow> ?r")
proof
  assume ?l
  then obtain es where es: "es \<noteq> []" "list_all name_ok es" "key_of ps (cs @ es) \<in> dom (objs s)"
    "k = entry_key (dir_key ps cs) (key_of ps (cs @ es))"
    using assms(2) unfolding clean_below_def by blast
  then obtain x xs where x: "es = x # xs" by (cases es) auto
  have "k = (if xs = [] then key_of ps (cs @ [x]) else key_of ps (cs @ [x]) @ ''/'')"
    using es(4) entry_key_path [OF es(1,2), of ps cs] x by simp
  moreover have "xs \<noteq> [] \<Longrightarrow> child_dir (objs s) ps cs x"
    using es x unfolding child_dir_def by blast
  ultimately show ?r using es x by (intro exI [of _ x]) auto
next
  assume ?r
  then obtain x where x: "name_ok x" "k = key_of ps (cs @ [x]) \<and> k \<in> dom (objs s)
    \<or> k = key_of ps (cs @ [x]) @ ''/'' \<and> child_dir (objs s) ps cs x" by blast
  then show ?l
  proof (elim disjE conjE)
    assume k: "k = key_of ps (cs @ [x])" "k \<in> dom (objs s)"
    then have "k = entry_key (dir_key ps cs) k" "has_prefix k (dir_key ps cs)"
      using entry_key_path [of "[x]" ps cs] x(1) by (simp_all add: key_of_child)
    then show ?l using k by blast
  next
    assume k: "k = key_of ps (cs @ [x]) @ ''/''" "child_dir (objs s) ps cs x"
    then obtain es where es: "es \<noteq> []" "list_all name_ok (x # es)" "key_of ps (cs @ x # es) \<in> dom (objs s)"
      by (auto simp: child_dir_def)
    then have "k = entry_key (dir_key ps cs) (key_of ps (cs @ x # es))"
      "has_prefix (key_of ps (cs @ x # es)) (dir_key ps cs)"
      using entry_key_path [of "x # es" ps cs] k(1) key_of_dir [of "x # es" ps cs] by simp_all
    then show ?l using es(3) by blast
  qed
qed

lemma Readdir_abs:
  assumes cs: "list_all name_ok cs" and clean: "clean_below (objs s) ps cs"
  obtains infos where
    "\<And>n. s3_Readdir F (abs_path cs) n s = (Inr ((if 0 < n then take (nat n + 1) else id) infos), s)"
    "distinct (map (\<lambda>fi. (fi_name fi, fi_is_dir fi)) infos)"
    "(\<lambda>fi. (fi_name fi, fi_is_dir fi)) ` set infos =
       {(x, False) | x. child_file (objs s) ps cs x} \<union> {(x, True) | x. child_dir (objs s) ps cs x}"
    "\<And>fi d. fi \<in> set infos \<Longrightarrow> \<not> fi_is_dir fi \<Longrightarrow> objs s (key_of ps (cs @ [fi_name fi])) = Some d
       \<Longrightarrow> fi_size fi = int (length d)"
proof -
  let ?f = "\<lambda>fi. (fi_name fi, fi_is_dir fi)"
  obtain ois where ois: "ListObjects (s3Client F) (s3_bucket F) (dir_key ps cs) 0 s = (map Inr ois, s)
    \<and> distinct (map oi_key ois)
    \<and> set (map oi_key ois) = entry_key (dir_key ps cs) ` {k \<in> dom (objs s). has_prefix k (dir_key ps cs)}
    \<and> (\<forall>oi \<in> set ois. \<forall>d. slash \<notin> set (drop (length (dir_key ps cs)) (oi_key oi)) \<longrightarrow>
          objs s (oi_key oi) = Some d \<longrightarrow> oi_size oi = int (length d))"
    using list_objects [of "dir_key ps cs" 0 s] by (rule exE)
  note l = ois [THEN conjunct1] ois [THEN conjunct2, THEN conjunct1]
    ois [THEN conjunct2, THEN conjunct2, THEN conjunct1] ois [THEN conjunct2, THEN conjunct2, THEN conjunct2]
  let ?vis = "filter s3_visible ois"
  define infos where "infos = map s3_entry_info ?vis"
  have run: "s3_Readdir F (abs_path cs) n s = (Inr ((if 0 < n then take (nat n + 1) else id) infos), s)" for n
    using l(1) cs readdir_loop [of n 0 "[]" ois]
    by (simp add: s3_Readdir_def dir_prefix_abs infos_def take_map)
  have form: "\<exists>x. name_ok x \<and> (oi_key oi = key_of ps (cs @ [x]) \<and> oi_key oi \<in> dom (objs s)
        \<or> oi_key oi = key_of ps (cs @ [x]) @ ''/'' \<and> child_dir (objs s) ps cs x)" if "oi \<in> set ois" for oi
    using that listed_child [OF cs clean, of "oi_key oi"] l(3) by auto
  have leaf: "s3_entry_info oi = NewFileInfo x (oi_size oi) (oi_last_modified oi)"
       "s3_visible oi \<longleftrightarrow> \<not> has_suffix x dirHolder"
    if "name_ok x" "oi_key oi = key_of ps (cs @ [x])" for oi x
    using entry_info_file [OF ps_ok, of cs x oi] that cs by auto
  have dir: "s3_entry_info oi = NewDirFileInfo x" "s3_visible oi"
    if "name_ok x" "oi_key oi = key_of ps (cs @ [x]) @ ''/''" for oi x
    using entry_info_dir [OF ps_ok, of cs x oi] that cs by auto
  have key: "oi_key oi = key_of ps (cs @ [fst (?f (s3_entry_info oi))])
      @ (if snd (?f (s3_entry_info oi)) then ''/'' else [])" if "oi \<in> set ois" for oi
    using form [OF that] leaf(1) [of _ oi] dir(1) [of _ oi] by auto
  have "inj_on (\<lambda>oi. ?f (s3_entry_info oi)) (set ?vis)"
    using key l(2) by (auto intro!: inj_onI simp: distinct_map inj_on_def)
  then have dist: "distinct (map ?f infos)"
    using l(2) by (auto simp: infos_def distinct_map comp_def inj_on_def)
  have names: "?f ` set infos =
       {(x, False) | x. child_file (objs s) ps cs x} \<union> {(x, True) | x. child_dir (objs s) ps cs x}" (is "?A = ?B")
  proof
    show "?A \<subseteq> ?B"
      using form leaf dir by (fastforce simp: infos_def child_file_def)
    have "(x, False) \<in> ?A" if c: "child_file (objs s) ps cs x" for x
    proof -
      have "key_of ps (cs @ [x]) \<in> set (map oi_key ois)"
        using c listed_child [OF cs clean, of "key_of ps (cs @ [x])"] unfolding l(3) child_file_def by blast
      then obtain oi where "oi \<in> set ois" "oi_key oi = key_of ps (cs @ [x])" by auto
      then show ?thesis using leaf [of x oi] c by (force simp: infos_def child_file_def)
    qed
    moreover have "(x, True) \<in> ?A" if c: "child_dir (objs s) ps cs x" for x
    proof -
      have x: "name_ok x" using c by (auto simp: child_dir_def)
      have "key_of ps (cs @ [x]) @ ''/'' \<in> set (map oi_key ois)"
        using c x listed_child [OF cs clean, of "key_of ps (cs @ [x]) @ ''/''"] unfolding l(3) by blast
      then obtain oi where "oi \<in> set ois" "oi_key oi = key_of ps (cs @ [x]) @ ''/''" by auto
      then show ?thesis using dir [of x oi] x by (force simp: infos_def)
    qed
    ultimately show "?B \<subseteq> ?A" by auto
  qed
  have sizes: "fi_size fi = int (length d)"
    if "fi \<in> set infos" "\<not> fi_is_dir fi" "objs s (key_of ps (cs @ [fi_name fi])) = Some d" for fi d
  proof -
    note fi = that
    obtain oi where oi: "oi \<in> set ois" "fi = s3_entry_info oi" using fi(1) by (auto simp: infos_def)
    obtain x where x: "name_ok x" "oi_key oi = key_of ps (cs @ [x])"
      using form [OF oi(1)] dir(1) [of _ oi] fi(2) oi(2) by auto
    then show ?thesis
      using l(4) [rule_format, OF oi(1), of d] leaf(1) [OF x] fi(3) oi(2) by (simp add: key_of_child name_ok_def)
  qed
  show thesis by (rule that [OF run dist names sizes])
qed

lemma Readdir_all:
  assumes "list_all name_ok cs" "clean_below (objs s) ps cs"
  shows "\<exists>infos. s3_Readdir F (abs_path cs) 0 s = (Inr infos, s) \<and>
    (\<lambda>fi. (fi_name fi, fi_is_dir fi)) ` set infos =
       {(x, False) | x. child_file (objs s) ps cs x} \<union> {(x, True) | x. child_dir (objs s) ps cs x}"
proof (rule Readdir_abs [OF assms], goal_cases)
  case (1 infos)
  then show ?case using 1(1) [of 0] by (intro exI [of _ infos]) simp
qed

end

section \<open>RemoveAll\<close>

text \<open>Only keys of \<open>R\<close> have gone.\<close>

definition only_removes :: "(string \<Rightarrow> bytes option) \<Rightarrow> (string \<Rightarrow> bytes option) \<Rightarrow> string set \<Rightarrow> bool" where
  "only_removes M M' R \<longleftrightarrow> (\<forall>k. M' k = M k \<or> M' k = None \<and> k \<in> R)"

lemma only_removes_refl [simp]: "only_removes M M R"
  by (simp add: only_removes_def)

lemma only_removes_trans: "only_removes M M1 R1 \<Longrightarrow> only_removes M1 M2 R2 \<Longrightarrow> R1 \<union> R2 \<subseteq> R \<Longrightarrow> only_removes M M2 R"
  unfolding only_removes_def by (metis UnI1 UnI2 subsetD)

lemma only_removes_dom: "only_removes M M' R \<Longrightarrow> dom M' \<subseteq> dom M"
  unfolding only_removes_def by (metis domIff subsetI)

lemma only_removes_upd: "M' = M \<or> M' = M(k := None) \<Longrightarrow> k \<in> R \<Longrightarrow> only_removes M M' R"
  by (auto simp: only_removes_def split: if_splits)

lemma only_removes_gone: "only_removes M M' R \<Longrightarrow> M k = None \<Longrightarrow> M' k = None"
  unfolding only_removes_def by metis

text \<open>
  What \<open>RemoveAll\<close> needs of the keys below a directory: they are keys of paths, of at most \<open>n\<close>
  elements below it, and no object's last name ends like the placeholder but is not it.
\<close>

definition removable :: "(string \<Rightarrow> bytes option) \<Rightarrow> string list \<Rightarrow> string list \<Rightarrow> nat \<Rightarrow> bool" where
  "removable M ps cs n \<longleftrightarrow>
     (\<forall>k \<in> dom M. has_prefix k (dir_key ps cs) \<longrightarrow>
        (\<exists>es. es \<noteq> [] \<and> list_all name_ok es \<and> k = key_of ps (cs @ es) \<and> length es \<le> n
              \<and> (last es = dirHolder \<or> \<not> has_suffix (last es) dirHolder)))"

lemma removableD:
  assumes "removable M ps cs n" "k \<in> dom M" "has_prefix k (dir_key ps cs)"
  obtains es where "es \<noteq> []" "list_all name_ok es" "k = key_of ps (cs @ es)" "length es \<le> n"
    "last es = dirHolder \<or> \<not> has_suffix (last es) dirHolder"
  using assms unfolding removable_def by blast

lemma removable_clean: "removable M ps cs n \<Longrightarrow> clean_below M ps cs"
  unfolding removable_def clean_below_def by blast

lemma removable_mono: "removable M ps cs n \<Longrightarrow> dom M' \<subseteq> dom M \<Longrightarrow> removable M' ps cs n"
  unfolding removable_def by blast

lemma join_has_prefix:
  assumes "list_all name_ok es" "slash \<notin> set x" "has_prefix (join_with ''/'' es) (x @ ''/'')"
  shows "\<exists>es'. es' \<noteq> [] \<and> es = x # es'"
proof (cases es)
  case Nil
  then show ?thesis using assms by simp
next
  case (Cons y ys)
  then have y: "slash \<notin> set y" using assms(1) by (auto dest: name_okD)
  obtain t where t: "join_with ''/'' es = x @ slash # t" using assms(3) by (auto simp: has_prefix_iff)
  show ?thesis
  proof (cases "ys = []")
    case True
    then have "slash \<in> set y" using t Cons by simp
    then show ?thesis using y by simp
  next
    case False
    then have "y @ slash # join_with ''/'' ys = x @ slash # t" using t Cons by (simp add: join_with_Cons)
    then have "y = x"
      using y assms(2) by (auto simp: append_eq_append_conv2 Cons_eq_append_conv append_eq_Cons_conv)
    then show ?thesis using Cons False by simp
  qed
qed

lemma removable_child:
  assumes r: "removable M ps cs n" and x: "name_ok x"
  shows "removable M ps (cs @ [x]) (n - 1)"
  unfolding removable_def
proof (intro ballI impI)
  fix k assume k: "k \<in> dom M" "has_prefix k (dir_key ps (cs @ [x]))"
  then have "has_prefix k (dir_key ps cs)"
    by (auto simp: dir_key_child has_prefix_iff)
  then obtain es where es: "es \<noteq> []" "list_all name_ok es" "k = key_of ps (cs @ es)" "length es \<le> n"
    "last es = dirHolder \<or> \<not> has_suffix (last es) dirHolder" by (rule removableD [OF r k(1)])
  have "has_prefix (join_with ''/'' es) (x @ ''/'')"
    using k(2) es(3) by (auto simp: dir_key_child key_of_dir [OF es(1)] has_prefix_iff)
  then obtain es' where "es' \<noteq> []" "es = x # es'"
    using join_has_prefix [OF es(2)] name_okD [OF x] by blast
  then show "\<exists>es. es \<noteq> [] \<and> list_all name_ok es \<and> k = key_of ps ((cs @ [x]) @ es) \<and> length es \<le> n - 1
              \<and> (last es = dirHolder \<or> \<not> has_suffix (last es) dirHolder)"
    using es by (intro exI [of _ es']) auto
qed

lemma child_dir_depth:
  assumes "removable M ps cs n" "list_all name_ok ps" "list_all name_ok cs" "child_dir M ps cs x"
  shows "0 < n"
proof -
  obtain es where es: "es \<noteq> []" "key_of ps (cs @ x # es) \<in> dom M" using assms(4) by (auto simp: child_dir_def)
  then have pre: "has_prefix (key_of ps (cs @ x # es)) (dir_key ps cs)" by (simp add: key_of_dir)
  show ?thesis by (rule removableD [OF assms(1) es(2) pre]) (auto simp: Suc_le_eq neq_Nil_conv)
qed

context s3_mounted begin

abbreviation below :: "string list \<Rightarrow> string set" where
  "below cs \<equiv> {k. has_prefix k (dir_key ps cs)}"

text \<open>The object of the path itself: \<open>RemoveAll\<close> removes the key of its name with a trailing slash,
  and only joining it to a prefix takes the slash off.\<close>

abbreviation self :: "string list \<Rightarrow> string set" where
  "self cs \<equiv> (if ps = [] then {} else {key_of ps cs})"

text \<open>The service answers every removal that \<open>RemoveAll\<close> of a path asks for.\<close>

definition removals_ok :: "string list \<Rightarrow> bool" where
  "removals_ok cs \<longleftrightarrow>
     (\<forall>k \<in> below cs \<union> {key_of ps cs}. \<forall>s. fst (RemoveObject (s3Client F) (s3_bucket F) k True s) = None)"

lemma removals_ok_child: "removals_ok cs \<Longrightarrow> removals_ok (cs @ [x])"
  by (auto simp: removals_ok_def dir_key_child key_of_child has_prefix_iff)

lemma forceRemove_file:
  assumes "list_all name_ok cs" "s3_forceRemove F (abs_path cs) False s = (r, s')"
  shows "only_removes (objs s) (objs s') {key_of ps cs}" "r = None \<Longrightarrow> objs s' (key_of ps cs) = None"
    and "removals_ok cs \<Longrightarrow> r = None"
proof -
  have run: "RemoveObject (s3Client F) (s3_bucket F) (key_of ps cs) True s = (r, s')"
    using assms by (simp add: s3_forceRemove_def s3_path_abs [OF mounted])
  show "only_removes (objs s) (objs s') {key_of ps cs}"
    using remove_any [of "key_of ps cs" True s] run by (intro only_removes_upd) auto
  show "r = None \<Longrightarrow> objs s' (key_of ps cs) = None"
    using remove_done [of "key_of ps cs" True s s'] run by simp
  show "removals_ok cs \<Longrightarrow> r = None"
    using run unfolding removals_ok_def by (metis Un_insert_right fst_conv insertI1)
qed

lemma forceRemove_dir:
  assumes cs: "list_all name_ok cs" "cs \<noteq> []"
    and run: "s3_forceRemove F (path_clean (abs_path cs) @ ''/'') True s = (r, s')"
  shows "only_removes (objs s) (objs s') (below cs \<union> self cs)"
    and "r = None \<Longrightarrow> objs s' (key_of ps (cs @ [dirHolder])) = None"
    and "r = None \<Longrightarrow> k \<in> self cs \<Longrightarrow> objs s' k = None"
    and "removals_ok cs \<Longrightarrow> r = None"
proof -
  let ?h = "key_of ps (cs @ [dirHolder])" and ?k = "s3_path F (abs_path cs @ ''/'')"
  have h: "s3_path F (path_join [abs_path cs @ ''/'', dirHolder]) = ?h"
    using cs by (simp add: path_join_holder s3_path_abs [OF mounted])
  obtain r1 s1 where r1: "RemoveObject (s3Client F) (s3_bucket F) ?h True s = (r1, s1)" by fastforce
  obtain r2 s2 where r2: "RemoveObject (s3Client F) (s3_bucket F) ?k True s1 = (r2, s2)" by fastforce
  have s': "(r, s') = (if r1 = None then (r2, s2) else (r1, s1))"
    using run r1 r2 cs by (auto simp: s3_forceRemove_def path_clean_abs h split: option.splits)
  have in_R: "?h \<in> below cs" "?k \<in> below cs \<union> self cs"
    using cs by (auto simp: s3_path_slash [OF mounted] key_of_child dir_key_def has_prefix_iff)
  have o1: "only_removes (objs s) (objs s1) (below cs \<union> self cs)"
    using remove_any [of ?h True s] r1 in_R by (intro only_removes_upd [of _ _ ?h]) auto
  have o2: "only_removes (objs s1) (objs s2) (below cs \<union> self cs)"
    using remove_any [of ?k True s1] r2 in_R by (intro only_removes_upd [of _ _ ?k]) auto
  show "only_removes (objs s) (objs s') (below cs \<union> self cs)"
    using s' o1 only_removes_trans [OF o1 o2] by (auto split: if_splits)
  show "objs s' ?h = None" if "r = None"
  proof -
    have "r1 = None" "s' = s2" using s' that by (auto split: if_splits)
    moreover have "objs s1 ?h = None" using remove_done [of ?h True s s1] r1 \<open>r1 = None\<close> by simp
    ultimately show ?thesis using only_removes_gone [OF o2] by simp
  qed
  show "objs s' k = None" if "r = None" "k \<in> self cs"
  proof -
    have "r2 = None" "s' = s2" "k = ?k"
      using s' that by (auto simp: s3_path_slash [OF mounted cs] split: if_splits)
    then show ?thesis using remove_done [of ?k True s1 s2] r2 by simp
  qed
  show "r = None" if "removals_ok cs"
  proof -
    have "?k \<in> below cs \<union> {key_of ps cs}" "?h \<in> below cs \<union> {key_of ps cs}"
      using in_R by (auto split: if_splits)
    then have "r1 = None" "r2 = None"
      using that r1 r2 unfolding removals_ok_def by (metis fst_conv)+
    then show ?thesis using s' by simp
  qed
qed

text \<open>The outcome of a removal: other keys are untouched, and after a success no key is left.\<close>

definition removes :: "(go_error option \<times> 's) option \<Rightarrow> 's \<Rightarrow> string list \<Rightarrow> bool" where
  "removes res s cs \<longleftrightarrow>
     (\<exists>r s'. res = Some (r, s') \<and> only_removes (objs s) (objs s') (below cs \<union> self cs)
        \<and> (r = None \<longrightarrow> (\<forall>k \<in> below cs \<union> self cs. objs s' k = None)) \<and> (removals_ok cs \<longrightarrow> r = None))"

definition entry_removable :: "'s \<Rightarrow> string list \<Rightarrow> nat \<Rightarrow> file_info \<Rightarrow> bool" where
  "entry_removable s cs n fi \<longleftrightarrow> name_ok (fi_name fi)
     \<and> (fi_is_dir fi \<longrightarrow> 0 < n \<and> removable (objs s) ps (cs @ [fi_name fi]) (n - 1))"

definition entry_gone :: "'s \<Rightarrow> string list \<Rightarrow> file_info \<Rightarrow> bool" where
  "entry_gone s cs fi \<longleftrightarrow>
     (if fi_is_dir fi then \<forall>k \<in> below (cs @ [fi_name fi]). objs s k = None
      else objs s (key_of ps (cs @ [fi_name fi])) = None)"

lemma entry_gone_mono: "entry_gone s cs fi \<Longrightarrow> only_removes (objs s) (objs s') R \<Longrightarrow> entry_gone s' cs fi"
  using only_removes_gone unfolding entry_gone_def by (metis (full_types))

lemma child_below: "below (cs @ [x]) \<union> self (cs @ [x]) \<subseteq> below cs"
  by (auto simp: dir_key_child key_of_child has_prefix_iff)

lemma removeEntries_run:
  assumes IH: "\<And>cs s. cs \<noteq> [] \<Longrightarrow> list_all name_ok cs \<Longrightarrow> 0 < n \<Longrightarrow> removable (objs s) ps cs (n - 1) \<Longrightarrow>
      removes (s3_RemoveAll n F (abs_path cs) s) s cs"
    and cs: "list_all name_ok cs" and ok: "\<forall>fi \<in> set infos. entry_removable s cs n fi"
  shows "\<exists>r s'. s3_removeEntries n F (abs_path cs) infos s = Some (r, s')
    \<and> only_removes (objs s) (objs s') (below cs) \<and> (r = None \<longrightarrow> (\<forall>fi \<in> set infos. entry_gone s' cs fi)) \<and> (removals_ok cs \<longrightarrow> r = None)"
  using ok
proof (induction infos arbitrary: s)
  case (Cons fi infos)
  let ?cs = "cs @ [fi_name fi]"
  have fi: "entry_removable s cs n fi" and nm: "list_all name_ok ?cs"
    using Cons.prems cs by (auto simp: entry_removable_def)
  have join: "path_join [abs_path cs, fi_name fi] = abs_path ?cs" using nm by (simp add: path_join_abs)
  obtain r1 s1 where one: "(if fi_is_dir fi then s3_RemoveAll n F (abs_path ?cs) s
        else Some (s3_forceRemove F (abs_path ?cs) False s)) = Some (r1, s1)"
    and rem1: "only_removes (objs s) (objs s1) (below cs)" and gone1: "r1 = None \<longrightarrow> entry_gone s1 cs fi"
    and ok1: "removals_ok cs \<longrightarrow> r1 = None"
  proof (cases "fi_is_dir fi")
    case True
    then have "removes (s3_RemoveAll n F (abs_path ?cs) s) s ?cs"
      using IH [of ?cs s] fi nm by (simp add: entry_removable_def)
    then obtain r s1 where run: "s3_RemoveAll n F (abs_path ?cs) s = Some (r, s1)"
      "only_removes (objs s) (objs s1) (below ?cs \<union> self ?cs)"
      "r = None \<longrightarrow> (\<forall>k \<in> below ?cs \<union> self ?cs. objs s1 k = None)" "removals_ok ?cs \<longrightarrow> r = None"
      unfolding removes_def by blast
    have "only_removes (objs s) (objs s1) (below cs)"
      using child_below by (intro only_removes_trans [OF run(2) only_removes_refl]) blast
    then show thesis using that [of r s1] True run removals_ok_child by (simp add: entry_gone_def)
  next
    case False
    obtain r s1 where run: "s3_forceRemove F (abs_path ?cs) False s = (r, s1)" by fastforce
    have "only_removes (objs s) (objs s1) (below cs)"
      by (rule only_removes_trans [OF forceRemove_file(1) [OF nm run] only_removes_refl]) (auto simp: key_of_child)
    then show thesis
      using that [of r s1] False run forceRemove_file(2,3) [OF nm run] removals_ok_child by (simp add: entry_gone_def)
  qed
  show ?case
  proof (cases r1)
    case (Some e)
    then show ?thesis using one rem1 ok1 join by (simp cong: if_cong)
  next
    case None
    have "\<forall>fi \<in> set infos. entry_removable s1 cs n fi"
      using Cons.prems removable_mono only_removes_dom [OF rem1] by (auto simp: entry_removable_def)
    then obtain r s' where rest: "s3_removeEntries n F (abs_path cs) infos s1 = Some (r, s')"
      "only_removes (objs s1) (objs s') (below cs)" "r = None \<longrightarrow> (\<forall>fi \<in> set infos. entry_gone s' cs fi)"
      "removals_ok cs \<longrightarrow> r = None"
      using Cons.IH by blast
    have "s3_removeEntries n F (abs_path cs) (fi # infos) s = Some (r, s')"
      using one None rest(1) join by (simp cong: if_cong)
    moreover have "only_removes (objs s) (objs s') (below cs)"
      using only_removes_trans [OF rem1 rest(2)] by simp
    ultimately show ?thesis
      using rest(3,4) gone1 None entry_gone_mono [OF _ rest(2)] by auto
  qed
qed simp

lemma RemoveAll_run:
  assumes "cs \<noteq> []" "list_all name_ok cs" "removable (objs s) ps cs n"
  shows "removes (s3_RemoveAll (Suc n) F (abs_path cs) s) s cs"
  using assms
proof (induction n arbitrary: cs s rule: less_induct)
  case (less n)
  note cs = less.prems(2) and r = less.prems(3)
  obtain infos where infos: "s3_Readdir F (abs_path cs) 0 s = (Inr infos, s)"
    "(\<lambda>fi. (fi_name fi, fi_is_dir fi)) ` set infos =
       {(x, False) | x. child_file (objs s) ps cs x} \<union> {(x, True) | x. child_dir (objs s) ps cs x}"
    using Readdir_all [OF cs removable_clean [OF r]] by (elim exE conjE)
  have listed: "child_file (objs s) ps cs x \<Longrightarrow> \<exists>fi \<in> set infos. fi_name fi = x \<and> \<not> fi_is_dir fi"
    "child_dir (objs s) ps cs x \<Longrightarrow> \<exists>fi \<in> set infos. fi_name fi = x \<and> fi_is_dir fi" for x
  proof -
    have "child_file (objs s) ps cs x \<Longrightarrow> (x, False) \<in> (\<lambda>fi. (fi_name fi, fi_is_dir fi)) ` set infos"
      "child_dir (objs s) ps cs x \<Longrightarrow> (x, True) \<in> (\<lambda>fi. (fi_name fi, fi_is_dir fi)) ` set infos"
      unfolding infos(2) by simp_all
    then show "child_file (objs s) ps cs x \<Longrightarrow> \<exists>fi \<in> set infos. fi_name fi = x \<and> \<not> fi_is_dir fi"
      "child_dir (objs s) ps cs x \<Longrightarrow> \<exists>fi \<in> set infos. fi_name fi = x \<and> fi_is_dir fi" by auto
  qed
  have "entry_removable s cs n fi" if "fi \<in> set infos" for fi
  proof -
    have "(fi_name fi, fi_is_dir fi) \<in> {(x, False) | x. child_file (objs s) ps cs x} \<union> {(x, True) | x. child_dir (objs s) ps cs x}"
      using that infos(2) by blast
    then show ?thesis
      using removable_child [OF r] child_dir_depth [OF r ps_ok cs]
      by (auto simp: entry_removable_def child_file_def) (auto simp: child_dir_def)
  qed
  moreover have "removes (s3_RemoveAll n F (abs_path ds) t) t ds"
    if "ds \<noteq> []" "list_all name_ok ds" "0 < n" "removable (objs t) ps ds (n - 1)" for ds t
    using less.IH [of "n - 1" ds t] that by simp
  ultimately obtain r1 s1 where ents: "s3_removeEntries n F (abs_path cs) infos s = Some (r1, s1)"
    "only_removes (objs s) (objs s1) (below cs)" "r1 = None \<longrightarrow> (\<forall>fi \<in> set infos. entry_gone s1 cs fi)"
    "removals_ok cs \<longrightarrow> r1 = None"
    using removeEntries_run [OF _ cs, of n infos s] by blast
  obtain r2 s2 where fin: "s3_forceRemove F (path_clean (abs_path cs) @ ''/'') True s1 = (r2, s2)" by fastforce
  note f = forceRemove_dir [OF cs less.prems(1) fin]
  have "objs s2 k = None" if "r1 = None" "r2 = None" "k \<in> below cs" for k
  proof (rule ccontr)
    note ok = that
    assume k2: "objs s2 k \<noteq> None"
    have k1: "objs s1 k \<noteq> None" using k2 only_removes_gone [OF f(1), of k] by (rule contrapos_nn)
    have k: "k \<in> dom (objs s)" using k1 only_removes_gone [OF ents(2), of k] by (cases "objs s k") auto
    obtain es where es: "es \<noteq> []" "list_all name_ok es" "k = key_of ps (cs @ es)"
      "last es = dirHolder \<or> \<not> has_suffix (last es) dirHolder"
      by (rule removableD [OF r k]) (use ok(3) in simp)
    obtain x xs where x: "es = x # xs" using es(1) by (cases es) auto
    show False
    proof (cases "xs = []")
      case True
      show False
      proof (cases "x = dirHolder")
        case True
        then show False using \<open>xs = []\<close> es(3) x k2 f(2) ok(2) by simp
      next
        case False
        then have "child_file (objs s) ps cs x"
          using \<open>xs = []\<close> es x k by (simp add: child_file_def)
        then obtain fi where "fi \<in> set infos" "fi_name fi = x" "\<not> fi_is_dir fi"
          using listed by blast
        then show False using ents(3) ok(1) k1 es(3) x \<open>xs = []\<close> by (auto simp: entry_gone_def)
      qed
    next
      case False
      have "child_dir (objs s) ps cs x" using False es x k by (auto simp: child_dir_def)
      then obtain fi where fi: "fi \<in> set infos" "fi_name fi = x" "fi_is_dir fi"
        using listed by blast
      have "k \<in> below (cs @ [x])"
        using False es(3) x key_of_dir [of xs ps "cs @ [x]"] by simp
      then show False using ents(3) ok(1) k1 fi by (auto simp: entry_gone_def)
    qed
  qed
  moreover have "only_removes (objs s) (objs s2) (below cs \<union> self cs)"
    by (rule only_removes_trans [OF ents(2) f(1)]) blast
  moreover have "only_removes (objs s) (objs s1) (below cs \<union> self cs)"
    by (rule only_removes_trans [OF ents(2) only_removes_refl]) blast
  ultimately show ?case
    using less.prems(1) cs infos(1) ents(1,4) fin f(3,4)
    by (cases r1) (auto simp: removes_def)
qed

end

text \<open>The run in terms of keys.\<close>

lemma s3_RemoveAll_frame:
  assumes "s3_mounted F objs ps" "list_all name_ok cs" "cs \<noteq> []" "removable (objs s) ps cs n"
  shows "\<exists>r s'. s3_RemoveAll (Suc n) F (abs_path cs) s = Some (r, s')
    \<and> (\<forall>k. \<not> has_prefix k (key_of ps cs @ ''/'') \<and> (k = key_of ps cs \<longrightarrow> ps = []) \<longrightarrow> objs s' k = objs s k)
    \<and> (r = None \<longrightarrow> (\<forall>k. has_prefix k (key_of ps cs @ ''/'') \<or> k = key_of ps cs \<and> ps \<noteq> [] \<longrightarrow> objs s' k = None))
    \<and> ((\<forall>k t. has_prefix k (key_of ps cs) \<longrightarrow> fst (RemoveObject (s3Client F) (s3_bucket F) k True t) = None) \<longrightarrow> r = None)"
proof -
  have "s3_mounted.removes F objs ps (s3_RemoveAll (Suc n) F (abs_path cs) s) s cs"
    by (rule s3_mounted.RemoveAll_run [OF assms(1) assms(3,2,4)])
  then obtain r s' where run: "s3_RemoveAll (Suc n) F (abs_path cs) s = Some (r, s')"
    and only: "only_removes (objs s) (objs s') ({k. has_prefix k (dir_key ps cs)} \<union> (if ps = [] then {} else {key_of ps cs}))"
    and gone: "r = None \<longrightarrow> (\<forall>k \<in> {k. has_prefix k (dir_key ps cs)} \<union> (if ps = [] then {} else {key_of ps cs}). objs s' k = None)"
    and ok: "s3_mounted.removals_ok F ps cs \<longrightarrow> r = None"
    unfolding s3_mounted.removes_def [OF assms(1)] by blast
  have d: "dir_key ps cs = key_of ps cs @ ''/''" using assms(3) by (simp add: dir_key_def)
  show ?thesis
  proof (intro exI conjI allI impI)
    show "s3_RemoveAll (Suc n) F (abs_path cs) s = Some (r, s')" by (rule run)
    show "objs s' k = objs s k" if "\<not> has_prefix k (key_of ps cs @ ''/'') \<and> (k = key_of ps cs \<longrightarrow> ps = [])" for k
      using only that unfolding only_removes_def d by (auto dest!: spec [of _ k] split: if_splits)
    show "objs s' k = None" if "r = None" "has_prefix k (key_of ps cs @ ''/'') \<or> k = key_of ps cs \<and> ps \<noteq> []" for k
      using gone that unfolding d by auto
    show "r = None" if "\<forall>k t. has_prefix k (key_of ps cs) \<longrightarrow> fst (RemoveObject (s3Client F) (s3_bucket F) k True t) = None"
      using ok that unfolding s3_mounted.removals_ok_def [OF assms(1)] d by (auto simp: has_prefix_iff)
  qed
qed

end
