(* ===== verification/S3_Ref.thy ===== *)
theory S3_Ref
  imports S3_Store
begin

text \<open>
  Uploads and renames over a service that answers every request, and a reference service (an
  association list) that satisfies the laws of \<open>S3_Store\<close>.
\<close>

section \<open>The placeholders of a path\<close>

text \<open>What \<open>MkdirAll\<close> should store: from the top down, a placeholder for each prefix of the path where nothing is.\<close>

definition s3_made :: "string list \<Rightarrow> string list \<Rightarrow> (string \<Rightarrow> bytes option) \<Rightarrow> string \<Rightarrow> bytes option" where
  "s3_made ps cs M =
     foldl (\<lambda>M p. if p = [] \<or> s3_exists M (key_of ps p) then M else M(key_of ps (p @ [dirHolder]) \<mapsto> [])) M (prefixes cs)"

lemma s3_made_Nil [simp]: "s3_made ps [] M = M"
  by (simp add: s3_made_def)

lemma s3_made_snoc:
  "s3_made ps (cs @ [c]) M =
     (if s3_exists (s3_made ps cs M) (key_of ps (cs @ [c])) then s3_made ps cs M
      else (s3_made ps cs M)(key_of ps (cs @ [c, dirHolder]) \<mapsto> []))"
  by (simp add: s3_made_def)

lemma s3_exists_parent: "s3_exists M (key_of ps (cs @ [c])) \<Longrightarrow> cs \<noteq> [] \<Longrightarrow> s3_exists M (key_of ps cs)"
  by (auto simp: s3_exists_def key_of_snoc has_prefix_iff)

lemma s3_made_existing: "s3_exists M (key_of ps cs) \<Longrightarrow> s3_made ps cs M = M"
proof (induction cs rule: rev_induct)
  case (snoc c cs)
  then have "s3_made ps cs M = M" using s3_exists_parent by (cases "cs = []") auto
  with snoc.prems show ?case by (simp add: s3_made_snoc)
qed simp

lemma s3_made_new:
  "s3_made ps cs M k \<noteq> None \<Longrightarrow> M k \<noteq> None \<or> (\<exists>p q. cs = p @ q \<and> k = key_of ps (p @ [dirHolder]))"
proof (induction cs rule: rev_induct)
  case (snoc c cs)
  show ?case
  proof (cases "k = key_of ps ((cs @ [c]) @ [dirHolder])")
    case False
    with snoc.prems have "s3_made ps cs M k \<noteq> None" by (simp add: s3_made_snoc split: if_splits)
    with snoc.IH show ?thesis by (metis append.assoc)
  qed (use append_Nil2 in blast)
qed simp

text \<open>The deepest level \<open>k\<close> of the path at which something is there; level 0 is the root.\<close>

definition deepest :: "string list \<Rightarrow> (string \<Rightarrow> bytes option) \<Rightarrow> string list \<Rightarrow> nat \<Rightarrow> bool" where
  "deepest ps M cs k \<longleftrightarrow> k \<le> length cs \<and> (0 < k \<longrightarrow> s3_exists M (key_of ps (take k cs)))
     \<and> (\<forall>m. k < m \<and> m \<le> length cs \<longrightarrow> \<not> s3_exists M (key_of ps (take m cs)))"

lemma deepest_snoc:
  assumes "deepest ps M (cs @ [c]) k" "k \<noteq> Suc (length cs)"
  shows "deepest ps M cs k" "k \<le> length cs" "\<not> s3_exists M (key_of ps (cs @ [c]))"
proof -
  show "k \<le> length cs" using assms by (simp add: deepest_def)
  with assms show "deepest ps M cs k" by (auto simp: deepest_def)
  have "\<forall>m. k < m \<and> m \<le> length (cs @ [c]) \<longrightarrow> \<not> s3_exists M (key_of ps (take m (cs @ [c])))"
    using assms(1) unfolding deepest_def by blast
  from this [rule_format, of "Suc (length cs)"] \<open>k \<le> length cs\<close> show "\<not> s3_exists M (key_of ps (cs @ [c]))" by simp
qed

section \<open>A service that answers\<close>

text \<open>Requests on keys the service accepts succeed.\<close>

locale s3_reliable = s3_mounted +
  fixes legal :: "string \<Rightarrow> bool"
  assumes put_ok: "legal k \<Longrightarrow> fst (PutObject (s3Client F) (s3_bucket F) k d opts s) = None"
    and feed_ok: "legal k \<Longrightarrow> fst (PutFeed (s3Client F) (s3_bucket F) k buf p s) = None"
    and copy_ok: "legal k \<Longrightarrow> objs s src \<noteq> None \<Longrightarrow>
      fst (CopyObject (s3Client F) (s3_bucket F) k src s) = None"
    and remove_ok: "legal k \<Longrightarrow> fst (RemoveObject (s3Client F) (s3_bucket F) k force s) = None"

text \<open>Writing a list of chunks to an open file, up to the first error.\<close>

fun write_chunks :: "('o, 's) s3fs \<Rightarrow> 'o s3file \<Rightarrow> bytes list \<Rightarrow> 's \<Rightarrow> bool \<times> 'o s3file \<times> 's" where
  "write_chunks F f [] s = (True, f, s)"
| "write_chunks F f (p # ps) s =
     (case s3file_Write F f p s of
        ((n, None), f', s') \<Rightarrow> write_chunks F f' ps s'
      | ((n, Some e), f', s') \<Rightarrow> (False, f', s'))"

lemma write_all_chunks: "write_all (s3_filesystem n F meta) f chunks s = write_chunks F f chunks s"
  by (induction chunks arbitrary: f s) (auto split: prod.split option.split)

lemma has_flag_create [simp]:
  "has_flag (O_RDWR OR O_CREATE OR O_TRUNC) O_CREATE" "\<not> has_flag (O_RDWR OR O_CREATE OR O_TRUNC) O_APPEND"
  "has_flag ((O_RDWR OR O_CREATE OR O_TRUNC) OR O_WRONLY) O_WRONLY"
  "has_flag ((O_RDWR OR O_CREATE OR O_TRUNC) OR O_WRONLY) O_CREATE"
  by (simp_all add: has_flag_def open_flags)

context s3_service begin

lemma PutObject_ok:
  assumes "fst (PutObject c b k d opts s) = None"
  obtains s' where "PutObject c b k d opts s = (None, s')" "objs s' = (objs s)(k \<mapsto> d)"
  using assms put_done by (cases "PutObject c b k d opts s") auto

lemma PutFeed_ok:
  assumes "fst (PutFeed c b k buf p s) = None"
  obtains s' where "PutFeed c b k buf p s = (None, s')" "objs s' = objs s"
  using assms put_feed [of k buf p s] by (cases "PutFeed c b k buf p s") auto

end

context s3_reliable begin

text \<open>A write to an upload that runs, and the first write, which starts it.\<close>

lemma Write_streaming:
  assumes "legal (s3_path F (sf_name f))" "sf_writeable f" "sf_upload f = Some (Uploading buf opts)"
  obtains s' where "s3file_Write F f p s
      = ((int (length p), None), f\<lparr>sf_upload := Some (Uploading (buf @ p) opts)\<rparr>, s')" "objs s' = objs s"
proof -
  obtain s' where "PutFeed (s3Client F) (s3_bucket F) (s3_path F (sf_name f)) buf p s = (None, s')"
    "objs s' = objs s" using PutFeed_ok [OF feed_ok [OF assms(1)]] by blast
  then show thesis
    using that [of s'] assms(2,3) by (simp add: s3file_Write_def s3_pipe_write_def)
qed

lemma Write_starting:
  assumes "legal (s3_path F (sf_name f))" "sf_writeable f" "sf_upload f = None"
  obtains s' opts where "s3file_Write F f p s
      = ((int (length p), None), f\<lparr>sf_upload := Some (Uploading p opts)\<rparr>, s')"
    "objs s' = (if has_flag (sf_flags f) O_CREATE then (objs s)(s3_path F (sf_name f) \<mapsto> [CHR 0x00]) else objs s)"
proof -
  let ?k = "s3_path F (sf_name f)"
  have start: "\<exists>s1. s3_start_upload F f s = (Uploading [] ((s3_put_options f)\<lparr>po_part_size := 5 * MiB\<rparr>), s1)
    \<and> objs s1 = (if has_flag (sf_flags f) O_CREATE then (objs s)(?k \<mapsto> [CHR 0x00]) else objs s)"
  proof (cases "has_flag (sf_flags f) O_CREATE")
    case True
    obtain s1 where "PutObject (s3Client F) (s3_bucket F) ?k [CHR 0x00] (s3_put_options f) s = (None, s1)"
      "objs s1 = (objs s)(?k \<mapsto> [CHR 0x00])" using PutObject_ok [OF put_ok [OF assms(1)]] by blast
    then show ?thesis using True by (simp add: s3_start_upload_def)
  qed (simp add: s3_start_upload_def)
  then obtain opts s1 where s1: "s3_start_upload F f s = (Uploading [] opts, s1)"
    "objs s1 = (if has_flag (sf_flags f) O_CREATE then (objs s)(?k \<mapsto> [CHR 0x00]) else objs s)" by blast
  obtain s' where "PutFeed (s3Client F) (s3_bucket F) ?k [] p s1 = (None, s')" "objs s' = objs s1"
    using PutFeed_ok [OF feed_ok [OF assms(1)]] by blast
  then show thesis
    using that [of opts s'] s1 assms(2,3) by (simp add: s3file_Write_def s3_pipe_write_def)
qed

text \<open>All the chunks of an upload, and the object that \<open>Close\<close> stores.\<close>

lemma write_chunks_streaming:
  assumes "legal (s3_path F n)" "sf_name f = n" "sf_writeable f" "sf_upload f = Some (Uploading buf opts)"
  shows "\<exists>f' s'. write_chunks F f chunks s = (True, f', s') \<and> objs s' = objs s \<and> sf_name f' = n
    \<and> sf_upload f' = Some (Uploading (buf @ concat chunks) opts)"
  using assms(2-4)
proof (induction chunks arbitrary: f buf s)
  case (Cons p chunks)
  let ?f = "f\<lparr>sf_upload := Some (Uploading (buf @ p) opts)\<rparr>"
  obtain s1 where w: "s3file_Write F f p s = ((int (length p), None), ?f, s1)" "objs s1 = objs s"
    using Write_streaming [of f buf opts p s] assms(1) Cons.prems by auto
  obtain f' s' where "write_chunks F ?f chunks s1 = (True, f', s')" "objs s' = objs s1" "sf_name f' = n"
    "sf_upload f' = Some (Uploading ((buf @ p) @ concat chunks) opts)"
    using Cons.IH [of ?f "buf @ p" s1] Cons.prems by auto
  then show ?case using w by simp
qed simp

lemma upload_chunks:
  assumes "legal (s3_path F (sf_name f))" "sf_writeable f" "sf_upload f = None" "chunks \<noteq> []"
  shows "\<exists>f' s' f'' s''. write_chunks F f chunks s = (True, f', s') \<and> s3file_Close F f' s' = (None, f'', s'')
    \<and> objs s'' = (objs s)(s3_path F (sf_name f) \<mapsto> concat chunks) \<and> sf_upload f'' = Some UploadTaken"
proof -
  let ?k = "s3_path F (sf_name f)"
  obtain p ps where c: "chunks = p # ps" using assms(4) by (cases chunks) auto
  obtain s1 opts where w: "s3file_Write F f p s
      = ((int (length p), None), f\<lparr>sf_upload := Some (Uploading p opts)\<rparr>, s1)"
    "objs s1 = (if has_flag (sf_flags f) O_CREATE then (objs s)(?k \<mapsto> [CHR 0x00]) else objs s)"
    by (rule Write_starting [OF assms(1-3)])
  obtain f' s' where ws: "write_chunks F (f\<lparr>sf_upload := Some (Uploading p opts)\<rparr>) ps s1 = (True, f', s')"
    "objs s' = objs s1" "sf_name f' = sf_name f" "sf_upload f' = Some (Uploading (p @ concat ps) opts)"
    using write_chunks_streaming [of "sf_name f" "f\<lparr>sf_upload := Some (Uploading p opts)\<rparr>" p opts ps s1]
      assms(1,2) by auto
  obtain s'' where "PutObject (s3Client F) (s3_bucket F) ?k (p @ concat ps) opts s' = (None, s'')"
    "objs s'' = (objs s')(?k \<mapsto> p @ concat ps)" using PutObject_ok [OF put_ok [OF assms(1)]] by blast
  then show ?thesis using c w ws by (auto simp: s3file_Close_def)
qed

text \<open>\<open>filesystem.Write\<close> over such a file system.\<close>

lemma Write_stores:
  assumes cs: "list_all name_ok (cs @ [x])" and parent: "cs = [] \<or> s3_exists (objs s) (key_of ps cs)"
    and legal: "legal (key_of ps (cs @ [x]))" and plain: "s3_presignForWrite F = None"
  shows "\<exists>s'. Write (s3_filesystem fuel F meta) (abs_path (cs @ [x])) data s = (None, s')
    \<and> objs s' = (objs s)(key_of ps (cs @ [x]) \<mapsto> data)"
proof -
  let ?n = "abs_path (cs @ [x])" and ?flag = "(O_RDWR OR O_CREATE OR O_TRUNC) OR O_WRONLY"
  let ?f = "new_file ?n ?flag meta True"
  have path: "s3_path F ?n = key_of ps (cs @ [x])" using s3_path_abs [OF mounted cs] .
  have "s3_OpenFile F meta ?n (O_RDWR OR O_CREATE OR O_TRUNC) ModePerm s = (Inr ?f, s)"
    using cs parent plain check_parent_abs [OF cs, of ?n s]
    by (simp add: s3_OpenFile_def s3_openFileForWrite_def Let_def)
  moreover obtain f' s' f'' s'' where "write_chunks F ?f [data] s = (True, f', s')"
    "s3file_Close F f' s' = (None, f'', s'')" "objs s'' = (objs s)(s3_path F ?n \<mapsto> data)"
    using upload_chunks [of ?f "[data]" s] legal path by (auto simp: new_file_def)
  ultimately show ?thesis
    using path by (auto simp: Write_def split: prod.splits option.splits)
qed

text \<open>Renaming a file.\<close>

lemma MkdirAll_at_file:
  assumes "list_all name_ok cs" "deepest ps (objs s) cs k" "0 < k" "objs s (key_of ps (take k cs)) = Some d"
  shows "MkdirAll (s3_filesystem fuel F meta) (abs_path cs) s
    = (Some (PathError ''mkdir'' (abs_path (take k cs)) (Errno ENOTDIR)), s)"
  using assms
proof (induction cs rule: rev_induct)
  case (snoc c cs)
  have ok: "list_all name_ok (cs @ [c])" "name_ok c" using snoc.prems(1) by simp_all
  show ?case
  proof (cases "k = Suc (length cs)")
    case True
    then obtain t where "s3_Stat F (abs_path (cs @ [c])) s = (Inr (NewFileInfo c (int (length d)) t), s)"
      using Stat_found [OF ok(1) _, of s d] snoc.prems(4) by auto
    then show ?thesis using True by (simp add: MkdirAll_abs [OF ok(2)] Stat_def NewFileInfo_def)
  next
    case False
    note k = deepest_snoc(2,3) [OF snoc.prems(2) False]
    then have "MkdirAll (s3_filesystem fuel F meta) (abs_path cs) s
        = (Some (PathError ''mkdir'' (abs_path (take k cs)) (Errno ENOTDIR)), s)"
      using snoc.IH snoc.prems deepest_snoc(1) [OF snoc.prems(2) False] by simp
    moreover have "cs \<noteq> []" using k(1) snoc.prems(3) by auto
    ultimately show ?thesis
      using Stat_exists(2) [OF ok(1) _ k(2)] k(1) by (simp add: MkdirAll_abs [OF ok(2)] Stat_def)
  qed
qed (simp add: deepest_def)

lemma MkdirAll_run:
  assumes "list_all name_ok cs" "dirHolder \<notin> set cs" "deepest ps (objs s) cs k"
    and "k = 0 \<or> objs s (key_of ps (take k cs)) = None"
    and "\<forall>m. k < m \<and> m \<le> length cs \<longrightarrow> legal (key_of ps (take m cs @ [dirHolder]))"
  shows "\<exists>s'. (if cs = [] then (None, s) else MkdirAll (s3_filesystem fuel F meta) (abs_path cs) s) = (None, s')
    \<and> objs s' = s3_made ps cs (objs s)
    \<and> (\<forall>m. 0 < m \<and> k \<le> m \<and> m \<le> length cs \<longrightarrow> is_dir_at (s3_filesystem fuel F meta) s' (abs_path (take m cs)))"
  using assms
proof (induction cs rule: rev_induct)
  case (snoc c cs)
  let ?fs = "s3_filesystem fuel F meta" and ?cs = "cs @ [c]"
  have ok: "list_all name_ok ?cs" "name_ok c" "dirHolder \<notin> set ?cs" using snoc.prems(1,2) by simp_all
  have dir: "is_dir_at ?fs t (abs_path ?cs) \<longleftrightarrow> objs t (key_of ps ?cs) = None \<and> s3_exists (objs t) (key_of ps ?cs)" for t
    by (rule is_dir_at_abs [OF ok(1)]) simp
  show ?case
  proof (cases "k = Suc (length cs)")
    case True
    then have ex: "s3_exists (objs s) (key_of ps ?cs)" "objs s (key_of ps ?cs) = None"
      using snoc.prems(3,4) by (auto simp: deepest_def)
    then have "is_dir_at ?fs s (abs_path ?cs)" using dir by simp
    then show ?thesis
      using True s3_made_existing [OF ex(1)] dirs.MkdirAll_existing by (auto intro!: exI [of _ s] simp: le_Suc_eq)
  next
    case False
    note no = deepest_snoc(3,2) [OF snoc.prems(3) False]
    have "legal (key_of ps (take m cs @ [dirHolder]))" if "k < m" "m \<le> length cs" for m
      using snoc.prems(5) [rule_format, of m] that by simp
    then obtain s2 where up: "(if cs = [] then (None, s) else MkdirAll ?fs (abs_path cs) s) = (None, s2)"
      and made: "objs s2 = s3_made ps cs (objs s)"
      and above: "\<forall>m. 0 < m \<and> k \<le> m \<and> m \<le> length cs \<longrightarrow> is_dir_at ?fs s2 (abs_path (take m cs))"
      using snoc.IH snoc.prems(1,2,4) no(2) deepest_snoc(1) [OF snoc.prems(3) False] by auto
    have "s3_made ps cs (objs s) (key_of ps ?cs) = None"
    proof (rule ccontr)
      assume "s3_made ps cs (objs s) (key_of ps ?cs) \<noteq> None"
      moreover have "objs s (key_of ps ?cs) = None" using not_exists_longer [OF no(1), of "[]"] by simp
      ultimately obtain p q where "cs = p @ q" "key_of ps ?cs = key_of ps (p @ [dirHolder])"
        using s3_made_new [of ps cs "objs s" "key_of ps ?cs"] by blast
      then show False using holder_key_new [of p ?cs] ok by simp
    qed
    then have none: "objs s2 (key_of ps ?cs) = None" by (simp add: made)
    have parent: "cs = [] \<or> s3_exists (objs s2) (key_of ps cs)"
      using above [rule_format, of "length cs"] is_dir_at_abs [of cs fuel meta s2] ok(1) no(2) by auto
    obtain r s3 where mk: "s3_Mkdir F meta (abs_path ?cs) ModePerm s2 = (r, s3)" by fastforce
    have last: "r = None \<or> s3 = s2 \<and> is_dir_at ?fs s2 (abs_path ?cs)"
      and made3: "objs s3 = s3_made ps ?cs (objs s)"
    proof -
      have "(r = None \<or> s3 = s2 \<and> is_dir_at ?fs s2 (abs_path ?cs)) \<and> objs s3 = s3_made ps ?cs (objs s)"
      proof (cases "s3_exists (objs s2) (key_of ps ?cs)")
        case True
        then have "s3 = s2" using mk Mkdir_abs [OF ok(1), of meta ModePerm s2] by simp
        moreover have "is_dir_at ?fs s2 (abs_path ?cs)" using True none dir [of s2] by blast
        moreover have "s3_made ps ?cs (objs s) = objs s2" using True by (simp add: s3_made_snoc made)
        ultimately show ?thesis by simp
      next
        case False
        have "legal (key_of ps (cs @ [c, dirHolder]))"
          using snoc.prems(5) [rule_format, of "Suc (length cs)"] no(2) by simp
        then have "fst (s3_Mkdir F meta (abs_path ?cs) ModePerm s2) = None"
          using Mkdir_abs [OF ok(1), of meta ModePerm s2] False parent put_ok by auto
        then have "r = None" using mk by simp
        then show ?thesis
          using Mkdir_makes(1) [OF ok(1) _ ok(3), of meta ModePerm s2 s3] mk False by (simp add: s3_made_snoc made)
      qed
      then show "r = None \<or> s3 = s2 \<and> is_dir_at ?fs s2 (abs_path ?cs)" "objs s3 = s3_made ps ?cs (objs s)" by simp_all
    qed
    have here: "is_dir_at ?fs s3 (abs_path ?cs)"
      using last Mkdir_makes(2) [OF ok(1) _ ok(3), of meta ModePerm s2 s3 fuel] mk by auto
    have kept: "is_dir_at ?fs s3 (abs_path (take m cs))" if "0 < m" "k \<le> m" "m \<le> length cs" for m
    proof -
      have "list_all name_ok (take m cs)" "dirHolder \<notin> set (take m cs)" "take m cs \<noteq> []"
        using ok that by (auto simp: list_all_iff dest: in_set_takeD)
      then show ?thesis
        using Mkdir_keeps [OF ok(1) _ _ _ _ above [rule_format, of m], where perm = ModePerm] that mk by simp
    qed
    obtain q where "s3_Stat F (abs_path ?cs) s2 = (q, s2)" by (metis Stat_state prod.collapse)
    then have "MkdirAll ?fs (abs_path ?cs) s = (None, s3)"
      using up mk last Stat_exists(2) [OF ok(1) _ no(1)]
      by (auto simp: MkdirAll_abs [OF ok(2)] Stat_def is_dir_at_def split: option.splits sum.splits prod.splits)
    then show ?thesis using made3 here kept by (auto simp: le_Suc_eq)
  qed
qed simp

lemma Rename_file:
  assumes old: "list_all name_ok (cs @ [x])" and new: "list_all name_ok (ds @ [y])"
    and differ: "cs @ [x] \<noteq> ds @ [y]" "\<not> has_prefix (abs_path (ds @ [y])) (abs_path (cs @ [x]) @ ''/'')"
    and d: "objs s (key_of ps (cs @ [x])) = Some d"
    and legal: "legal (key_of ps (cs @ [x]))" "legal (key_of ps (ds @ [y]))"
  shows "\<exists>s'. s3_Rename (Suc fuel) F meta (abs_path (cs @ [x])) (abs_path (ds @ [y])) s = Some (None, s')
    \<and> objs s' = ((objs s)(key_of ps (ds @ [y]) \<mapsto> d))(key_of ps (cs @ [x]) := None)"
proof -
  let ?o = "abs_path (cs @ [x])" and ?n = "abs_path (ds @ [y])"
  let ?ok = "key_of ps (cs @ [x])" and ?nk = "key_of ps (ds @ [y])"
  obtain t where st: "s3_Stat F ?o s = (Inr (NewFileInfo x (int (length d)) t), s)"
    using Stat_found [OF old _ d] by auto
  have ne: "?n \<noteq> ?o" using abs_path_inject [OF new old] differ(1) by auto
  obtain s1 where copy: "CopyObject (s3Client F) (s3_bucket F) ?nk ?ok s = (None, s1)"
    using copy_ok [OF legal(2), of s ?ok] d by (cases "CopyObject (s3Client F) (s3_bucket F) ?nk ?ok s") auto
  obtain s2 where rem: "RemoveObject (s3Client F) (s3_bucket F) ?ok True s1 = (None, s2)"
    using remove_ok [OF legal(1), of True s1] by (cases "RemoveObject (s3Client F) (s3_bucket F) ?ok True s1") auto
  show ?thesis
    using ne st old differ(2) copy rem copy_done [OF copy] remove_done [OF rem] d
    by (simp add: s3_path_abs [OF mounted old] s3_path_abs [OF mounted new] s3_forceRemove_def)
qed

end

section \<open>A reference service\<close>

text \<open>
  The bucket is an association list, kept beside a part \<open>'u\<close> that the callers may use. Keys are
  non-empty and at most 1024 bytes; \<open>refuse k d\<close> makes storing \<open>d\<close> under \<open>k\<close> fail. Opening an
  object sends no request yet: reading one that is missing fails, opening it does not.
\<close>

type_synonym 'u store = "(string \<times> bytes) list \<times> 'u"

definition ref_objs :: "'u store \<Rightarrow> string \<Rightarrow> bytes option" where
  "ref_objs s = map_of (fst s)"

definition ref_legal :: "string \<Rightarrow> bool" where
  "ref_legal k \<longleftrightarrow> k \<noteq> [] \<and> int (length k) \<le> 1024"

definition ref_info :: "(string \<times> bytes) list \<Rightarrow> string \<Rightarrow> object_info" where
  "ref_info al k = \<lparr>oi_key = k, oi_size = (case map_of al k of Some d \<Rightarrow> int (length d) | None \<Rightarrow> 0),
     oi_last_modified = 0\<rparr>"

definition ref_list :: "(string \<times> bytes) list \<Rightarrow> string \<Rightarrow> object_info list" where
  "ref_list al p = map (ref_info al) (remdups (map (entry_key p) (filter (\<lambda>k. has_prefix k p) (map fst al))))"

definition ref_put :: "(string \<Rightarrow> bytes \<Rightarrow> bool) \<Rightarrow> string \<Rightarrow> bytes \<Rightarrow> 'u store \<Rightarrow> go_error option \<times> 'u store" where
  "ref_put refuse k d s =
     (if \<not> ref_legal k \<or> refuse k d then (Some (MinioError 400 ''InvalidRequest''), s)
      else (None, (AList.update k d (fst s), snd s)))"

definition ref_client :: "(string \<Rightarrow> bytes \<Rightarrow> bool) \<Rightarrow> (bytes option \<times> nat, 'u store) s3_client" where
  "ref_client refuse =
     \<lparr>StatObject = (\<lambda>b k s. (case map_of (fst s) k of
          Some d \<Rightarrow> Inr (ref_info (fst s) k) | None \<Rightarrow> Inl (MinioError 404 ''NoSuchKey''), s)),
      ListObjects = (\<lambda>b p m s. (map Inr (ref_list (fst s) p), s)),
      GetObject = (\<lambda>b k s. (Inr (map_of (fst s) k, 0), s)),
      PutObject = (\<lambda>b k d opts s. ref_put refuse k d s),
      PutFeed = (\<lambda>b k buf p s. (None, s)),
      CopyObject = (\<lambda>b dst src s. (case map_of (fst s) src of
          Some d \<Rightarrow> ref_put refuse dst d s | None \<Rightarrow> (Some (MinioError 404 ''NoSuchKey''), s))),
      RemoveObject = (\<lambda>b k force s. if k \<noteq> [] then (None, (AList.delete k (fst s), snd s))
          else (Some (MinioError 400 ''InvalidRequest''), s)),
      PresignedGetObject = (\<lambda>b k s. (Inr empty_url, s)),
      PresignedPutObject = (\<lambda>b k s. (Inr empty_url, s)),
      obj_read = (\<lambda>(content, pos) n s.
          case content of
            None \<Rightarrow> ((0, [], Some (MinioError 404 ''NoSuchKey'')), (content, pos), s)
          | Some d \<Rightarrow>
              (let p = take n (drop pos d) in
               ((int (length p), p, if p = [] \<and> 0 < n then Some EOF else None), (content, pos + length p), s))),
      obj_seek = (\<lambda>o' off whence s. ((0, Some ErrInvalid), o', s)),
      obj_close = (\<lambda>o' s. (None, o', s))\<rparr>"

definition ref_fs :: "(string \<Rightarrow> bytes \<Rightarrow> bool) \<Rightarrow> string \<Rightarrow> (bytes option \<times> nat, 'u store) s3fs" where
  "ref_fs refuse p =
     \<lparr>s3Client = ref_client refuse, s3ClientForPresign = ref_client refuse, presignAs = None,
      s3_bucket = ''bucket'', s3_prefix = p\<rparr>"

lemma ref_fs_simps [simp]:
  "s3Client (ref_fs r p) = ref_client r" "s3_prefix (ref_fs r p) = p" "s3_bucket (ref_fs r p) = ''bucket''"
  "s3_presignForWrite (ref_fs r p) = None"
  by (simp_all add: ref_fs_def s3_presignForWrite_def)

lemma map_of_update: "map_of (AList.update k d al) = (map_of al)(k \<mapsto> d)"
  by (simp add: update_conv')

lemma map_of_delete: "map_of (AList.delete k al) = (map_of al)(k := None)"
  by (simp add: delete_conv')

lemma ref_put_objs:
  "ref_put r k d s = (None, s') \<Longrightarrow> ref_objs s' = (ref_objs s)(k \<mapsto> d)"
  "ref_put r k d s = (Some e, s') \<Longrightarrow> s' = s"
  by (auto simp: ref_put_def ref_objs_def map_of_update split: if_splits)

interpretation ref: s3_service "ref_client r" b ref_objs for r b
proof (unfold_locales, goal_cases)
  case (3 p m s)
  have "set (map oi_key (ref_list (fst s) p)) = entry_key p ` {k \<in> dom (ref_objs s). has_prefix k p}"
    by (auto simp: ref_list_def ref_info_def ref_objs_def dom_map_of_conv_image_fst image_iff)
  moreover have "distinct (map oi_key (ref_list (fst s) p))"
    by (simp add: ref_list_def ref_info_def comp_def)
  moreover have "\<forall>oi \<in> set (ref_list (fst s) p). \<forall>d. ref_objs s (oi_key oi) = Some d \<longrightarrow> oi_size oi = int (length d)"
    by (auto simp: ref_list_def ref_info_def ref_objs_def)
  ultimately show ?case by (intro exI [of _ "ref_list (fst s) p"]) (simp add: ref_client_def)
next
  case (8 dst src s s')
  then show ?case
    using ref_put_objs(1) [of r dst _ s s'] by (auto simp: ref_client_def ref_objs_def split: option.splits)
next
  case (9 dst src s e s')
  then show ?case using ref_put_objs(2) [of r dst _ s e s'] by (auto simp: ref_client_def split: option.splits)
qed (auto simp: ref_client_def ref_objs_def ref_info_def map_of_delete dest: ref_put_objs
      split: option.splits if_splits)

lemma ref_at_prefix: "list_all name_ok qs \<Longrightarrow> at_prefix (ref_fs r (abs_path qs)) qs"
  by (cases "qs = []") (simp_all add: at_prefix_def path_elems_abs)

text \<open>The file system at the root of the bucket, with a service that refuses nothing legal.\<close>

abbreviation good_fs :: "(bytes option \<times> nat, 'u store) s3fs" where
  "good_fs \<equiv> ref_fs (\<lambda>k d. False) ''/''"

lemma at_root: "at_prefix (ref_fs r ''/'') []"
  by (simp add: at_prefix_def)

interpretation ref_root: s3_mounted "ref_fs r ''/''" ref_objs "[]" for r
  by (simp add: s3_mounted_def s3_mounted_axioms_def ref.s3_service_axioms at_root)

interpretation ref_good: s3_reliable good_fs ref_objs "[]" ref_legal
  by unfold_locales (auto simp: ref_client_def ref_put_def ref_legal_def ref_objs_def)

interpretation ref_dirs: dir_maker "s3_filesystem n (ref_fs r ''/'') meta"
    "\<lambda>cs. list_all name_ok cs \<and> dirHolder \<notin> set cs" for n r meta
  by (rule ref_root.dirs.dir_maker_axioms)

end
