(* ===== verification/S3_Props.thy ===== *)
theory S3_Props
  imports S3_Ref
begin

text \<open>
  The properties of the S3 file system over any service with the documented behaviour
  (\<^const>\<open>s3_mounted\<close>, \<^const>\<open>s3_reliable\<close>), each applied to the reference service.
\<close>

lemma names_ok [simp]:
  "name_ok ''a''" "name_ok ''b''" "name_ok ''c''" "name_ok ''d''" "name_ok ''ab''"
  by (simp_all add: name_ok_def good_elem_def)

lemma abs_paths:
  "abs_path [a] = ''/'' @ a" "abs_path [a, b] = ''/'' @ a @ ''/'' @ b"
  "key_of [] [a] = a" "key_of [] [a, b] = a @ ''/'' @ b" "key_of [] [a, b, c] = a @ ''/'' @ b @ ''/'' @ c"
  "dir_key [] [a] = a @ ''/''"
  by (simp_all add: abs_path_def key_of_def dir_key_def)

lemma ref_exists: "s3_exists (ref_objs (al, u)) k \<longleftrightarrow> (\<exists>k' \<in> set (map fst al). has_prefix k' k)"
  by (simp add: s3_exists_def ref_objs_def dom_map_of_conv_image_fst)

lemma ref_objs_apply: "ref_objs (al, u) k = map_of al k"
  by (simp add: ref_objs_def)

lemmas ref_facts = abs_paths ref_exists ref_objs_apply

lemma good_path [simp]: "s3_path good_fs ''a'' = ''a''"
  by (simp add: s3_path_def trim_prefix_def has_prefix_def)

lemmas good_mounted = ref_root.s3_mounted_axioms [of "\<lambda>k d. False"]

section \<open>Stat\<close>

text \<open>C7: \<open>Stat\<close> of a path answers the file with its size when its key is an object; otherwise it
  answers a directory exactly when some key starts with its key, and \<open>ErrNotExist\<close> when none
  does. It changes nothing.\<close>

theorem S3_Stat_result:
  assumes "s3_mounted F objs ps" "list_all name_ok cs" "cs \<noteq> []"
  shows "case objs s (key_of ps cs) of
      Some d \<Rightarrow> \<exists>t. s3_Stat F (abs_path cs) s = (Inr (NewFileInfo (last cs) (int (length d)) t), s)
    | None \<Rightarrow> s3_Stat F (abs_path cs) s =
        (if s3_exists (objs s) (key_of ps cs) then (Inr (NewDirFileInfo (last cs)), s)
         else (Inl (PathError ''stat'' (abs_path cs) ErrNotExist), s))"
  using s3_mounted.Stat_found [OF assms] s3_mounted.Stat_missing [OF assms]
  by (simp split: option.split)

theorem S3_Stat_result_witness:
  "s3_Stat good_fs ''/a'' ([(''a/b'', ''xy'')], ()) = (Inr (NewDirFileInfo ''a''), ([(''a/b'', ''xy'')], ()))"
  using S3_Stat_result [OF good_mounted, of "[''a'']" "([(''a/b'', ''xy'')], ())"]
  by (simp add: ref_facts)

text \<open>a path is reported as a directory, and cannot be made one, as soon as a key exists that
  merely starts with the same letters: with an object \<open>ab\<close> and nothing below \<open>a/\<close>, \<open>Stat\<close>
  of \<open>/a\<close> answers a directory and \<open>Mkdir\<close> of \<open>/a\<close> answers \<open>ErrExist\<close>.\<close>

theorem S3_sibling_prefix:
  assumes "s3_mounted F objs ps" "list_all name_ok (cs @ [x @ y])" "name_ok x"
    and "objs s (key_of ps (cs @ [x @ y])) = Some d" "objs s (key_of ps (cs @ [x])) = None"
  shows "s3_Stat F (abs_path (cs @ [x])) s = (Inr (NewDirFileInfo x), s)
    \<and> s3_Mkdir F meta (abs_path (cs @ [x])) perm s
      = (Some (PathError ''mkdir'' (abs_path (cs @ [x])) ErrExist), s)"
proof -
  have ok: "list_all name_ok (cs @ [x])" using assms(2,3) by simp
  have "has_prefix (key_of ps (cs @ [x @ y])) (key_of ps (cs @ [x]))"
    by (simp add: key_of_child has_prefix_iff)
  then have ex: "s3_exists (objs s) (key_of ps (cs @ [x]))"
    using assms(4) unfolding s3_exists_def by blast
  show ?thesis
    using s3_mounted.Stat_missing [OF assms(1) ok _ assms(5)] s3_mounted.Mkdir_abs [OF assms(1) ok] ex by simp
qed

theorem S3_sibling_prefix_witness:
  "s3_Stat good_fs ''/a'' ([(''ab'', ''z'')], ()) = (Inr (NewDirFileInfo ''a''), ([(''ab'', ''z'')], ()))"
  using S3_sibling_prefix [OF good_mounted, of "[]" "''a''" "''b''" "([(''ab'', ''z'')], ())" "''z''" meta perm]
  by (simp add: ref_facts)

section \<open>Directories\<close>

text \<open>\<open>Mkdir\<close> in full: \<open>ErrExist\<close> when something is there, \<open>ErrNotExist\<close> of the parent when the
  parent is missing, and otherwise one request, which stores the placeholder object.\<close>

theorem S3_Mkdir_result:
  assumes "s3_mounted F objs ps" "list_all name_ok (cs @ [x])"
  shows "s3_Mkdir F meta (abs_path (cs @ [x])) perm s =
    (if s3_exists (objs s) (key_of ps (cs @ [x]))
     then (Some (PathError ''mkdir'' (abs_path (cs @ [x])) ErrExist), s)
     else if cs \<noteq> [] \<and> \<not> s3_exists (objs s) (key_of ps cs)
     then (Some (PathError ''stat'' (abs_path cs) ErrNotExist), s)
     else PutObject (s3Client F) (s3_bucket F) (key_of ps (cs @ [x, dirHolder])) []
            \<lparr>po_content_type = [], po_cache_control = [], po_part_size = 0\<rparr> s)"
  by (rule s3_mounted.Mkdir_abs [OF assms])

theorem S3_Mkdir_result_witness:
  "s3_Mkdir good_fs (\<lambda>_. []) ''/a/b'' 0 ([(''a/c'', ''z'')], ()) = (None, ([(''a/c'', ''z''), (''a/b/.fs_dir'', [])], ()))"
  using S3_Mkdir_result [OF good_mounted, of "[''a'']" "''b''" "\<lambda>_. []" 0 "([(''a/c'', ''z'')], ())"]
  by (simp add: ref_facts ref_client_def ref_put_def ref_legal_def dirHolder_def)

text \<open>C6: \<open>MkdirAll\<close> over a service that answers. Let \<open>k\<close> be the deepest level of the path at which something is there (0 when there
  is nothing). If that is a file, the call fails with \<open>ENOTDIR\<close> for its path and changes nothing. Otherwise it
  succeeds: it stores exactly the missing placeholders, parents first, every level from \<open>k\<close> down to the path is a
  directory afterwards, and every directory that was there still is.\<close>

theorem S3_MkdirAll_makes:
  assumes "s3_reliable F objs ps legal" "list_all name_ok cs" "dirHolder \<notin> set cs" "cs \<noteq> []" "deepest ps (objs s) cs k"
    and "\<forall>m. k < m \<and> m \<le> length cs \<longrightarrow> legal (key_of ps (take m cs @ [dirHolder]))"
  shows "if 0 < k \<and> objs s (key_of ps (take k cs)) \<noteq> None
    then MkdirAll (s3_filesystem fuel F meta) (abs_path cs) s = (Some (PathError ''mkdir'' (abs_path (take k cs)) (Errno ENOTDIR)), s)
    else \<exists>s'. MkdirAll (s3_filesystem fuel F meta) (abs_path cs) s = (None, s')
      \<and> objs s' = s3_made ps cs (objs s)
      \<and> (\<forall>m. 0 < m \<and> k \<le> m \<and> m \<le> length cs \<longrightarrow> is_dir_at (s3_filesystem fuel F meta) s' (abs_path (take m cs)))
      \<and> (\<forall>ds. list_all name_ok ds \<and> dirHolder \<notin> set ds \<and> ds \<noteq> [] \<and> is_dir_at (s3_filesystem fuel F meta) s (abs_path ds)
          \<longrightarrow> is_dir_at (s3_filesystem fuel F meta) s' (abs_path ds))"
proof (cases "0 < k \<and> objs s (key_of ps (take k cs)) \<noteq> None")
  case True
  then show ?thesis using s3_reliable.MkdirAll_at_file [OF assms(1,2,5)] by auto
next
  case False
  then have "k = 0 \<or> objs s (key_of ps (take k cs)) = None" by auto
  from s3_reliable.MkdirAll_run [OF assms(1-3,5) this assms(6), of fuel meta] assms(4)
  obtain s' where run: "MkdirAll (s3_filesystem fuel F meta) (abs_path cs) s = (None, s')"
    "objs s' = s3_made ps cs (objs s)"
    "\<forall>m. 0 < m \<and> k \<le> m \<and> m \<le> length cs \<longrightarrow> is_dir_at (s3_filesystem fuel F meta) s' (abs_path (take m cs))" by auto
  moreover have "is_dir_at (s3_filesystem fuel F meta) s' (abs_path ds)"
    if "list_all name_ok ds" "dirHolder \<notin> set ds" "ds \<noteq> []" "is_dir_at (s3_filesystem fuel F meta) s (abs_path ds)" for ds
    using dir_maker.MkdirAll_keeps [OF s3_dir_maker [OF s3_reliable.axioms(1) [OF assms(1)]], of cs ds fuel meta s]
      assms(2-4) that run(1) by simp
  ultimately show ?thesis using False by auto
qed

theorem S3_MkdirAll_makes_witness:
  "(\<exists>s'. MkdirAll (s3_filesystem 1 good_fs (\<lambda>_. [])) ''/a/b'' ([(''c'', ''z'')], ()) = (None, s')
      \<and> ref_objs s' = [''c'' \<mapsto> ''z'', ''a/.fs_dir'' \<mapsto> [], ''a/b/.fs_dir'' \<mapsto> []])
   \<and> MkdirAll (s3_filesystem 1 good_fs (\<lambda>_. [])) ''/a/b'' ([(''a'', ''z'')], ())
      = (Some (PathError ''mkdir'' ''/a'' (Errno ENOTDIR)), ([(''a'', ''z'')], ()))"
proof -
  let ?s = "([(''c'', ''z'')], ())" and ?t = "([(''a'', ''z'')], ())"
  have two: "m = 1 \<or> m = 2" if "0 < m" "m \<le> Suc (Suc 0)" for m :: nat using that by auto
  have ok: "list_all name_ok [''a'', ''b'']" "dirHolder \<notin> set [''a'', ''b'']" "[''a'', ''b''] \<noteq> []"
    by (simp_all add: dirHolder_def)
  have d0: "deepest [] (ref_objs ?s) [''a'', ''b''] 0"
    by (auto simp: deepest_def ref_facts has_prefix_def dest!: two)
  have d1: "deepest [] (ref_objs ?t) [''a'', ''b''] 1"
    by (auto simp: deepest_def ref_facts has_prefix_def dest!: two)
  have legal: "\<forall>m. k < m \<and> m \<le> length [''a'', ''b''] \<longrightarrow> ref_legal (key_of [] (take m [''a'', ''b''] @ [dirHolder]))" for k
    by (auto simp: ref_legal_def abs_paths dirHolder_def dest!: two [rotated])
  have "s3_made [] [''a'', ''b''] (ref_objs ?s) = [''c'' \<mapsto> ''z'', ''a/.fs_dir'' \<mapsto> [], ''a/b/.fs_dir'' \<mapsto> []]"
    by (auto simp: s3_made_def s3_exists_def ref_objs_def abs_paths dirHolder_def has_prefix_def)
  then show ?thesis
    using S3_MkdirAll_makes [OF ref_good.s3_reliable_axioms ok d0 legal, of 1 "\<lambda>_. []"]
      S3_MkdirAll_makes [OF ref_good.s3_reliable_axioms ok d1 legal, of 1 "\<lambda>_. []"]
    by (auto simp: ref_facts)
qed

section \<open>Listing\<close>

text \<open>C8: \<open>Readdir\<close> of a directory whose keys are keys of paths: without a limit it answers each file
  and each directory directly below it once, files with their size, the placeholder and every
  file whose name ends like it left out; with a limit \<open>n\<close> it answers the first \<open>n + 1\<close> of them.\<close>

theorem S3_Readdir_result:
  assumes "s3_mounted F objs ps" "list_all name_ok cs" "clean_below (objs s) ps cs"
  shows "\<exists>infos. (\<forall>n. s3_Readdir F (abs_path cs) n s =
        (Inr (if 0 < n then take (nat n + 1) infos else infos), s))
    \<and> distinct (map (\<lambda>fi. (fi_name fi, fi_is_dir fi)) infos)
    \<and> (\<lambda>fi. (fi_name fi, fi_is_dir fi)) ` set infos =
       {(x, False) | x. child_file (objs s) ps cs x} \<union> {(x, True) | x. child_dir (objs s) ps cs x}
    \<and> (\<forall>fi \<in> set infos. \<not> fi_is_dir fi \<longrightarrow>
         (\<forall>d. objs s (key_of ps (cs @ [fi_name fi])) = Some d \<longrightarrow> fi_size fi = int (length d)))"
proof (rule s3_mounted.Readdir_abs [OF assms], goal_cases)
  case (1 infos)
  then show ?case by (intro exI [of _ infos]) auto
qed

lemma clean_belowI:
  assumes "\<forall>k \<in> dom M. has_prefix k (dir_key ps cs) \<longrightarrow> (\<exists>es. es \<noteq> [] \<and> list_all name_ok es \<and> k = key_of ps (cs @ es))"
  shows "clean_below M ps cs"
  using assms by (simp add: clean_below_def)

theorem S3_Readdir_result_witness:
  "\<exists>fi. s3_Readdir good_fs ''/a'' 0 ([(''a/b'', ''xy''), (''a/.fs_dir'', [])], ()) = (Inr [fi], ([(''a/b'', ''xy''), (''a/.fs_dir'', [])], ()))
     \<and> fi_name fi = ''b'' \<and> fi_size fi = 2"
proof -
  let ?s = "([(''a/b'', ''xy''), (''a/.fs_dir'', [])], ())"
  have clean: "clean_below (ref_objs ?s) [] [''a'']"
    unfolding clean_below_def
    by (auto simp: ref_objs_def dir_key_def key_of_def name_ok_def good_elem_def
        intro: exI [of _ "[''b'']"] exI [of _ "[''.fs_dir'']"] split: if_splits)
  have run: "s3_Readdir good_fs ''/a'' 0 ?s = (Inr [NewFileInfo ''b'' 2 0], ?s)" by code_simp
  have ok: "list_all name_ok [''a'']" by simp
  from S3_Readdir_result [OF good_mounted, OF ok clean]
  obtain infos where R: "\<forall>n. s3_Readdir good_fs (abs_path [''a'']) n ?s =
        (Inr (if 0 < n then take (nat n + 1) infos else infos), ?s)"
    and S: "\<forall>fi \<in> set infos. \<not> fi_is_dir fi \<longrightarrow>
         (\<forall>d. ref_objs ?s (key_of [] ([''a''] @ [fi_name fi])) = Some d \<longrightarrow> fi_size fi = int (length d))"
    by (elim exE conjE) (rule that)
  have "infos = [NewFileInfo ''b'' 2 0]" using R [rule_format, of 0] run by (simp add: abs_paths)
  then show ?thesis using R [rule_format, of 0] S by (simp add: ref_facts)
qed

section \<open>Removing and renaming\<close>

text \<open>C2: \<open>RemoveAll\<close> of a directory, with fuel beyond the depth of its keys, always ends; it touches
  no key outside, and when it reports success no key below the directory is left. The object at
  the path itself goes too when the file system is mounted below the root of the bucket; mounted
  at the root, it stays.\<close>

theorem S3_RemoveAll_removes:
  assumes "s3_mounted F objs ps" "list_all name_ok cs" "cs \<noteq> []" "removable (objs s) ps cs n"
  shows "\<exists>r s'. s3_RemoveAll (Suc n) F (abs_path cs) s = Some (r, s')
    \<and> (\<forall>k. \<not> has_prefix k (key_of ps cs @ ''/'') \<and> (k = key_of ps cs \<longrightarrow> ps = []) \<longrightarrow> objs s' k = objs s k)
    \<and> (r = None \<longrightarrow> (\<forall>k. has_prefix k (key_of ps cs @ ''/'') \<or> k = key_of ps cs \<and> ps \<noteq> [] \<longrightarrow> objs s' k = None))"
  using s3_RemoveAll_frame [OF assms] by blast

theorem S3_RemoveAll_removes_witness:
  "\<exists>s'. s3_RemoveAll 3 good_fs ''/a'' ([(''a/b'', ''x''), (''a/c/d'', ''y''), (''ab'', ''z'')], ()) = Some (None, s')
     \<and> ref_objs s' ''a/c/d'' = None \<and> ref_objs s' ''ab'' = Some ''z''"
proof -
  let ?s = "([(''a/b'', ''x''), (''a/c/d'', ''y''), (''ab'', ''z'')], ())"
  have rem: "removable (ref_objs ?s) [] [''a''] 2"
    unfolding removable_def
    by (auto simp: ref_objs_def dir_key_def key_of_def name_ok_def good_elem_def dirHolder_def has_suffix_def
        intro: exI [of _ "[''b'']"] exI [of _ "[''c'', ''d'']"] split: if_splits)
  have run: "s3_RemoveAll 3 good_fs ''/a'' ?s = Some (None, ([(''ab'', ''z'')], ()))" by code_simp
  have ok: "list_all name_ok [''a'']" by simp
  show ?thesis
    using S3_RemoveAll_removes [OF good_mounted, OF ok _ rem] run by (simp add: ref_facts numeral_3_eq_3)
qed

text \<open>mounted at the root of the bucket, \<open>RemoveAll\<close> of a plain file reports success when the
  service does, and leaves the file where it is: it removes the placeholder below the name and
  the key of the name with a trailing slash.\<close>

theorem S3_RemoveAll_keeps_file:
  assumes "s3_reliable F objs [] legal" "list_all name_ok cs" "cs \<noteq> []"
    and "objs s (key_of [] cs) = Some d" "\<forall>k \<in> dom (objs s). \<not> has_prefix k (key_of [] cs @ ''/'')"
    and "legal (key_of [] cs @ ''/'')" "legal (key_of [] (cs @ [dirHolder]))"
  shows "\<exists>s'. s3_RemoveAll (Suc n) F (abs_path cs) s = Some (None, s') \<and> objs s' (key_of [] cs) = Some d"
proof -
  have m: "s3_mounted F objs []" using assms(1) by (simp add: s3_reliable_def)
  have svc: "s3_service (s3Client F) (s3_bucket F) objs" using m by (simp add: s3_mounted_def)
  have at: "at_prefix F []" using m by (simp add: s3_mounted_def s3_mounted_axioms_def)
  have d: "dir_key [] cs = key_of [] cs @ ''/''" using assms(3) by (simp add: dir_key_def)
  have clean: "clean_below (objs s) [] cs" using assms(5) d by (auto simp: clean_below_def)
  obtain infos where infos: "s3_Readdir F (abs_path cs) 0 s = (Inr infos, s)"
    "(\<lambda>fi. (fi_name fi, fi_is_dir fi)) ` set infos =
       {(x, False) | x. child_file (objs s) [] cs x} \<union> {(x, True) | x. child_dir (objs s) [] cs x}"
    using s3_mounted.Readdir_all [OF m assms(2) clean] by (elim exE conjE)
  have none: "key_of [] (cs @ es) \<notin> dom (objs s)" if "es \<noteq> []" for es
    using assms(5) key_of_dir [OF that, of "[]" cs] d by (auto simp: has_prefix_iff)
  have "\<not> child_file (objs s) [] cs x" "\<not> child_dir (objs s) [] cs x" for x
    using none [of "[x]"] none [of "x # es" for es] by (auto simp: child_file_def child_dir_def)
  then have empty: "infos = []" using infos(2) by auto
  let ?h = "key_of [] (cs @ [dirHolder])" and ?k = "key_of [] cs @ ''/''"
  obtain s1 where s1: "RemoveObject (s3Client F) (s3_bucket F) ?h True s = (None, s1)"
    using s3_reliable.remove_ok [OF assms(1,7), of True s] by (cases "RemoveObject (s3Client F) (s3_bucket F) ?h True s") auto
  obtain s2 where s2: "RemoveObject (s3Client F) (s3_bucket F) ?k True s1 = (None, s2)"
    using s3_reliable.remove_ok [OF assms(1,6), of True s1] by (cases "RemoveObject (s3Client F) (s3_bucket F) ?k True s1") auto
  have "?h \<noteq> key_of [] cs" "?k \<noteq> key_of [] cs"
    using d by (simp_all add: key_of_child)
  then have "objs s2 (key_of [] cs) = Some d"
    using s3_service.remove_done [OF svc s1] s3_service.remove_done [OF svc s2] assms(4) by simp
  moreover have "s3_RemoveAll (Suc n) F (abs_path cs) s = Some (None, s2)"
    using assms(2,3) infos(1) empty s1 s2 s3_mounted.path_join_holder [OF m assms(2,3)] at
    by (simp add: s3_forceRemove_def path_clean_abs s3_path_abs s3_path_slash)
  ultimately show ?thesis by blast
qed

theorem S3_RemoveAll_keeps_file_witness:
  "\<exists>s'. s3_RemoveAll (Suc 0) good_fs ''/a'' ([(''a'', ''x'')], ()) = Some (None, s') \<and> ref_objs s' ''a'' = Some ''x''"
proof -
  have "\<forall>k \<in> dom (ref_objs ([(''a'', ''x'')], ())). \<not> has_prefix k (key_of [] [''a''] @ ''/'')"
    by (simp add: ref_objs_def abs_paths)
  then show ?thesis
    using S3_RemoveAll_keeps_file [OF ref_good.s3_reliable_axioms, of "[''a'']" "([(''a'', ''x'')], ())" "''x''" 0]
    by (simp add: ref_facts ref_legal_def dirHolder_def del: s3_RemoveAll.simps split_paired_Ex)
qed

text \<open>renaming a file to another path that is not below it moves the object: the new key holds
  its content, the old key is gone and nothing else has changed; an object at the new key is
  overwritten without an error.\<close>

theorem S3_Rename_file:
  assumes "s3_reliable F objs ps legal"
    and "list_all name_ok (cs @ [x])" "list_all name_ok (ds @ [y])" "cs @ [x] \<noteq> ds @ [y]"
    and "\<not> has_prefix (abs_path (ds @ [y])) (abs_path (cs @ [x]) @ ''/'')"
    and "objs s (key_of ps (cs @ [x])) = Some d"
    and "legal (key_of ps (cs @ [x]))" "legal (key_of ps (ds @ [y]))"
  shows "\<exists>s'. s3_Rename (Suc fuel) F meta (abs_path (cs @ [x])) (abs_path (ds @ [y])) s = Some (None, s')
    \<and> objs s' = ((objs s)(key_of ps (ds @ [y]) \<mapsto> d))(key_of ps (cs @ [x]) := None)"
  by (rule s3_reliable.Rename_file [OF assms])

theorem S3_Rename_file_witness:
  "\<exists>s'. s3_Rename (Suc 0) good_fs (\<lambda>_. []) ''/a'' ''/b/c'' ([(''a'', ''x'')], ()) = Some (None, s')
     \<and> ref_objs s' = [''b/c'' \<mapsto> ''x'']"
proof -
  have "(([''a'' \<mapsto> ''x''])(''b/c'' \<mapsto> ''x''))(''a'' := None) = [''b/c'' \<mapsto> ''x'']" by (rule ext) simp
  moreover have "ref_objs ([(''a'', ''x'')], ()) = [''a'' \<mapsto> ''x'']" by (simp add: ref_objs_def)
  ultimately show ?thesis
    using S3_Rename_file [OF ref_good.s3_reliable_axioms, of "[]" "''a''" "[''b'']" "''c''"
      "([(''a'', ''x'')], ())" "''x''" 0 "\<lambda>_. []"]
    by (simp add: abs_paths ref_legal_def del: s3_Rename.simps split_paired_Ex)
qed

text \<open>nothing can be renamed to a path below itself, and renaming what is missing reports that it
  does not exist; both leave everything as it was.\<close>

theorem S3_Rename_refused:
  assumes "s3_mounted F objs ps" "list_all name_ok cs" "cs \<noteq> []" "new \<noteq> abs_path cs"
    and "has_prefix new (abs_path cs @ ''/'') \<or> \<not> s3_exists (objs s) (key_of ps cs)"
  shows "s3_Rename (Suc fuel) F meta (abs_path cs) new s =
    Some (Some (if s3_exists (objs s) (key_of ps cs) then LinkError ''rename'' (abs_path cs) new ErrPermission
                else PathError ''stat'' (abs_path cs) ErrNotExist), s)"
proof (cases "s3_exists (objs s) (key_of ps cs)")
  case True
  then obtain fi where "s3_Stat F (abs_path cs) s = (Inr fi, s)"
    using s3_mounted.Stat_exists(1) [OF assms(1-3)] by blast
  then show ?thesis using True assms(4,5) by simp
next
  case False
  then show ?thesis using s3_mounted.Stat_exists(2) [OF assms(1-3)] assms(4) by simp
qed

theorem S3_Rename_refused_witness:
  "s3_Rename (Suc 0) good_fs (\<lambda>_. []) ''/a'' ''/a/b'' ([(''a/c'', ''x'')], ()) =
     Some (Some (LinkError ''rename'' ''/a'' ''/a/b'' ErrPermission), ([(''a/c'', ''x'')], ()))"
  using S3_Rename_refused [OF good_mounted, of "[''a'']" "''/a/b''" "([(''a/c'', ''x'')], ())" 0 "\<lambda>_. []"]
  by (simp add: ref_facts del: s3_Rename.simps)

section \<open>Writing\<close>

text \<open>C3: \<open>filesystem.Write\<close> of a file whose parent exists stores exactly the data under the file's
  key, whatever was there before, and changes no other object.\<close>

theorem S3_Write_stores:
  assumes "s3_reliable F objs ps legal"
    and "list_all name_ok (cs @ [x])" "cs = [] \<or> s3_exists (objs s) (key_of ps cs)"
    and "legal (key_of ps (cs @ [x]))" "s3_presignForWrite F = None"
  shows "\<exists>s'. Write (s3_filesystem fuel F meta) (abs_path (cs @ [x])) data s = (None, s')
    \<and> objs s' = (objs s)(key_of ps (cs @ [x]) \<mapsto> data)"
  by (rule s3_reliable.Write_stores [OF assms])

theorem S3_Write_stores_witness:
  "\<exists>s'. Write (s3_filesystem 0 good_fs (\<lambda>_. [])) ''/a'' ''new'' ([(''a'', ''x'')], ()) = (None, s')
     \<and> ref_objs s' = [''a'' \<mapsto> ''new'']"
proof -
  have "ref_objs ([(''a'', ''x'')], ()) = [''a'' \<mapsto> ''x'']" by (simp add: ref_objs_def)
  then show ?thesis
    using S3_Write_stores [OF ref_good.s3_reliable_axioms, of "[]" "''a''" "([(''a'', ''x'')], ())" 0 "\<lambda>_. []" "''new''"]
    by (simp add: abs_paths ref_legal_def del: split_paired_Ex)
qed

text \<open>C4: a streamed upload stores the concatenation of the written chunks when the file is closed,
  however the data was cut; closing the file a second time does not return.\<close>

theorem S3_upload_concat:
  assumes "s3_reliable F objs ps legal" "legal (s3_path F (sf_name f))"
    and "sf_writeable f" "sf_upload f = None" "chunks \<noteq> []"
  shows "\<exists>f' s' f'' s''. write_chunks F f chunks s = (True, f', s') \<and> s3file_Close F f' s' = (None, f'', s'')
    \<and> objs s'' = (objs s)(s3_path F (sf_name f) \<mapsto> concat chunks)
    \<and> s3file_Close F f'' s'' = (Some Blocks, f'', s'')"
  using s3_reliable.upload_chunks [OF assms, of s] by (fastforce simp: s3file_Close_def)

theorem S3_upload_concat_witness:
  "\<exists>f' s' f'' s''. write_chunks good_fs (new_file ''a'' 65 (\<lambda>_. []) True) [''x'', ''yz''] ([], ()) = (True, f', s')
    \<and> s3file_Close good_fs f' s' = (None, f'', s'') \<and> ref_objs s'' = [''a'' \<mapsto> ''xyz'']
    \<and> s3file_Close good_fs f'' s'' = (Some Blocks, f'', s'')"
proof -
  let ?f = "new_file ''a'' 65 (\<lambda>_. []) True :: (bytes option \<times> nat) s3file"
  have "ref_objs ([], ()) = Map.empty" by (simp add: ref_objs_def)
  moreover have "sf_name ?f = ''a''" "sf_upload ?f = None" "sf_writeable ?f" by (simp_all add: new_file_def)
  ultimately show ?thesis
    using S3_upload_concat [OF ref_good.s3_reliable_axioms, of ?f "[''x'', ''yz'']" "([], ())"]
    by (simp add: ref_legal_def del: split_paired_Ex write_chunks.simps)
qed

text \<open>C19: a failing upload can go unnoticed: when storing the placeholder byte works and the upload
  itself fails at the end, \<open>filesystem.Write\<close> still reports success, and the file holds one zero
  byte instead of the data.\<close>

theorem S3_Write_hides_failure:
  fixes F :: "('o, 's) s3fs"
  assumes "s3_mounted F objs ps" "list_all name_ok [x]" "s3_presignForWrite F = None"
    and "\<forall>opts s. fst (PutObject (s3Client F) (s3_bucket F) (key_of ps [x]) [CHR 0x00] opts s) = None"
    and "\<forall>buf p s. fst (PutFeed (s3Client F) (s3_bucket F) (key_of ps [x]) buf p s) = None"
    and "\<forall>opts s. \<exists>e. PutObject (s3Client F) (s3_bucket F) (key_of ps [x]) data opts s = (Some e, s)"
  shows "\<exists>s'. Write (s3_filesystem fuel F meta) (abs_path [x]) data s = (None, s')
    \<and> objs s' (key_of ps [x]) = Some [CHR 0x00]"
proof -
  let ?n = "abs_path [x]" and ?k = "key_of ps [x]" and ?flag = "(O_RDWR OR O_CREATE OR O_TRUNC) OR O_WRONLY"
  let ?f = "new_file ?n ?flag meta True :: 'o s3file"
  have svc: "s3_service (s3Client F) (s3_bucket F) objs" and at: "at_prefix F ps"
    using assms(1) by (simp_all add: s3_mounted_def s3_mounted_axioms_def)
  have path: "s3_path F ?n = ?k" using s3_path_abs [OF at assms(2)] .
  have opened: "s3_OpenFile F meta ?n (O_RDWR OR O_CREATE OR O_TRUNC) ModePerm s = (Inr ?f, s)"
    using assms(2,3) s3_mounted.check_parent_abs [OF assms(1), of "[]" x ?n s]
    by (simp add: s3_OpenFile_def s3_openFileForWrite_def Let_def)
  let ?put = "PutObject (s3Client F) (s3_bucket F) ?k [CHR 0x00] (s3_put_options ?f) s"
  obtain s1 where s1: "?put = (None, s1)" using assms(4) by (metis prod.collapse)
  let ?feed = "PutFeed (s3Client F) (s3_bucket F) ?k [] data s1"
  obtain s2 where s2: "?feed = (None, s2)" using assms(5) by (metis prod.collapse)
  have "objs s2 ?k = Some [CHR 0x00]"
    using s3_service.put_done [OF svc s1] s3_service.put_feed [OF svc, of ?k "[]" data s1] s2 by simp
  moreover obtain e where "PutObject (s3Client F) (s3_bucket F) ?k data
      ((s3_put_options ?f)\<lparr>po_part_size := 5 * MiB\<rparr>) s2 = (Some e, s2)" using assms(6) by blast
  moreover have "s3file_Write F ?f data s = ((int (length data), None),
      ?f\<lparr>sf_upload := Some (Uploading data ((s3_put_options ?f)\<lparr>po_part_size := 5 * MiB\<rparr>))\<rparr>, s2)"
    using s1 s2 path
    by (simp add: s3file_Write_def s3_start_upload_def s3_pipe_write_def new_file_def s3_put_options_def)
  ultimately show ?thesis
    using opened path by (simp add: Write_def s3file_Close_def new_file_def)
qed

theorem S3_Write_hides_failure_witness:
  "\<exists>s'. Write (s3_filesystem 0 (ref_fs (\<lambda>k d. d = ''data'') ''/'') (\<lambda>_. [])) ''/a'' ''data'' ([], ()) = (None, s')
     \<and> ref_objs s' ''a'' = Some [CHR 0x00]"
  using S3_Write_hides_failure [OF ref_root.s3_mounted_axioms [of "\<lambda>k d. d = ''data''"], of "''a''" "''data''" 0
      "\<lambda>_. []" "([], ())"]
  by (simp add: ref_facts ref_client_def ref_put_def ref_legal_def del: split_paired_Ex)

text \<open>creating a file and closing it without a write stores nothing: no file is there.\<close>

theorem S3_create_without_write:
  assumes "s3_mounted F objs ps" "list_all name_ok [x]" "s3_presignForWrite F = None"
  shows "\<exists>f. Create (s3_filesystem fuel F meta) (abs_path [x]) s = (Inr f, s)
    \<and> s3file_Close F f s = (None, f, s)"
proof -
  have "s3_OpenFile F meta (abs_path [x]) (O_RDWR OR O_CREATE OR O_TRUNC) 0x1B6 s =
    (Inr (new_file (abs_path [x]) ((O_RDWR OR O_CREATE OR O_TRUNC) OR O_WRONLY) meta True), s)"
    using assms(2,3) s3_mounted.check_parent_abs [OF assms(1), of "[]" x "abs_path [x]" s]
    by (simp add: s3_OpenFile_def s3_openFileForWrite_def Let_def)
  then show ?thesis by (simp add: Create_def s3file_Close_def new_file_def)
qed

theorem S3_create_without_write_witness:
  "\<exists>f. Create (s3_filesystem 0 good_fs (\<lambda>_. [])) ''/a'' ([], ()) = (Inr f, ([], ()))
    \<and> s3file_Close good_fs f ([], ()) = (None, f, ([], ()))"
  using S3_create_without_write [OF good_mounted, of "''a''" 0 "\<lambda>_. []" "([], ())"] by (simp add: abs_paths)

text \<open>a handle accepts writes exactly when it was opened with \<open>O_CREATE\<close> or \<open>O_WRONLY\<close>: one opened
  with \<open>O_RDWR\<close> alone refuses them; \<open>O_APPEND\<close> is never accepted.\<close>

theorem S3_OpenFile_mode:
  assumes "s3_OpenFile F meta name flag perm s = (Inr f, s')" "\<not> has_suffix name ''/''"
  shows "\<not> has_flag flag O_APPEND
    \<and> (sf_writeable f \<longleftrightarrow> has_flag flag O_CREATE \<or> has_flag flag O_WRONLY)
    \<and> (\<not> has_flag flag O_CREATE \<and> \<not> has_flag flag O_WRONLY \<longrightarrow> s3file_Write F f p t = ((-1, Some ErrPermission), f, t))"
proof -
  have app: "\<not> has_flag flag O_APPEND" using assms(1) by (auto simp: s3_OpenFile_def)
  have "(flag OR O_WRONLY) AND O_WRONLY = O_WRONLY"
    by (rule bit_eqI) (auto simp: bit_simps)
  then have or: "has_flag (flag OR O_WRONLY) O_WRONLY" by (simp add: has_flag_def open_flags)
  have w: "sf_writeable g" if "s3_openFileForWrite F meta name fl t = (Inr g, t')" for fl t g t'
    using that by (auto simp: s3_openFileForWrite_def new_file_def Let_def split: prod.splits option.splits sum.splits)
  have r: "\<not> sf_writeable g" if "s3_openFileForRead F meta name fl t = (Inr g, t')" for fl t g t'
    using that by (auto simp: s3_openFileForRead_def new_file_def Let_def split: prod.splits option.splits sum.splits)
  have "sf_writeable f \<longleftrightarrow> has_flag flag O_CREATE \<or> has_flag flag O_WRONLY"
    using assms app or w r by (auto simp: s3_OpenFile_def Let_def split: if_splits)
  then show ?thesis using app by (simp add: s3file_Write_def)
qed

theorem S3_OpenFile_mode_witness:
  "\<exists>f. s3_OpenFile good_fs (\<lambda>_. []) ''/a'' O_RDWR 0 ([(''a'', ''x'')], ()) = (Inr f, ([(''a'', ''x'')], ())) \<and> \<not> sf_writeable f"
proof -
  let ?run = "s3_OpenFile good_fs (\<lambda>_. []) ''/a'' O_RDWR 0 ([(''a'', ''x'')], ())"
  have "\<not> isl (fst ?run) \<and> snd ?run = ([(''a'', ''x'')], ())" by code_simp
  then obtain f where "?run = (Inr f, ([(''a'', ''x'')], ()))" by (cases "fst ?run"; cases ?run) auto
  then show ?thesis
    using S3_OpenFile_mode [of good_fs "\<lambda>_. []" "''/a''" O_RDWR 0 "([(''a'', ''x'')], ())" f "([(''a'', ''x'')], ())"]
    by (auto simp: has_suffix_def has_flag_def open_flags)
qed

section \<open>Walking\<close>

text \<open>C5: \<open>WalkDir\<close> over a file system that shows a finite tree, with fuel for its height, computes the
  walk by recursion on the tree: the callback sees the entries in order with their joined names,
  \<open>SkipDir\<close> on a directory skips what is below it, \<open>SkipDir\<close> on a file skips the rest of its
  directory, and any other error ends the walk and is returned, \<open>SkipAll\<close> as success.\<close>

theorem WalkDir_reference:
  assumes "fs_stat fsys root s = (Inr info, s)" "root_entry t = statDirEntry info"
    and "keeps I fn" "I s" "lists_tree I fsys root t" "height t \<le> n"
  shows "WalkDir n fsys root fn s = Some (walk_end (tree_walk fn root t s))"
  by (rule WalkDir_tree [OF assms(1,2) keeps_on [OF assms(3)] assms(4-6)])

text \<open>The bucket of the witnesses, with the list of the names a callback has seen beside it.\<close>

definition walk_objs :: "(string \<times> bytes) list" where
  "walk_objs = [(''a/c/d'', ''y''), (''a/b'', ''x'')]"

definition walk_tree :: ftree where
  "walk_tree = Tree (statDirEntry (NewDirFileInfo ''a''))
     [Tree (statDirEntry (NewFileInfo ''b'' 1 0)) [],
      Tree (statDirEntry (NewDirFileInfo ''c'')) [Tree (statDirEntry (NewFileInfo ''d'' 1 0)) []]]"

abbreviation walk_fs :: "((bytes option \<times> nat) s3file, string list store) filesystem" where
  "walk_fs \<equiv> s3_filesystem 0 good_fs (\<lambda>_. [])"

definition note_name :: "string \<Rightarrow> dir_entry option \<Rightarrow> string list store \<Rightarrow> string list store" where
  "note_name p d s = (fst s, snd s @ [p])"

lemma walk_stat: "fs_stat walk_fs ''/a'' (walk_objs, u) = (Inr (NewDirFileInfo ''a''), (walk_objs, u))"
  unfolding walk_objs_def by code_simp

lemma walk_lists: "lists_tree (\<lambda>s. fst s = walk_objs) walk_fs ''/a'' walk_tree"
proof -
  have "ReadDir walk_fs ''/a'' (walk_objs, u) =
      (([statDirEntry (NewFileInfo ''b'' 1 0), statDirEntry (NewDirFileInfo ''c'')], None), (walk_objs, u))"
    "ReadDir walk_fs ''/a/c'' (walk_objs, u) = (([statDirEntry (NewFileInfo ''d'' 1 0)], None), (walk_objs, u))" for u
    unfolding walk_objs_def by code_simp+
  moreover have "path_join [''/a'', ''b''] = ''/a/b''" "path_join [''/a'', ''c''] = ''/a/c''" by code_simp+
  ultimately show ?thesis by (auto simp: walk_tree_def statDirEntry_def)
qed

definition note_until_c :: "string list store walk_fn" where
  "note_until_c p d err s = (if p = ''/a/c'' then Some SkipDir else None, note_name p d s)"

theorem WalkDir_reference_witness:
  "WalkDir 3 walk_fs ''/a'' note_until_c (walk_objs, []) = Some (None, (walk_objs, [''/a'', ''/a/b'', ''/a/c'']))"
proof -
  have "keeps (\<lambda>s. fst s = walk_objs) note_until_c"
    by (simp add: keeps_def note_until_c_def note_name_def)
  moreover have "walk_end (tree_walk note_until_c ''/a'' walk_tree (walk_objs, [])) = (None, (walk_objs, [''/a'', ''/a/b'', ''/a/c'']))"
    unfolding walk_objs_def by code_simp
  moreover have "height walk_tree \<le> 3" "root_entry walk_tree = statDirEntry (NewDirFileInfo ''a'')"
    by (simp_all add: walk_tree_def)
  ultimately show ?thesis
    using WalkDir_reference [OF walk_stat _ _ _ walk_lists, of note_until_c "[]" 3] by simp
qed

text \<open>a callback that never fails is called exactly once for each entry of the tree, parents
  before their children and siblings in the order of their names.\<close>

theorem WalkDir_preorder:
  assumes "fs_stat fsys root s = (Inr info, s)" "root_entry t = statDirEntry info"
    and "keeps I (visits g)" "I s" "lists_tree I fsys root t" "height t \<le> n"
  shows "WalkDir n fsys root (visits g) s = Some (None, fold (\<lambda>(p, d). g p (Some d)) (preorder root t) s)"
  using WalkDir_tree [OF assms(1,2) keeps_on [OF assms(3)] assms(4-6)] tree_walk_visits(1) [OF refl, of g root t s] by simp

theorem WalkDir_preorder_witness:
  "WalkDir 3 walk_fs ''/a'' (visits note_name) (walk_objs, []) =
     Some (None, (walk_objs, [''/a'', ''/a/b'', ''/a/c'', ''/a/c/d'']))"
proof -
  have "keeps (\<lambda>s. fst s = walk_objs) (visits note_name)" by (simp add: keeps_def visits_def note_name_def)
  moreover have "fold (\<lambda>(p, d). note_name p (Some d)) (preorder ''/a'' walk_tree) (walk_objs, [])
    = (walk_objs, [''/a'', ''/a/b'', ''/a/c'', ''/a/c/d''])"
    unfolding walk_objs_def by code_simp
  moreover have "height walk_tree \<le> 3" "root_entry walk_tree = statDirEntry (NewDirFileInfo ''a'')"
    by (simp_all add: walk_tree_def)
  ultimately show ?thesis
    using WalkDir_preorder [OF walk_stat _ _ _ walk_lists, of note_name "[]" 3] by simp
qed

section \<open>Configuration\<close>

text \<open>an endpoint's path splits at its second slash into the bucket and the prefix, and the bucket
  with the prefix is the path again.\<close>

theorem Config_split:
  assumes "Path e = slash # b @ slash # rest" "slash \<notin> set b" "b \<noteq> []"
  shows "Config_Bucket e = b \<and> Config_Prefix e = slash # rest"
proof -
  have "Config_Bucket e = b"
    using assms by (simp add: Config_Bucket_def Endpoint_Base_def split_on_append split_on_id)
  then show ?thesis using assms by (simp add: Config_Prefix_def Let_def)
qed

theorem Config_split_witness:
  "Config_Bucket \<lparr>Scheme = ''s3'', Hostname = ''h'', Port = 0, Path = ''/bucket/pre'', Username = [],
      Password = [], Extra = []\<rparr> = ''bucket''
   \<and> Config_Prefix \<lparr>Scheme = ''s3'', Hostname = ''h'', Port = 0, Path = ''/bucket/pre'', Username = [],
      Password = [], Extra = []\<rparr> = ''/pre''"
  by (rule Config_split) simp_all

text \<open>\<open>Stat\<close> of a missing key takes the first item of a listing for a directory without looking
  at it: when the listing fails, its error item makes the path a directory.\<close>

theorem S3_Stat_listing_error:
  assumes "name \<noteq> ''/''" "name \<noteq> ''.''"
    and "StatObject (s3Client F) (s3_bucket F) (s3_path F name) s = (Inl e, s1)" "as_minio e = Some 404"
    and "ListObjects (s3Client F) (s3_bucket F) (s3_path F (path_clean name)) 1 s1 = (Inl e' # items, s2)"
  shows "s3_Stat F name s = (Inr (NewDirFileInfo (path_base name)), s2)"
  using assms by (simp add: s3_Stat_def s3_statDirectory_def)

theorem S3_Stat_listing_error_witness:
  "s3_Stat (good_fs\<lparr>s3Client := (ref_client (\<lambda>k d. False))\<lparr>ListObjects := \<lambda>b p m s. ([Inl ErrTimeout], s)\<rparr>\<rparr>) ''/a'' ([], ())
     = (Inr (NewDirFileInfo ''a''), ([], ()))"
proof -
  have "path_base ''/a'' = ''a''" by code_simp
  then show ?thesis
    using S3_Stat_listing_error [of "''/a''" "good_fs\<lparr>s3Client := (ref_client (\<lambda>k d. False))\<lparr>ListObjects := \<lambda>b p m s. ([Inl ErrTimeout], s)\<rparr>\<rparr>"
      "([], ())" "MinioError 404 ''NoSuchKey''" "([], ())" ErrTimeout "[]" "([], ())"]
    by (simp add: ref_client_def)
qed

end
