(* ===== verification/Ftp_Fs.thy ===== *)
theory Ftp_Fs
  imports Sub_Fs Strfmt
begin

text \<open>
  The FTP file system (\<open>pkg/filesystem/ftp\<close>): the connection with its fallback for servers without
  \<open>MLST\<close> (\<open>client.go\<close>), the configuration (\<open>config.go\<close>), the error mapping (\<open>errors.go\<close>), the
  file system (\<open>fs.go\<close>) and its files (\<open>file.go\<close>).

  The client library (\<open>github.com/jlaffaye/ftp\<close>) is a parameter: a record of operations on
  connections \<open>'c\<close> and data transfers \<open>'r\<close> over the outside state \<open>'s\<close>. \<open>lib_stor\<close> is an upload
  with its whole body; \<open>lib_stor_feed\<close> is what a running upload does with the next chunk after
  the bytes it has read (it may give up, having taken some bytes of the chunk).
\<close>

section \<open>The client library\<close>

datatype entry_type = EntryTypeFile | EntryTypeFolder | EntryTypeLink

record ftp_entry =
  fe_name :: string
  fe_type :: entry_type
  fe_size :: "64 word"
  fe_time :: int

text \<open>\<open>Pool\<close>: what it takes to open a connection. Timeouts are in nanoseconds.\<close>

record pool =
  po_addr :: string
  po_auth :: "(string \<times> string) option"
  po_timeout :: int
  po_debug :: bool
  po_explicit_tls :: bool
  po_tls :: "bool option"

datatype dial_option = DialWithTimeout int | DialWithDebugOutput | DialWithExplicitTLS bool | DialWithTLS bool

record ('c, 'r, 's) ftp_lib =
  lib_dial :: "string \<Rightarrow> dial_option list \<Rightarrow> 's \<Rightarrow> (go_error + 'c) \<times> 's"
  lib_login :: "'c \<Rightarrow> string \<Rightarrow> string \<Rightarrow> 's \<Rightarrow> go_error option \<times> 's"
  lib_quit :: "'c \<Rightarrow> 's \<Rightarrow> go_error option \<times> 's"
  lib_make_dir :: "'c \<Rightarrow> string \<Rightarrow> 's \<Rightarrow> go_error option \<times> 's"
  lib_get_entry :: "'c \<Rightarrow> string \<Rightarrow> 's \<Rightarrow> (go_error + ftp_entry) \<times> 's"
  lib_list :: "'c \<Rightarrow> string \<Rightarrow> 's \<Rightarrow> (go_error + ftp_entry list) \<times> 's"
  lib_delete :: "'c \<Rightarrow> string \<Rightarrow> 's \<Rightarrow> go_error option \<times> 's"
  lib_remove_dir_recur :: "'c \<Rightarrow> string \<Rightarrow> 's \<Rightarrow> go_error option \<times> 's"
  lib_rename :: "'c \<Rightarrow> string \<Rightarrow> string \<Rightarrow> 's \<Rightarrow> go_error option \<times> 's"
  lib_retr :: "'c \<Rightarrow> string \<Rightarrow> 64 word \<Rightarrow> 's \<Rightarrow> (go_error + 'r) \<times> 's"
  lib_stor :: "'c \<Rightarrow> string \<Rightarrow> bytes \<Rightarrow> 64 word \<Rightarrow> 's \<Rightarrow> go_error option \<times> 's"
  lib_stor_feed :: "'c \<Rightarrow> string \<Rightarrow> bytes \<Rightarrow> bytes \<Rightarrow> 64 word \<Rightarrow> 's \<Rightarrow> (nat \<times> go_error) option \<times> 's"
  resp_read :: "'r \<Rightarrow> nat \<Rightarrow> 's \<Rightarrow> (int \<times> bytes \<times> go_error option) \<times> 'r \<times> 's"
  resp_close :: "'r \<Rightarrow> 's \<Rightarrow> go_error option \<times> 's"

text \<open>Status codes.\<close>

definition StatusPathCreated :: int where "StatusPathCreated = 257"
definition StatusFileActionIgnored :: int where "StatusFileActionIgnored = 450"
definition StatusNotImplemented :: int where "StatusNotImplemented = 502"
definition StatusFileUnavailable :: int where "StatusFileUnavailable = 550"

lemmas ftp_codes = StatusPathCreated_def StatusFileActionIgnored_def StatusNotImplemented_def
  StatusFileUnavailable_def

section \<open>Connections\<close>

definition Pool_options :: "pool \<Rightarrow> dial_option list" where
  "Pool_options p =
     [DialWithTimeout (if 0 < po_timeout p then po_timeout p else 5000000000)]
     @ (if po_debug p then [DialWithDebugOutput] else [])
     @ (case po_tls p of
          Some skip_verify \<Rightarrow>
            if po_explicit_tls p then [DialWithExplicitTLS skip_verify] else [DialWithTLS skip_verify]
        | None \<Rightarrow> [])"

definition Pool_Conn :: "('c, 'r, 's) ftp_lib \<Rightarrow> pool \<Rightarrow> 's \<Rightarrow> (go_error + 'c) \<times> 's" where
  "Pool_Conn L p s =
     (case lib_dial L (po_addr p) (Pool_options p) s of
        (Inl err, s1) \<Rightarrow> (Inl err, s1)
      | (Inr c, s1) \<Rightarrow>
          (case (case po_auth p of
                   Some (user, pass) \<Rightarrow> lib_login L c user pass s1
                 | None \<Rightarrow> lib_login L c ''anonymous'' ''anonymous'' s1) of
             (Some err, s2) \<Rightarrow> (Inl err, s2)
           | (None, s2) \<Rightarrow> (Inr c, s2)))"

definition conn_Close :: "('c, 'r, 's) ftp_lib \<Rightarrow> 'c \<Rightarrow> 's \<Rightarrow> go_error option \<times> 's" where
  "conn_Close L c s = lib_quit L c s"

definition conn_List :: "('c, 'r, 's) ftp_lib \<Rightarrow> 'c \<Rightarrow> string \<Rightarrow> 's \<Rightarrow> (go_error + ftp_entry list) \<times> 's" where
  "conn_List L c p s = (if p = ''.'' then lib_list L c [] s else lib_list L c p s)"

text \<open>\<open>GetEntry\<close>; where the server has no \<open>MLST\<close>, the entry is looked for in the listing of its parent.\<close>

definition conn_GetEntry :: "('c, 'r, 's) ftp_lib \<Rightarrow> 'c \<Rightarrow> string \<Rightarrow> 's \<Rightarrow> (go_error + ftp_entry) \<times> 's" where
  "conn_GetEntry L c pathname s =
     (case lib_get_entry L c pathname s of
        (Inr e, s1) \<Rightarrow> (Inr e, s1)
      | (Inl err, s1) \<Rightarrow>
          if as_textproto err = Some StatusNotImplemented then
            (if pathname = [] \<or> pathname = ''.'' \<or> pathname = ''/'' then
               (case conn_List L c pathname s1 of
                  (Inl err', s2) \<Rightarrow> (Inl err', s2)
                | (Inr _, s2) \<Rightarrow>
                    (Inr \<lparr>fe_name = [], fe_type = EntryTypeFolder, fe_size = 0, fe_time = 0\<rparr>, s2))
             else
               (case conn_List L c (path_clean (fst (path_split pathname))) s1 of
                  (Inl err', s2) \<Rightarrow> (Inl err', s2)
                | (Inr list, s2) \<Rightarrow>
                    (case find (\<lambda>x. fe_name x = snd (path_split pathname)) list of
                       Some x \<Rightarrow> (Inr x, s2)
                     | None \<Rightarrow> (Inl (TextprotoError StatusFileUnavailable []), s2))))
          else (Inl err, s1))"

definition conn_MakeDir :: "('c, 'r, 's) ftp_lib \<Rightarrow> 'c \<Rightarrow> string \<Rightarrow> 's \<Rightarrow> go_error option \<times> 's" where
  "conn_MakeDir L c name s = lib_make_dir L c name s"

definition conn_Delete :: "('c, 'r, 's) ftp_lib \<Rightarrow> 'c \<Rightarrow> string \<Rightarrow> 's \<Rightarrow> go_error option \<times> 's" where
  "conn_Delete L c name s = lib_delete L c name s"

definition conn_RemoveDirRecur :: "('c, 'r, 's) ftp_lib \<Rightarrow> 'c \<Rightarrow> string \<Rightarrow> 's \<Rightarrow> go_error option \<times> 's" where
  "conn_RemoveDirRecur L c name s = lib_remove_dir_recur L c name s"

definition conn_Rename :: "('c, 'r, 's) ftp_lib \<Rightarrow> 'c \<Rightarrow> string \<Rightarrow> string \<Rightarrow> 's \<Rightarrow> go_error option \<times> 's" where
  "conn_Rename L c old new s = lib_rename L c old new s"

section \<open>Configuration\<close>

text \<open>\<open>strconv.ParseBool\<close>.\<close>

definition parse_bool :: "string \<Rightarrow> go_error + bool" where
  "parse_bool t =
     (if t \<in> {''1'', ''t'', ''T'', ''TRUE'', ''true'', ''True''} then Inr True
      else if t \<in> {''0'', ''f'', ''F'', ''FALSE'', ''false'', ''False''} then Inr False
      else Inl (WrapError ''strconv.ParseBool'' (ErrorString ''invalid syntax'')))"

definition flag_of :: "url_values \<Rightarrow> string \<Rightarrow> go_error + bool" where
  "flag_of q key = (if values_get q key = [] then Inr False else parse_bool (values_get q key))"

text \<open>The pool that \<open>Config.Conn\<close> makes at its first call; \<open>time.ParseDuration\<close> is an argument.\<close>

definition Config_pool :: "(string \<Rightarrow> go_error + int) \<Rightarrow> Endpoint \<Rightarrow> go_error + pool" where
  "Config_pool parse_duration e =
     (case (if values_get (Extra e) ''timeout'' = [] then Inr 5000000000
            else parse_duration (values_get (Extra e) ''timeout'')) of
        Inl err \<Rightarrow> Inl err
      | Inr timeout \<Rightarrow>
          (case flag_of (Extra e) ''enableDebug'' of
             Inl err \<Rightarrow> Inl err
           | Inr debug \<Rightarrow>
               (let p = \<lparr>po_addr = Endpoint_Host e,
                         po_auth = (if Username e \<noteq> [] then Some (Username e, Password e) else None),
                         po_timeout = timeout, po_debug = debug, po_explicit_tls = False, po_tls = None\<rparr> in
                if Scheme e = ''ftps'' then
                  (case flag_of (Extra e) ''insecureSkipVerify'' of
                     Inl err \<Rightarrow> Inl err
                   | Inr skip_verify \<Rightarrow>
                       (case flag_of (Extra e) ''explicitTLS'' of
                          Inl err \<Rightarrow> Inl err
                        | Inr explicit \<Rightarrow> Inr (p\<lparr>po_tls := Some skip_verify, po_explicit_tls := explicit\<rparr>)))
                else Inr p)))"

text \<open>\<open>Config.Conn\<close> with the pool it keeps.\<close>

definition Config_Conn ::
  "('c, 'r, 's) ftp_lib \<Rightarrow> (string \<Rightarrow> go_error + int) \<Rightarrow> Endpoint \<Rightarrow> pool option \<Rightarrow> 's \<Rightarrow> (go_error + 'c) \<times> pool option \<times> 's" where
  "Config_Conn L parse_duration e cached s =
     (case (case cached of Some p \<Rightarrow> Inr p | None \<Rightarrow> Config_pool parse_duration e) of
        Inl err \<Rightarrow> (Inl err, cached, s)
      | Inr p \<Rightarrow> (case Pool_Conn L p s of (r, s1) \<Rightarrow> (r, Some p, s1)))"

text \<open>The key pair of the configuration; Base64 and X.509 are parameters. No operation asks for it.\<close>

record ftp_tls =
  tls_cert_data :: string
  tls_key_data :: string

definition TLS_Certificate ::
  "(string \<Rightarrow> go_error + bytes) \<Rightarrow> (bytes \<Rightarrow> bytes \<Rightarrow> go_error + 'k) \<Rightarrow> ftp_tls \<Rightarrow> go_error + 'k" where
  "TLS_Certificate base64_decode key_pair x =
     (case base64_decode (tls_cert_data x) of
        Inl err \<Rightarrow> Inl err
      | Inr cert \<Rightarrow>
          (case base64_decode (tls_key_data x) of
             Inl err \<Rightarrow> Inl err
           | Inr key \<Rightarrow> key_pair cert key))"

definition Config_BasePath :: "Endpoint \<Rightarrow> string" where
  "Config_BasePath e = Path e"

text \<open>The endpoint does not change, so the kept pool only saves work: the file system below dials
  with the pool of its endpoint each time.\<close>

definition dial :: "('c, 'r, 's) ftp_lib \<Rightarrow> (string \<Rightarrow> go_error + int) \<Rightarrow> Endpoint \<Rightarrow> 's \<Rightarrow> (go_error + 'c) \<times> 's" where
  "dial L parse_duration e s =
     (case Config_pool parse_duration e of Inl err \<Rightarrow> (Inl err, s) | Inr p \<Rightarrow> Pool_Conn L p s)"

lemma Config_Conn_dial:
  assumes "cached = None \<or> Config_pool pd e = Inr (the cached)"
  shows "\<exists>cached'. Config_Conn L pd e cached s = (fst (dial L pd e s), cached', snd (dial L pd e s))
    \<and> (cached' = None \<or> Config_pool pd e = Inr (the cached'))"
  using assms
  by (cases cached; cases "Config_pool pd e") (auto simp: Config_Conn_def dial_def split: prod.split)

section \<open>Errors\<close>

text \<open>\<open>normalizeError\<close>; the extra values, when there are any, are printed in front of the error.\<close>

definition normalizeError :: "string \<Rightarrow> string \<Rightarrow> go_error \<Rightarrow> string option \<Rightarrow> go_error" where
  "normalizeError op p err values =
     (let err' =
        (case as_textproto err of
           Some code \<Rightarrow>
             if code = StatusFileUnavailable \<or> code = StatusFileActionIgnored then ErrNotExist
             else if code = StatusPathCreated then ErrExist
             else err
         | None \<Rightarrow> err) in
      PathError op p (case values of Some v \<Rightarrow> WrapError v err' | None \<Rightarrow> err'))"

section \<open>Files\<close>

text \<open>
  The first \<open>Read\<close> or \<open>Write\<close> opens the transfer, once for both. \<open>ff_reader\<close> is the response with
  its connection. The writer is the pipe to the goroutine that stores the data: it runs (with
  the connection, the bytes read so far and the offset), or it has ended by itself.
\<close>

datatype 'c storing = Storing 'c bytes "64 word" | StoreEnded

record ('c, 'r) ftp_file =
  ff_entry :: ftp_entry
  ff_flag :: open_flag
  ff_offset :: "64 word"
  ff_once :: bool
  ff_err :: "go_error option"
  ff_reader :: "('r \<times> 'c) option"
  ff_writer :: "'c storing option"

type_synonym ('c, 's) dialer = "'s \<Rightarrow> (go_error + 'c) \<times> 's"

definition ftp_entry_info :: "string \<Rightarrow> ftp_entry \<Rightarrow> file_info" where
  "ftp_entry_info name e =
     \<lparr>fi_name = name, fi_size = sint (fe_size e),
      fi_mode = (if fe_type e = EntryTypeFolder then ModeDir else ModePerm),
      fi_mod_time = fe_time e, fi_is_dir = (fe_type e = EntryTypeFolder)\<rparr>"

definition ftpfile_Stat :: "('c, 'r) ftp_file \<Rightarrow> 's \<Rightarrow> (go_error + file_info) \<times> ('c, 'r) ftp_file \<times> 's" where
  "ftpfile_Stat f s = (Inr (ftp_entry_info (fe_name (ff_entry f)) (ff_entry f)), f, s)"

definition ftpfile_Seek :: "('c, 'r) ftp_file \<Rightarrow> int \<Rightarrow> int \<Rightarrow> 's \<Rightarrow> (int \<times> go_error option) \<times> ('c, 'r) ftp_file \<times> 's" where
  "ftpfile_Seek f offset whence s =
     (if whence = 2 \<and> fe_size (ff_entry f) = 0 then
        ((-1, Some (normalizeError ''seek'' (fe_name (ff_entry f)) ErrInvalid None)), f, s)
      else
        (let off = (if whence = 0 then word_of_int offset
                    else if whence = 1 then ff_offset f + word_of_int offset
                    else if whence = 2 then fe_size (ff_entry f) - word_of_int offset
                    else ff_offset f) in
         ((sint off, None), f\<lparr>ff_offset := off\<rparr>, s)))"

text \<open>The opening part of \<open>Read\<close>.\<close>

definition ftp_open_reader ::
  "('c, 'r, 's) ftp_lib \<Rightarrow> ('c, 's) dialer \<Rightarrow> ('c, 'r) ftp_file \<Rightarrow> 's \<Rightarrow> ('c, 'r) ftp_file \<times> 's" where
  "ftp_open_reader L conn f s =
     (if ff_once f then (f, s)
      else
        (let f1 = f\<lparr>ff_once := True\<rparr>; name = fe_name (ff_entry f) in
         case conn s of
           (Inl err, s1) \<Rightarrow> (f1\<lparr>ff_err := Some (normalizeError ''read'' name err None)\<rparr>, s1)
         | (Inr c, s1) \<Rightarrow>
             (case lib_retr L c name (ff_offset f) s1 of
                (Inl err, s2) \<Rightarrow> (f1\<lparr>ff_err := Some (normalizeError ''read'' name err None)\<rparr>, s2)
              | (Inr r, s2) \<Rightarrow> (f1\<lparr>ff_reader := Some (r, c)\<rparr>, s2))))"

definition ftpfile_Read ::
  "('c, 'r, 's) ftp_lib \<Rightarrow> ('c, 's) dialer \<Rightarrow> ('c, 'r) ftp_file \<Rightarrow> nat \<Rightarrow> 's
   \<Rightarrow> (int \<times> bytes \<times> go_error option) \<times> ('c, 'r) ftp_file \<times> 's" where
  "ftpfile_Read L conn f n s =
     (if ff_err f \<noteq> None then ((0, [], ff_err f), f, s)
      else
        (case ftp_open_reader L conn f s of
           (f1, s1) \<Rightarrow>
             if ff_err f1 \<noteq> None then ((0, [], ff_err f1), f1, s1)
             else
               (case ff_reader f1 of
                  None \<Rightarrow> ((0, [], Some Panics), f1, s1)
                | Some (r, c) \<Rightarrow>
                    (case resp_read L r n s1 of (res, r', s2) \<Rightarrow> (res, f1\<lparr>ff_reader := Some (r', c)\<rparr>, s2)))))"

definition ftp_open_writer ::
  "('c, 's) dialer \<Rightarrow> ('c, 'r) ftp_file \<Rightarrow> 's \<Rightarrow> ('c, 'r) ftp_file \<times> 's" where
  "ftp_open_writer conn f s =
     (if ff_once f then (f, s)
      else
        (let f1 = f\<lparr>ff_once := True\<rparr> in
         case conn s of
           (Inl err, s1) \<Rightarrow> (f1\<lparr>ff_err := Some (normalizeError ''write'' (fe_name (ff_entry f)) err None)\<rparr>, s1)
         | (Inr c, s1) \<Rightarrow> (f1\<lparr>ff_writer := Some (Storing c [] (ff_offset f))\<rparr>, s1)))"

text \<open>A write to the pipe. When the upload gives up, its error is kept and the pipe is closed.\<close>

definition ftp_pipe_write ::
  "('c, 'r, 's) ftp_lib \<Rightarrow> ('c, 'r) ftp_file \<Rightarrow> bytes \<Rightarrow> 's \<Rightarrow> (int \<times> go_error option) \<times> ('c, 'r) ftp_file \<times> 's" where
  "ftp_pipe_write L f p s =
     (case ff_writer f of
        None \<Rightarrow> ((0, Some Panics), f, s)
      | Some StoreEnded \<Rightarrow> ((0, Some ErrClosedPipe), f, s)
      | Some (Storing c buf off) \<Rightarrow>
          (case lib_stor_feed L c (fe_name (ff_entry f)) buf p off s of
             (None, s1) \<Rightarrow> ((int (length p), None), f\<lparr>ff_writer := Some (Storing c (buf @ p) off)\<rparr>, s1)
           | (Some (taken, err), s1) \<Rightarrow>
               (case conn_Close L c s1 of
                  (_, s2) \<Rightarrow>
                    ((int (min taken (length p)), Some ErrClosedPipe),
                     f\<lparr>ff_writer := Some StoreEnded,
                       ff_err := Some (normalizeError ''write'' (fe_name (ff_entry f)) err None)\<rparr>, s2))))"

definition ftpfile_Write ::
  "('c, 'r, 's) ftp_lib \<Rightarrow> ('c, 's) dialer \<Rightarrow> ('c, 'r) ftp_file \<Rightarrow> bytes \<Rightarrow> 's
   \<Rightarrow> (int \<times> go_error option) \<times> ('c, 'r) ftp_file \<times> 's" where
  "ftpfile_Write L conn f p s =
     (if \<not> (has_flag (ff_flag f) O_WRONLY \<or> has_flag (ff_flag f) O_RDWR) then
        ((0, Some (normalizeError ''write'' (fe_name (ff_entry f)) ErrPermission None)), f, s)
      else
        (case ftp_open_writer conn f s of
           (f1, s1) \<Rightarrow>
             if ff_err f1 \<noteq> None then ((0, ff_err f1), f1, s1) else ftp_pipe_write L f1 p s1))"

text \<open>
  \<open>Close\<close>: the writer's end of the pipe is closed, which always works, and the upload is waited
  for; an error of the upload goes to the file's error. The error returned is the reader's (of
  the response, or else of its connection; the code closes the two at the same time).
\<close>

definition ftp_close_writer :: "('c, 'r, 's) ftp_lib \<Rightarrow> ('c, 'r) ftp_file \<Rightarrow> 's \<Rightarrow> ('c, 'r) ftp_file \<times> 's" where
  "ftp_close_writer L f s =
     (case ff_writer f of
        Some (Storing c buf off) \<Rightarrow>
          (case lib_stor L c (fe_name (ff_entry f)) buf off s of
             (err, s1) \<Rightarrow>
               (case conn_Close L c s1 of
                  (_, s2) \<Rightarrow>
                    (f\<lparr>ff_writer := None,
                       ff_err := (case err of
                          Some e \<Rightarrow> Some (normalizeError ''write'' (fe_name (ff_entry f)) e None)
                        | None \<Rightarrow> ff_err f)\<rparr>, s2)))
      | _ \<Rightarrow> (f\<lparr>ff_writer := None\<rparr>, s))"

definition ftp_close_reader ::
  "('c, 'r, 's) ftp_lib \<Rightarrow> ('c, 'r) ftp_file \<Rightarrow> 's \<Rightarrow> go_error option \<times> ('c, 'r) ftp_file \<times> 's" where
  "ftp_close_reader L f s =
     (case ff_reader f of
        None \<Rightarrow> (None, f, s)
      | Some (r, c) \<Rightarrow>
          (case resp_close L r s of
             (e1, s1) \<Rightarrow>
               (case conn_Close L c s1 of
                  (e2, s2) \<Rightarrow> (if e1 \<noteq> None then e1 else e2, f\<lparr>ff_reader := None\<rparr>, s2))))"

definition ftpfile_Close ::
  "('c, 'r, 's) ftp_lib \<Rightarrow> ('c, 'r) ftp_file \<Rightarrow> 's \<Rightarrow> go_error option \<times> ('c, 'r) ftp_file \<times> 's" where
  "ftpfile_Close L f s = (case ftp_close_writer L f s of (f1, s1) \<Rightarrow> ftp_close_reader L f1 s1)"

definition ftpfile_Readdir ::
  "('c, 'r, 's) ftp_lib \<Rightarrow> ('c, 's) dialer \<Rightarrow> ('c, 'r) ftp_file \<Rightarrow> int \<Rightarrow> 's
   \<Rightarrow> (go_error + file_info list) \<times> ('c, 'r) ftp_file \<times> 's" where
  "ftpfile_Readdir L conn f count s =
     (let name = fe_name (ff_entry f) in
      case conn s of
        (Inl err, s1) \<Rightarrow> (Inl (normalizeError ''write'' name err None), f, s1)
      | (Inr c, s1) \<Rightarrow>
          (case conn_List L c name s1 of
             (res, s2) \<Rightarrow>
               (case conn_Close L c s2 of
                  (_, s3) \<Rightarrow>
                    ((case res of
                        Inl err \<Rightarrow> Inl (normalizeError ''readdir'' name err None)
                      | Inr entries \<Rightarrow>
                          Inr (map (\<lambda>e. ftp_entry_info (fe_name e) e) (if 0 < count then [] else entries))),
                     f, s3))))"

section \<open>The file system\<close>

text \<open>\<open>defer c.Close()\<close>.\<close>

definition closing :: "('c, 'r, 's) ftp_lib \<Rightarrow> 'c \<Rightarrow> 'a \<times> 's \<Rightarrow> 'a \<times> 's" where
  "closing L c res = (case res of (r, s) \<Rightarrow> (r, snd (conn_Close L c s)))"

definition new_ftp_file :: "ftp_entry \<Rightarrow> open_flag \<Rightarrow> ('c, 'r) ftp_file" where
  "new_ftp_file e flag =
     \<lparr>ff_entry = e, ff_flag = flag, ff_offset = 0, ff_once = False, ff_err = None, ff_reader = None, ff_writer = None\<rparr>"

text \<open>The check of the parent, for a file that may be created.\<close>

definition ftp_check_parent ::
  "('c, 'r, 's) ftp_lib \<Rightarrow> 'c \<Rightarrow> string \<Rightarrow> open_flag \<Rightarrow> 's \<Rightarrow> go_error option \<times> 's" where
  "ftp_check_parent L c name flag s =
     (if has_flag flag O_CREATE \<and> slash \<in> set name then
        (case conn_GetEntry L c (path_dir name) s of
           (Inl err, s1) \<Rightarrow> (Some (normalizeError ''openfile'' name err None), s1)
         | (Inr _, s1) \<Rightarrow> (None, s1))
      else (None, s))"

text \<open>The entry of the file: the server's, or a new one when it is missing and may be created.\<close>

definition ftp_open_entry ::
  "('c, 'r, 's) ftp_lib \<Rightarrow> 'c \<Rightarrow> string \<Rightarrow> open_flag \<Rightarrow> file_mode \<Rightarrow> 's \<Rightarrow> (go_error + ftp_entry) \<times> 's" where
  "ftp_open_entry L c name flag perm s =
     (case conn_GetEntry L c name s of
        (Inr e, s1) \<Rightarrow> (Inr e, s1)
      | (Inl err, s1) \<Rightarrow>
          (let e = normalizeError ''openfile'' name err None in
           if os_is_not_exist e \<and> has_flag flag O_CREATE then
             (Inr \<lparr>fe_name = [], fe_type = (if perm AND ModeDir \<noteq> 0 then EntryTypeFolder else EntryTypeFile),
                fe_size = 0, fe_time = 0\<rparr>, s1)
           else (Inl e, s1)))"

definition ftp_OpenFile ::
  "('c, 'r, 's) ftp_lib \<Rightarrow> ('c, 's) dialer \<Rightarrow> string \<Rightarrow> open_flag \<Rightarrow> file_mode \<Rightarrow> 's
   \<Rightarrow> (go_error + ('c, 'r) ftp_file) \<times> 's" where
  "ftp_OpenFile L conn name0 flag perm s =
     (let name = (if name0 = [] then ''.'' else name0) in
      case conn s of
        (Inl err, s1) \<Rightarrow> (Inl (normalizeError ''openfile'' name err None), s1)
      | (Inr c, s1) \<Rightarrow> closing L c
          (case ftp_check_parent L c name flag s1 of
             (Some err, s2) \<Rightarrow> (Inl err, s2)
           | (None, s2) \<Rightarrow>
               (case ftp_open_entry L c name flag perm s2 of
                  (Inl err, s3) \<Rightarrow> (Inl err, s3)
                | (Inr e, s3) \<Rightarrow> (Inr (new_ftp_file (e\<lparr>fe_name := name\<rparr>) flag), s3))))"

text \<open>An error of a removal, unless it says that there is nothing to remove.\<close>

definition removal_error :: "string \<Rightarrow> go_error \<Rightarrow> go_error option" where
  "removal_error name err =
     (let e = normalizeError ''removeall'' name err None in if errors_is e ErrNotExist then None else Some e)"

definition ftp_RemoveAll ::
  "('c, 'r, 's) ftp_lib \<Rightarrow> ('c, 's) dialer \<Rightarrow> string \<Rightarrow> 's \<Rightarrow> go_error option \<times> 's" where
  "ftp_RemoveAll L conn name s =
     (if name = ''/'' then (Some (normalizeError ''removeall'' name ErrPermission None), s)
      else
        (case conn s of
           (Inl err, s1) \<Rightarrow> (Some (normalizeError ''removeall'' name err None), s1)
         | (Inr c, s1) \<Rightarrow> closing L c
             (case conn_GetEntry L c name s1 of
                (Inl err, s2) \<Rightarrow> (removal_error name err, s2)
              | (Inr e, s2) \<Rightarrow>
                  (case (if fe_type e = EntryTypeFolder then conn_RemoveDirRecur L c name s2
                         else conn_Delete L c name s2) of
                     (Some err, s3) \<Rightarrow> (removal_error name err, s3)
                   | (None, s3) \<Rightarrow> (None, s3)))))"

definition rename_values :: "string \<Rightarrow> string option" where
  "rename_values oldName = Some (''[from '' @ oldName @ '']'')"

definition ftp_Rename ::
  "('c, 'r, 's) ftp_lib \<Rightarrow> ('c, 's) dialer \<Rightarrow> string \<Rightarrow> string \<Rightarrow> 's \<Rightarrow> go_error option \<times> 's" where
  "ftp_Rename L conn oldName newName s =
     (case conn s of
        (Inl err, s1) \<Rightarrow> (Some (normalizeError ''rename'' newName err (rename_values oldName)), s1)
      | (Inr c, s1) \<Rightarrow> closing L c
          (case conn_Rename L c oldName newName s1 of
             (Some err, s2) \<Rightarrow> (Some (normalizeError ''rename'' newName err (rename_values oldName)), s2)
           | (None, s2) \<Rightarrow> (None, s2)))"

definition ftp_Stat ::
  "('c, 'r, 's) ftp_lib \<Rightarrow> ('c, 's) dialer \<Rightarrow> string \<Rightarrow> 's \<Rightarrow> (go_error + file_info) \<times> 's" where
  "ftp_Stat L conn name s =
     (case conn s of
        (Inl err, s1) \<Rightarrow> (Inl err, s1)
      | (Inr c, s1) \<Rightarrow> closing L c
          (case conn_GetEntry L c name s1 of
             (Inl err, s2) \<Rightarrow> (Inl (normalizeError ''stat'' name err None), s2)
           | (Inr e, s2) \<Rightarrow> (Inr (ftp_entry_info (path_base (fe_name e)) e), s2)))"

definition ftp_Mkdir ::
  "('c, 'r, 's) ftp_lib \<Rightarrow> ('c, 's) dialer \<Rightarrow> string \<Rightarrow> file_mode \<Rightarrow> 's \<Rightarrow> go_error option \<times> 's" where
  "ftp_Mkdir L conn name perm s =
     (case conn s of
        (Inl err, s1) \<Rightarrow> (Some err, s1)
      | (Inr c, s1) \<Rightarrow> closing L c
          (case conn_GetEntry L c name s1 of
             (Inr _, s2) \<Rightarrow> (Some (normalizeError ''mkdir'' name ErrExist None), s2)
           | (Inl _, s2) \<Rightarrow>
               (case conn_MakeDir L c name s2 of
                  (Some err, s3) \<Rightarrow> (Some (normalizeError ''mkdir'' name err None), s3)
                | (None, s3) \<Rightarrow> (None, s3))))"

definition ftp_filesystem ::
  "('c, 'r, 's) ftp_lib \<Rightarrow> ('c, 's) dialer \<Rightarrow> (('c, 'r) ftp_file, 's) filesystem" where
  "ftp_filesystem L conn =
     \<lparr>fs_mkdir = ftp_Mkdir L conn, fs_open_file = ftp_OpenFile L conn, fs_remove_all = ftp_RemoveAll L conn,
      fs_rename = ftp_Rename L conn, fs_stat = ftp_Stat L conn,
      f_close = ftpfile_Close L, f_read = ftpfile_Read L conn, f_write = ftpfile_Write L conn,
      f_seek = ftpfile_Seek, f_readdir = ftpfile_Readdir L conn, f_stat = ftpfile_Stat, f_read_dir = None\<rparr>"

lemma ftp_filesystem_simps [simp]:
  "fs_mkdir (ftp_filesystem L d) = ftp_Mkdir L d" "fs_open_file (ftp_filesystem L d) = ftp_OpenFile L d"
  "fs_stat (ftp_filesystem L d) = ftp_Stat L d" "f_close (ftp_filesystem L d) = ftpfile_Close L"
  "f_write (ftp_filesystem L d) = ftpfile_Write L d" "f_readdir (ftp_filesystem L d) = ftpfile_Readdir L d"
  "fs_remove_all (ftp_filesystem L d) = ftp_RemoveAll L d" "fs_rename (ftp_filesystem L d) = ftp_Rename L d"
  by (simp_all add: ftp_filesystem_def)

text \<open>\<open>NewFS\<close>: a base path other than the root makes a view of the subtree.\<close>

definition Ftp_NewFS ::
  "('c, 'r, 's) ftp_lib \<Rightarrow> (string \<Rightarrow> go_error + int) \<Rightarrow> Endpoint \<Rightarrow> (('c, 'r) ftp_file, 's) filesystem" where
  "Ftp_NewFS L parse_duration e =
     (let f = ftp_filesystem L (dial L parse_duration e) in
      if Config_BasePath e \<noteq> [] \<and> Config_BasePath e \<noteq> ''/'' then Sub f (Config_BasePath e) else f)"

end
