(* ===== verification/Ftp_Props.thy ===== *)
theory Ftp_Props
  imports Ftp_Fs "HOL-Library.AList"
begin

text \<open>
  The FTP server the file system relies on, as a locale, with or without the \<open>MLST\<close> command; a
  reference server that satisfies it; and the properties of the FTP file system.
\<close>

section \<open>The server\<close>

text \<open>
  \<open>node s\<close> is the tree of entries in the state \<open>s\<close>, by path elements. Looking changes nothing;
  a server without \<open>MLST\<close> answers 502 to it, any server answers 550 about what is missing.
\<close>

locale ftp_server =
  fixes L :: "('c, 'r, 's) ftp_lib"
    and conn :: "('c, 's) dialer"
    and node :: "'s \<Rightarrow> string list \<Rightarrow> ftp_entry option"
    and mlst :: bool
  assumes dialled: "\<exists>c. conn s = (Inr c, s)"
    and quit_pure: "snd (lib_quit L c s) = s"
    and get_pure: "snd (lib_get_entry L c n s) = s"
    and list_pure: "snd (lib_list L c n s) = s"
    and root_folder: "\<exists>e. node s [] = Some e \<and> fe_type e = EntryTypeFolder"
    and node_name: "node s (cs @ [x]) = Some e \<Longrightarrow> fe_name e = x"
    and get_found: "mlst \<Longrightarrow> list_all name_ok cs \<Longrightarrow> node s cs = Some e \<Longrightarrow>
      \<exists>nm. fst (lib_get_entry L c (abs_path cs) s) = Inr (e\<lparr>fe_name := nm\<rparr>) \<and> (cs \<noteq> [] \<longrightarrow> path_base nm = last cs)"
    and get_missing: "mlst \<Longrightarrow> list_all name_ok cs \<Longrightarrow> node s cs = None \<Longrightarrow>
      \<exists>msg. fst (lib_get_entry L c (abs_path cs) s) = Inl (TextprotoError StatusFileUnavailable msg)"
    and get_unsupported: "\<not> mlst \<Longrightarrow> \<exists>msg. fst (lib_get_entry L c n s) = Inl (TextprotoError StatusNotImplemented msg)"
    and list_folder: "list_all name_ok cs \<Longrightarrow> node s cs = Some e \<Longrightarrow> fe_type e = EntryTypeFolder \<Longrightarrow>
      \<exists>es. fst (lib_list L c (abs_path cs) s) = Inr es \<and> set es = {e'. \<exists>x. name_ok x \<and> node s (cs @ [x]) = Some e'}"
    and list_file: "list_all name_ok cs \<Longrightarrow> node s cs = Some e \<Longrightarrow> fe_type e \<noteq> EntryTypeFolder \<Longrightarrow>
      \<exists>es. fst (lib_list L c (abs_path cs) s) = Inr es \<and> (\<forall>e' \<in> set es. fe_type e' \<noteq> EntryTypeFolder)"
    and list_missing: "list_all name_ok cs \<Longrightarrow> node s cs = None \<Longrightarrow>
      \<exists>msg. fst (lib_list L c (abs_path cs) s) = Inl (TextprotoError StatusFileUnavailable msg)"
    and node_parent: "node s (cs @ [x]) = Some e \<Longrightarrow> \<exists>e'. node s cs = Some e' \<and> fe_type e' = EntryTypeFolder"
    and made_dir: "list_all name_ok cs \<Longrightarrow> lib_make_dir L c (abs_path cs) s = (None, s') \<Longrightarrow>
      \<exists>e. fe_type e = EntryTypeFolder \<and> node s' = (node s)(cs \<mapsto> e)"
    and not_made_dir: "lib_make_dir L c n s = (Some err, s') \<Longrightarrow> node s' = node s"
begin

lemma path_split_abs:
  assumes "list_all name_ok (cs @ [x])"
  shows "snd (path_split (abs_path (cs @ [x]))) = x" "path_clean (fst (path_split (abs_path (cs @ [x])))) = abs_path cs"
proof -
  show "snd (path_split (abs_path (cs @ [x]))) = x"
    using assms by (simp add: abs_path_snoc path_split_snoc name_ok_def)
  show "path_clean (fst (path_split (abs_path (cs @ [x])))) = abs_path cs"
    using assms path_dir_abs [of cs x] by (simp add: path_dir_def)
qed

lemma conn_List_abs: "conn_List L c (abs_path cs) s = (fst (lib_list L c (abs_path cs) s), s)"
proof -
  have "abs_path cs \<noteq> ''.''" by (simp add: abs_path_def)
  then show ?thesis
    using list_pure [of c "abs_path cs" s] by (cases "lib_list L c (abs_path cs) s") (simp add: conn_List_def)
qed

lemma path_base_name: "name_ok x \<Longrightarrow> path_base x = x"
proof -
  assume x: "name_ok x"
  then have "trim_right slash x = x"
    by (intro trim_right_id) (auto dest: name_okD dest!: last_in_set)
  moreover have tw: "takeWhile (\<lambda>c. c \<noteq> slash) (rev x) = rev x"
    using name_okD [OF x] by (intro takeWhile_eq_all_conv [THEN iffD2]) auto
  have "last_elem x = x" unfolding last_elem_def tw by simp
  ultimately show ?thesis using name_okD [OF x] by (simp add: path_base_def)
qed

text \<open>What \<open>GetEntry\<close> finds, by \<open>MLST\<close> or by the listing of the parent.\<close>

lemma GetEntry_found:
  assumes ok: "list_all name_ok cs" and e: "node s cs = Some e"
  shows "\<exists>e'. conn_GetEntry L c (abs_path cs) s = (Inr e', s) \<and> fe_type e' = fe_type e
    \<and> (cs \<noteq> [] \<longrightarrow> fe_size e' = fe_size e \<and> path_base (fe_name e') = last cs)"
proof (cases mlst)
  case True
  then show ?thesis
    using get_found [OF True ok e, of c] get_pure [of c "abs_path cs" s]
    by (cases "lib_get_entry L c (abs_path cs) s") (auto simp: conn_GetEntry_def)
next
  case False
  obtain msg where no: "lib_get_entry L c (abs_path cs) s = (Inl (TextprotoError StatusNotImplemented msg), s)"
    using get_unsupported [OF False, of c "abs_path cs" s] get_pure [of c "abs_path cs" s]
    by (cases "lib_get_entry L c (abs_path cs) s") auto
  show ?thesis
  proof (cases cs rule: rev_cases)
    case Nil
    obtain es where "fst (lib_list L c (abs_path []) s) = Inr es"
      using root_folder list_folder [of "[]" s] by fastforce
    then show ?thesis
      using no e root_folder [of s] Nil conn_List_abs [of c "[]" s] by (auto simp: conn_GetEntry_def abs_path_def)
  next
    case (snoc ds x)
    have nr: "abs_path cs \<noteq> ''/''" "abs_path cs \<noteq> ''.''" "abs_path cs \<noteq> []"
      using ok snoc abs_path_inject [of cs "[]"] by (auto simp: abs_path_def)
    obtain e0 where "node s ds = Some e0" "fe_type e0 = EntryTypeFolder"
      using node_parent e snoc by blast
    then obtain es where es: "fst (lib_list L c (abs_path ds) s) = Inr es"
      "set es = {e'. \<exists>x. name_ok x \<and> node s (ds @ [x]) = Some e'}"
      using list_folder [of ds s e0 c] ok snoc by auto
    have "e \<in> set es" "fe_name e = x" using es(2) e snoc ok node_name by auto
    then obtain e' where f: "find (\<lambda>y. fe_name y = x) es = Some e'"
      by (metis (mono_tags, lifting) find_None_iff not_None_eq)
    then have "e' \<in> set es" "fe_name e' = x" by (auto simp: find_Some_iff)
    then have "e' = e" using es(2) e snoc node_name by fastforce
    then show ?thesis
      using no nr f es(1) ok snoc path_split_abs [of ds x] conn_List_abs [of c ds s] \<open>fe_name e = x\<close>
        path_base_name [of x]
      by (simp add: conn_GetEntry_def)
  qed
qed

lemma GetEntry_missing:
  assumes ok: "list_all name_ok cs" and e: "node s cs = None"
  shows "(\<exists>msg. conn_GetEntry L c (abs_path cs) s = (Inl (TextprotoError StatusFileUnavailable msg), s))
    \<or> (\<exists>e' ds x e0. \<not> mlst \<and> cs = ds @ [x] \<and> node s ds = Some e0 \<and> fe_type e0 \<noteq> EntryTypeFolder
        \<and> conn_GetEntry L c (abs_path cs) s = (Inr e', s) \<and> fe_type e' \<noteq> EntryTypeFolder)"
proof (cases mlst)
  case True
  then show ?thesis
    using get_missing [OF True ok e, of c] get_pure [of c "abs_path cs" s]
    by (cases "lib_get_entry L c (abs_path cs) s") (auto simp: conn_GetEntry_def ftp_codes)
next
  case False
  obtain msg where no: "lib_get_entry L c (abs_path cs) s = (Inl (TextprotoError StatusNotImplemented msg), s)"
    using get_unsupported [OF False, of c "abs_path cs" s] get_pure [of c "abs_path cs" s]
    by (cases "lib_get_entry L c (abs_path cs) s") auto
  obtain ds x where snoc: "cs = ds @ [x]"
    using e root_folder [of s] by (cases cs rule: rev_cases) auto
  have nr: "abs_path cs \<noteq> ''/''" "abs_path cs \<noteq> ''.''" "abs_path cs \<noteq> []"
    using ok snoc abs_path_inject [of cs "[]"] by (auto simp: abs_path_def)
  have run: "conn_GetEntry L c (abs_path cs) s =
    (case fst (lib_list L c (abs_path ds) s) of
       Inl err' \<Rightarrow> (Inl err', s)
     | Inr list \<Rightarrow> (case find (\<lambda>y. fe_name y = x) list of Some y \<Rightarrow> (Inr y, s)
                  | None \<Rightarrow> (Inl (TextprotoError StatusFileUnavailable []), s)))"
    using no nr ok snoc path_split_abs [of ds x] conn_List_abs [of c ds s]
    by (simp add: conn_GetEntry_def split: sum.split)
  have ds: "list_all name_ok ds" using ok snoc by simp
  show ?thesis
  proof (cases "node s ds")
    case None
    then show ?thesis using run list_missing [OF ds None, of c] by auto
  next
    case (Some e0)
    show ?thesis
    proof (cases "fe_type e0 = EntryTypeFolder")
      case True
      then obtain es where es: "fst (lib_list L c (abs_path ds) s) = Inr es"
        "set es = {e'. \<exists>x. name_ok x \<and> node s (ds @ [x]) = Some e'}"
        using list_folder [OF ds Some True, of c] by auto
      have "find (\<lambda>y. fe_name y = x) es = None"
        using es(2) e snoc node_name by (fastforce simp: find_None_iff)
      then show ?thesis using run es(1) by simp
    next
      case leaf: False
      obtain es where es: "fst (lib_list L c (abs_path ds) s) = Inr es" "\<forall>e' \<in> set es. fe_type e' \<noteq> EntryTypeFolder"
        using list_file [OF ds Some leaf, of c] by auto
      show ?thesis
        using run es leaf Some snoc False
        by (cases "find (\<lambda>y. fe_name y = x) es") (auto simp: find_Some_iff)
    qed
  qed
qed

lemma closing_pure: "closing L c (r, s) = (r, s)"
  using quit_pure by (simp add: closing_def conn_Close_def)

lemma GetEntry_pure: "snd (conn_GetEntry L c n s) = s"
proof -
  have l: "snd (conn_List L c p t) = t" for p t using list_pure by (simp add: conn_List_def)
  show ?thesis
    by (simp add: conn_GetEntry_def case_prod_unfold l get_pure split: sum.split option.split)
qed

lemma Stat_run: "ftp_Stat L conn name s =
   (case fst (conn_GetEntry L (SOME c. conn s = (Inr c, s)) name s) of
      Inl err \<Rightarrow> (Inl (normalizeError ''stat'' name err None), s)
    | Inr e \<Rightarrow> (Inr (ftp_entry_info (path_base (fe_name e)) e), s))"
proof -
  let ?c = "SOME c. conn s = (Inr c, s)"
  have c: "conn s = (Inr ?c, s)" using dialled by (rule someI_ex)
  obtain r where g: "conn_GetEntry L ?c name s = (r, s)"
    using GetEntry_pure [of ?c name s] by (cases "conn_GetEntry L ?c name s") auto
  show ?thesis
    by (subst ftp_Stat_def, subst c) (cases r, simp_all add: g closing_pure)
qed

lemma Stat_pure: "snd (ftp_Stat L conn name s) = s"
  by (simp add: Stat_run split: sum.split)

lemma Stat_found:
  assumes "list_all name_ok cs" "cs \<noteq> []" "node s cs = Some e"
  shows "\<exists>fi. ftp_Stat L conn (abs_path cs) s = (Inr fi, s) \<and> fi_name fi = last cs
    \<and> fi_size fi = sint (fe_size e) \<and> (fi_is_dir fi \<longleftrightarrow> fe_type e = EntryTypeFolder)"
  using GetEntry_found [OF assms(1,3), of "SOME c. conn s = (Inr c, s)"] assms(2)
  by (auto simp: Stat_run ftp_entry_info_def)

lemma Stat_missing:
  assumes "list_all name_ok cs" "node s cs = None"
  shows "ftp_Stat L conn (abs_path cs) s = (Inl (PathError ''stat'' (abs_path cs) ErrNotExist), s)
    \<or> (\<exists>fi ds x e. \<not> mlst \<and> cs = ds @ [x] \<and> node s ds = Some e \<and> fe_type e \<noteq> EntryTypeFolder
         \<and> ftp_Stat L conn (abs_path cs) s = (Inr fi, s) \<and> \<not> fi_is_dir fi)"
  using GetEntry_missing [OF assms, of "SOME c. conn s = (Inr c, s)"]
  by (auto simp: Stat_run normalizeError_def ftp_entry_info_def)

lemma is_dir_at_node:
  assumes "list_all name_ok cs"
  shows "is_dir_at (ftp_filesystem L conn) s (abs_path cs) \<longleftrightarrow>
    (\<exists>e. node s cs = Some e \<and> fe_type e = EntryTypeFolder)"
proof (cases "node s cs")
  case None
  then show ?thesis using Stat_missing [OF assms None] by (auto simp: is_dir_at_def)
next
  case (Some e)
  then show ?thesis
    using GetEntry_found [OF assms Some, of "SOME c. conn s = (Inr c, s)"]
    by (auto simp: is_dir_at_def Stat_run ftp_entry_info_def)
qed

lemma Mkdir_node:
  assumes "list_all name_ok cs" "ftp_Mkdir L conn (abs_path cs) perm s = (r, s')"
  shows "(r = None \<longrightarrow> (\<exists>e. fe_type e = EntryTypeFolder \<and> node s' = (node s)(cs \<mapsto> e)))
    \<and> (r \<noteq> None \<longrightarrow> node s' = node s)"
proof -
  obtain c where c: "conn s = (Inr c, s)" using dialled by blast
  obtain g where g: "conn_GetEntry L c (abs_path cs) s = (g, s)"
    using GetEntry_pure [of c "abs_path cs" s] by (cases "conn_GetEntry L c (abs_path cs) s") auto
  obtain m s1 where m: "lib_make_dir L c (abs_path cs) s = (m, s1)" by fastforce
  show ?thesis
    using assms c g m made_dir [OF assms(1), of c s s1] not_made_dir [of c "abs_path cs" s _ s1]
    by (cases g; cases m) (auto simp: ftp_Mkdir_def conn_MakeDir_def closing_pure)
qed

lemma Mkdir_keeps:
  assumes "list_all name_ok cs" "list_all name_ok ds" "is_dir_at (ftp_filesystem L conn) s (abs_path ds)"
  shows "is_dir_at (ftp_filesystem L conn) (snd (ftp_Mkdir L conn (abs_path cs) perm s)) (abs_path ds)"
proof -
  obtain r s' where run: "ftp_Mkdir L conn (abs_path cs) perm s = (r, s')" by fastforce
  then have "node s' = node s \<or> (\<exists>e. fe_type e = EntryTypeFolder \<and> node s' = (node s)(cs \<mapsto> e))"
    using Mkdir_node [OF assms(1) run] by (cases r) auto
  then show ?thesis using assms(3) run by (auto simp: is_dir_at_node assms(2))
qed

lemma dir_maker_here: "dir_maker (ftp_filesystem L conn) (list_all name_ok)"
proof (unfold_locales, goal_cases)
  case (4 cs m s s')
  then show ?case using Mkdir_node [of cs m s None s'] by (auto simp: is_dir_at_node)
qed (simp_all add: Stat_pure Mkdir_keeps)

end

sublocale ftp_server \<subseteq> dirs: dir_maker "ftp_filesystem L conn" "list_all name_ok"
  by (rule dir_maker_here)

section \<open>A reference server\<close>

text \<open>
  Its state is an association list of entries, keyed by the reversed path elements. An entry
  counts only below a chain of folders, and it is shown under its own name.
\<close>

type_synonym ref_tree = "(string list \<times> ftp_entry) list"

definition folder :: ftp_entry where
  "folder = \<lparr>fe_name = [], fe_type = EntryTypeFolder, fe_size = 0, fe_time = 0\<rparr>"

fun rnode :: "ref_tree \<Rightarrow> string list \<Rightarrow> ftp_entry option" where
  "rnode al [] = Some folder"
| "rnode al (x # up) =
     (case rnode al up of
        Some e \<Rightarrow> if fe_type e = EntryTypeFolder then map_option (\<lambda>e. e\<lparr>fe_name := x\<rparr>) (map_of al (x # up)) else None
      | None \<Rightarrow> None)"

definition tree_node :: "ref_tree \<Rightarrow> string list \<Rightarrow> ftp_entry option" where
  "tree_node al cs = rnode al (rev cs)"

definition tree_path :: "string \<Rightarrow> string list" where
  "tree_path p = rev (path_elems p)"

definition tree_missing :: "go_error" where
  "tree_missing = TextprotoError StatusFileUnavailable ''not found''"

definition tree_children :: "ref_tree \<Rightarrow> string list \<Rightarrow> ftp_entry list" where
  "tree_children al up =
     List.map_filter (rnode al) (filter (\<lambda>k. k \<noteq> [] \<and> tl k = up \<and> name_ok (hd k)) (remdups (map fst al)))"

definition tree_list :: "ref_tree \<Rightarrow> string list \<Rightarrow> go_error + ftp_entry list" where
  "tree_list al up =
     (case rnode al up of
        None \<Rightarrow> Inl tree_missing
      | Some e \<Rightarrow> Inr (if fe_type e = EntryTypeFolder then tree_children al up else [e]))"

definition tree_make_dir :: "ref_tree \<Rightarrow> string list \<Rightarrow> go_error option \<times> ref_tree" where
  "tree_make_dir al k =
     (if k \<noteq> [] \<and> (case rnode al (tl k) of Some e \<Rightarrow> fe_type e = EntryTypeFolder | None \<Rightarrow> False)
         \<and> list_all (\<lambda>k'. drop (length k' - length k) k' \<noteq> k) (map fst al)
      then (None, (k, folder) # al) else (Some tree_missing, al))"

text \<open>Everything the file system asks; uploads and downloads are refused.\<close>

definition tree_lib :: "bool \<Rightarrow> (unit, unit, ref_tree) ftp_lib" where
  "tree_lib mlst =
     \<lparr>lib_dial = (\<lambda>addr opts s. (Inr (), s)), lib_login = (\<lambda>c u p s. (None, s)), lib_quit = (\<lambda>c s. (None, s)),
      lib_make_dir = (\<lambda>c p s. tree_make_dir s (tree_path p)),
      lib_get_entry = (\<lambda>c p s.
        (if mlst then (case rnode s (tree_path p) of Some e \<Rightarrow> Inr (e\<lparr>fe_name := p\<rparr>) | None \<Rightarrow> Inl tree_missing)
         else Inl (TextprotoError StatusNotImplemented ''MLST''), s)),
      lib_list = (\<lambda>c p s. (tree_list s (tree_path p), s)),
      lib_delete = (\<lambda>c p s. (Some tree_missing, s)), lib_remove_dir_recur = (\<lambda>c p s. (Some tree_missing, s)),
      lib_rename = (\<lambda>c p q s. (Some tree_missing, s)), lib_retr = (\<lambda>c p off s. (Inl tree_missing, s)),
      lib_stor = (\<lambda>c p d off s. (Some tree_missing, s)), lib_stor_feed = (\<lambda>c p buf d off s. (None, s)),
      resp_read = (\<lambda>r n s. ((0, [], Some EOF), r, s)), resp_close = (\<lambda>r s. (None, s))\<rparr>"

abbreviation tree_dial :: "(unit, ref_tree) dialer" where
  "tree_dial \<equiv> \<lambda>s. (Inr (), s)"

lemma rnode_make_dir:
  assumes "k \<noteq> []" "rnode al (tl k) = Some e" "fe_type e = EntryTypeFolder"
    and "\<forall>k' \<in> set (map fst al). drop (length k' - length k) k' \<noteq> k"
  shows "rnode ((k, folder) # al) q = (if q = k then Some (folder\<lparr>fe_name := hd k\<rparr>) else rnode al q)"
proof (induction q)
  case Nil
  then show ?case using assms(1) by simp
next
  case (Cons x up)
  have below: "map_of al (y # k) = None" "map_of al k = None" for y
    using assms(4) by (force simp: map_of_eq_None_iff)+
  show ?case
  proof (cases "up = k")
    case True
    have "rnode al k = None" using assms(1) below(2) by (cases k) (auto split: option.split)
    then show ?thesis using Cons True below(1) by simp
  next
    case False
    then show ?thesis using Cons assms by (cases k) (auto split: option.split)
  qed
qed

lemma tree_path_abs [simp]: "list_all name_ok cs \<Longrightarrow> tree_path (abs_path cs) = rev cs"
  by (simp add: tree_path_def path_elems_abs)

lemma tree_node_snoc: "tree_node al (cs @ [x]) = Some e \<Longrightarrow>
    fe_name e = x \<and> (\<exists>e'. tree_node al cs = Some e' \<and> fe_type e' = EntryTypeFolder)
    \<and> x # rev cs \<in> set (map fst al)"
  by (auto simp: tree_node_def split: option.splits if_splits dest!: map_of_SomeD intro: rev_image_eqI)

lemma set_tree_children:
  "set (tree_children al (rev cs)) = {e. \<exists>x. name_ok x \<and> tree_node al (cs @ [x]) = Some e}"
proof (intro equalityI subsetI)
  fix e assume "e \<in> set (tree_children al (rev cs))"
  then obtain k where k: "k \<noteq> []" "tl k = rev cs" "name_ok (hd k)" "rnode al k = Some e"
    by (auto simp: tree_children_def map_filter_def)
  then have "rnode al (hd k # rev cs) = Some e" by (metis list.collapse)
  then show "e \<in> {e. \<exists>x. name_ok x \<and> tree_node al (cs @ [x]) = Some e}"
    using k(3) by (auto simp: tree_node_def simp del: rnode.simps)
next
  fix e assume "e \<in> {e. \<exists>x. name_ok x \<and> tree_node al (cs @ [x]) = Some e}"
  then obtain x where x: "name_ok x" "tree_node al (cs @ [x]) = Some e" by blast
  then have "x # rev cs \<in> set (map fst al)" "rnode al (x # rev cs) = Some e"
    using tree_node_snoc [OF x(2)] by (auto simp: tree_node_def simp del: rnode.simps)
  then show "e \<in> set (tree_children al (rev cs))"
    using x(1) by (force simp: tree_children_def map_filter_def simp del: rnode.simps)
qed

interpretation tree: ftp_server "tree_lib m" tree_dial tree_node m for m
proof (unfold_locales, goal_cases)
  case (6 s cs x e)
  then show ?case using tree_node_snoc by blast
next
  case (7 cs s e c)
  then show ?case
    by (cases cs rule: rev_cases) (auto simp: tree_lib_def tree_node_def path_base_abs simp del: rnode.simps)
next
  case (10 cs s e c)
  then show ?case
    using set_tree_children [of s cs]
    by (auto simp: tree_lib_def tree_list_def) (simp add: tree_node_def)
next
  case (13 s cs x e)
  then show ?case using tree_node_snoc by blast
next
  case (14 cs c s s')
  then have make: "tree_make_dir s (rev cs) = (None, s')" by (simp add: tree_lib_def)
  then obtain e where e: "rev cs \<noteq> []" "rnode s (tl (rev cs)) = Some e" "fe_type e = EntryTypeFolder"
    "\<forall>k' \<in> set (map fst s). drop (length k' - length (rev cs)) k' \<noteq> rev cs" "s' = (rev cs, folder) # s"
    by (auto simp: tree_make_dir_def list_all_iff split: if_splits option.splits)
  have "tree_node s' = (tree_node s)(cs \<mapsto> folder\<lparr>fe_name := hd (rev cs)\<rparr>)"
    using rnode_make_dir [OF e(1-4)] e(5) by (auto simp: tree_node_def fun_eq_iff)
  then show ?case by (intro exI [of _ "folder\<lparr>fe_name := hd (rev cs)\<rparr>"]) (simp add: folder_def)
next
  case (15 c n s err s')
  then show ?case by (auto simp: tree_lib_def tree_make_dir_def split: if_splits)
qed (auto simp: tree_lib_def tree_node_def tree_list_def tree_missing_def folder_def)

section \<open>Properties\<close>

text \<open>C11: \<open>Stat\<close> answers the same whether or not the server knows \<open>MLST\<close>: an entry is reported with its
  own name, size and kind, found directly or in the listing of its parent, and a missing one,
  below a folder or below nothing, as \<open>ErrNotExist\<close>.\<close>

theorem FTP_Stat_result:
  assumes "ftp_server L conn node mlst" "list_all name_ok cs" "cs \<noteq> []"
    and "\<forall>e. node s (butlast cs) = Some e \<longrightarrow> fe_type e = EntryTypeFolder"
  shows "case node s cs of
      Some e \<Rightarrow> \<exists>fi. ftp_Stat L conn (abs_path cs) s = (Inr fi, s) \<and> fi_name fi = last cs
        \<and> fi_size fi = sint (fe_size e) \<and> (fi_is_dir fi \<longleftrightarrow> fe_type e = EntryTypeFolder)
    | None \<Rightarrow> ftp_Stat L conn (abs_path cs) s = (Inl (PathError ''stat'' (abs_path cs) ErrNotExist), s)"
proof (cases "node s cs")
  case None
  then show ?thesis
    using ftp_server.Stat_missing [OF assms(1,2), of s] assms(4) by auto
next
  case (Some e)
  then show ?thesis using ftp_server.Stat_found [OF assms(1-3) Some] by simp
qed

lemma tree_names [simp]: "name_ok ''a''" "name_ok ''b''"
  by (simp_all add: name_ok_def good_elem_def)

lemma tree_abs: "abs_path [a] = ''/'' @ a" "abs_path [a, b] = ''/'' @ a @ ''/'' @ b"
  by (simp_all add: abs_path_def)

theorem FTP_Stat_result_witness:
  "\<exists>fi. ftp_Stat (tree_lib False) tree_dial ''/a/b'' [([''b'', ''a''], folder\<lparr>fe_type := EntryTypeFile, fe_size := 7\<rparr>), ([''a''], folder)]
      = (Inr fi, [([''b'', ''a''], folder\<lparr>fe_type := EntryTypeFile, fe_size := 7\<rparr>), ([''a''], folder)])
     \<and> fi_name fi = ''b'' \<and> fi_size fi = 7 \<and> \<not> fi_is_dir fi"
  using FTP_Stat_result [OF tree.ftp_server_axioms, of "[''a'', ''b'']"
      "[([''b'', ''a''], folder\<lparr>fe_type := EntryTypeFile, fe_size := 7\<rparr>), ([''a''], folder)]" False]
  by (simp add: tree_abs tree_node_def folder_def)

text \<open>\<open>MkdirAll\<close> over the FTP file system makes the directory when it succeeds and takes no directory
  away in any case.\<close>

theorem FTP_MkdirAll_makes:
  assumes "ftp_server L conn node mlst" "list_all name_ok cs" "cs \<noteq> []"
    and "MkdirAll (ftp_filesystem L conn) (abs_path cs) s = (r, s')"
  shows "(r = None \<longrightarrow> (\<exists>e. node s' cs = Some e \<and> fe_type e = EntryTypeFolder))
    \<and> (\<forall>ds e. list_all name_ok ds \<and> ds \<noteq> [] \<and> node s ds = Some e \<and> fe_type e = EntryTypeFolder
        \<longrightarrow> (\<exists>e'. node s' ds = Some e' \<and> fe_type e' = EntryTypeFolder))"
  using dir_maker.MkdirAll_makes [OF ftp_server.dir_maker_here [OF assms(1)], of cs s s']
    dir_maker.MkdirAll_keeps [OF ftp_server.dir_maker_here [OF assms(1)], of cs _ s] assms(2-4)
    ftp_server.is_dir_at_node [OF assms(1)]
  by auto

theorem FTP_MkdirAll_makes_witness:
  "tree_node [([''b'', ''a''], folder), ([''a''], folder)] [''a'', ''b''] = Some (folder\<lparr>fe_name := ''b''\<rparr>)"
proof -
  have "MkdirAll (ftp_filesystem (tree_lib True) tree_dial) ''/a/b'' [] = (None, [([''b'', ''a''], folder), ([''a''], folder)])"
    by code_simp
  then have "\<exists>e. tree_node [([''b'', ''a''], folder), ([''a''], folder)] [''a'', ''b''] = Some e \<and> fe_type e = EntryTypeFolder"
    using FTP_MkdirAll_makes [OF tree.ftp_server_axioms, of "[''a'', ''b'']" True "[]" None
      "[([''b'', ''a''], folder), ([''a''], folder)]"] by (simp add: tree_abs)
  then show ?thesis by (auto simp: tree_node_def folder_def)
qed

text \<open>C12: an upload sends the concatenation of the written chunks, at the file's offset, as one request
  when the file is closed; \<open>Close\<close> reports success even when that request failed, and the error
  is only kept in the closed file.\<close>

theorem FTP_upload_concat:
  assumes "conn s = (Inr c, s)" "has_flag flag O_WRONLY \<or> has_flag flag O_RDWR" "chunks \<noteq> []"
    and "\<forall>buf p. lib_stor_feed L c (fe_name e) buf p 0 s = (None, s)"
    and "lib_stor L c (fe_name e) (concat chunks) 0 s = (err, s')"
  shows "\<exists>f' f''. write_all (ftp_filesystem L conn) (new_ftp_file e flag) chunks s = (True, f', s)
    \<and> ftpfile_Close L f' s = (None, f'', snd (lib_quit L c s'))
    \<and> ff_err f'' = map_option (\<lambda>x. normalizeError ''write'' (fe_name e) x None) err"
proof -
  let ?fs = "ftp_filesystem L conn"
  let ?f = "\<lambda>buf. (new_ftp_file e flag)\<lparr>ff_once := True, ff_writer := Some (Storing c buf 0)\<rparr>"
  have step: "ftpfile_Write L conn (?f buf) p s = ((int (length p), None), ?f (buf @ p), s)" for buf p
    using assms(2,4) by (simp add: ftpfile_Write_def ftp_open_writer_def ftp_pipe_write_def new_ftp_file_def)
  have rest: "write_all ?fs (?f buf) ps s = (True, ?f (buf @ concat ps), s)" for buf ps
    by (induction ps arbitrary: buf) (simp_all add: step)
  obtain p ps where c: "chunks = p # ps" using assms(3) by (cases chunks) auto
  have "ftpfile_Write L conn (new_ftp_file e flag) p s = ((int (length p), None), ?f p, s)"
    using assms(1,2,4) by (simp add: ftpfile_Write_def ftp_open_writer_def ftp_pipe_write_def new_ftp_file_def)
  then have "write_all ?fs (new_ftp_file e flag) chunks s = (True, ?f (concat chunks), s)"
    using rest [of p ps] c by simp
  then show ?thesis
    using assms(5)
    by (cases err)
       (auto simp: ftpfile_Close_def ftp_close_writer_def ftp_close_reader_def conn_Close_def new_ftp_file_def split: prod.split)
qed

theorem FTP_upload_concat_witness:
  "\<exists>f' f''. write_all (ftp_filesystem (tree_lib True) tree_dial) (new_ftp_file folder O_WRONLY) [''x'', ''yz''] [] = (True, f', [])
    \<and> ftpfile_Close (tree_lib True) f' [] = (None, f'', []) \<and> ff_err f'' = Some (PathError ''write'' [] ErrNotExist)"
  using FTP_upload_concat [of tree_dial "[]" "()" O_WRONLY "[''x'', ''yz'']" "tree_lib True" folder "Some tree_missing" "[]"]
  by (simp add: has_flag_def open_flags tree_lib_def folder_def tree_missing_def normalizeError_def)

text \<open>C13: \<open>Seek\<close> with any 64-bit offset, negative ones included. From the start it goes to the offset, from the current position it
  adds, and from the end it goes to the size minus the offset, which is the opposite of what a seek from the end
  means; each time modulo \<open>2 ^ 64\<close>, read as a signed number. What it answers is what it stores: the file
  is the old one at the new position, and the first \<open>Read\<close> after it asks the server for the data from there on. From the
  end of an empty file it fails and changes nothing.\<close>

theorem FTP_Seek_result:
  assumes "target = (if whence = 0 then off else if whence = 1 then sint (ff_offset f) + off
      else if whence = 2 then sint (fe_size (ff_entry f)) - off else sint (ff_offset f))"
    and "pos = (target + 2 ^ 63) mod 2 ^ 64 - 2 ^ 63"
  shows "if whence = 2 \<and> fe_size (ff_entry f) = 0
    then ftpfile_Seek f off whence s = ((-1, Some (PathError ''seek'' (fe_name (ff_entry f)) ErrInvalid)), f, s)
    else \<exists>f'. ftpfile_Seek f off whence s = ((pos, None), f', s) \<and> f' = f\<lparr>ff_offset := word_of_int pos\<rparr>
      \<and> (- (2 ^ 63) \<le> target \<and> target < 2 ^ 63 \<longrightarrow> pos = target)
      \<and> (\<forall>c r s1 s2. \<not> ff_once f \<and> conn s = (Inr c, s1)
            \<and> lib_retr L c (fe_name (ff_entry f)) (word_of_int target) s1 = (Inr r, s2) \<longrightarrow>
          ff_reader (fst (ftp_open_reader L conn f' s)) = Some (r, c))"
proof (cases "whence = 2 \<and> fe_size (ff_entry f) = 0")
  case True
  then show ?thesis by (simp add: ftpfile_Seek_def normalizeError_def)
next
  case False
  define w where "w = (word_of_int target :: 64 word)"
  have "sint w = signed_take_bit 63 target" unfolding w_def by (simp add: sint_sbintrunc')
  also have "\<dots> = pos" unfolding assms(2) by (simp add: signed_take_bit_eq_take_bit_shift take_bit_eq_mod)
  finally have pos: "sint w = pos" .
  have wpos: "word_of_int pos = w" unfolding pos [symmetric] by simp
  have "ftpfile_Seek f off whence s = ((pos, None), f\<lparr>ff_offset := word_of_int pos\<rparr>, s)"
    using False pos unfolding wpos w_def assms(1) by (auto simp: ftpfile_Seek_def Let_def)
  moreover have "pos = target" if "- (2 ^ 63) \<le> target" "target < 2 ^ 63"
    unfolding assms(2) using that by simp
  moreover have "ff_reader (fst (ftp_open_reader L conn (f\<lparr>ff_offset := word_of_int pos\<rparr>) s)) = Some (r, c)"
    if "\<not> ff_once f" "conn s = (Inr c, s1)" "lib_retr L c (fe_name (ff_entry f)) (word_of_int target) s1 = (Inr r, s2)"
    for c r s1 s2
    using that unfolding wpos w_def by (simp add: ftp_open_reader_def Let_def)
  ultimately show ?thesis using False by auto
qed

text \<open>A server whose downloads are ten digits.\<close>

definition counting_lib :: "(unit, nat, unit) ftp_lib" where
  "counting_lib =
     \<lparr>lib_dial = (\<lambda>addr opts s. (Inr (), s)), lib_login = (\<lambda>c u p s. (None, s)), lib_quit = (\<lambda>c s. (None, s)),
      lib_make_dir = (\<lambda>c p s. (None, s)), lib_get_entry = (\<lambda>c p s. (Inr folder, s)), lib_list = (\<lambda>c p s. (Inr [], s)),
      lib_delete = (\<lambda>c p s. (None, s)), lib_remove_dir_recur = (\<lambda>c p s. (None, s)),
      lib_rename = (\<lambda>c p q s. (Some tree_missing, s)), lib_retr = (\<lambda>c p off s. (Inr (unat off), s)),
      lib_stor = (\<lambda>c p d off s. (None, s)), lib_stor_feed = (\<lambda>c p buf d off s. (None, s)),
      resp_read = (\<lambda>r n s. let p = take n (drop r ''0123456789'') in ((int (length p), p, None), r + length p, s)),
      resp_close = (\<lambda>r s. (None, s))\<rparr>"

theorem FTP_Seek_result_witness:
  "ftpfile_Seek (new_ftp_file (folder\<lparr>fe_size := 10\<rparr>) 0 :: (unit, nat) ftp_file) 3 2 ()
     = ((7, None), new_ftp_file (folder\<lparr>fe_size := 10\<rparr>) 0\<lparr>ff_offset := 7\<rparr>, ())
   \<and> ff_reader (fst (ftp_open_reader counting_lib (\<lambda>s. (Inr (), s)) (new_ftp_file (folder\<lparr>fe_size := 10\<rparr>) 0\<lparr>ff_offset := 7\<rparr>) ()))
     = Some (7, ())
   \<and> ftpfile_Seek (new_ftp_file (folder\<lparr>fe_size := 10\<rparr>) 0 :: (unit, nat) ftp_file) (- 6) 1 ()
     = ((- 6, None), new_ftp_file (folder\<lparr>fe_size := 10\<rparr>) 0\<lparr>ff_offset := - 6\<rparr>, ())"
proof -
  let ?f = "new_ftp_file (folder\<lparr>fe_size := 10\<rparr>) 0 :: (unit, nat) ftp_file"
  have f: "ff_offset ?f = 0" "fe_size (ff_entry ?f) = 10" "\<not> ff_once ?f" by (simp_all add: new_ftp_file_def)
  have n: "(7 :: int) = (7 + 2 ^ 63) mod 2 ^ 64 - 2 ^ 63" "(- 6 :: int) = (- 6 + 2 ^ 63) mod 2 ^ 64 - 2 ^ 63" by simp_all
  have t: "(7 :: int) = (if (2 :: int) = 0 then 3 else if (2 :: int) = 1 then sint (ff_offset ?f) + 3
      else if (2 :: int) = 2 then sint (fe_size (ff_entry ?f)) - 3 else sint (ff_offset ?f))"
    "(- 6 :: int) = (if (1 :: int) = 0 then - 6 else if (1 :: int) = 1 then sint (ff_offset ?f) + - 6
      else if (1 :: int) = 2 then sint (fe_size (ff_entry ?f)) - - 6 else sint (ff_offset ?f))"
    by (simp_all add: f)
  show ?thesis
    using FTP_Seek_result [OF t(1) n(1), of "()" "\<lambda>s. (Inr (), s)" counting_lib]
      FTP_Seek_result [OF t(2) n(2), of "()" "\<lambda>s. (Inr (), s)" counting_lib] f
    by (simp add: counting_lib_def)
qed

text \<open>once a file has been read from, a \<open>Seek\<close> that reports the new position has no effect on what
  is read next.\<close>

theorem FTP_Seek_after_read:
  assumes "ff_once f" "ftpfile_Seek f off whence s = (r, f', s)"
  shows "fst (ftpfile_Read L conn f' n s) = fst (ftpfile_Read L conn f n s)"
proof -
  have "f' = f \<or> (\<exists>w. f' = f\<lparr>ff_offset := w\<rparr>)"
    using assms(2) by (auto simp: ftpfile_Seek_def Let_def split: if_splits)
  then show ?thesis
    using assms(1) by (auto simp: ftpfile_Read_def ftp_open_reader_def split: option.splits prod.splits)
qed

definition read_file :: "(unit, nat) ftp_file" where
  "read_file = (new_ftp_file (folder\<lparr>fe_size := 10\<rparr>) 0)\<lparr>ff_once := True, ff_reader := Some (4, ())\<rparr>"

theorem FTP_Seek_after_read_witness:
  "fst (ftpfile_Seek read_file 1 0 ()) = (1, None)
   \<and> fst (ftpfile_Read counting_lib (\<lambda>s. (Inr (), s)) (read_file\<lparr>ff_offset := 1\<rparr>) 2 ()) = (2, ''45'', None)"
proof -
  have "ftpfile_Seek read_file 1 0 () = ((1, None), read_file\<lparr>ff_offset := 1\<rparr>, ())"
    by (simp add: ftpfile_Seek_def)
  moreover have "fst (ftpfile_Read counting_lib (\<lambda>s. (Inr (), s)) read_file 2 ()) = (2, ''45'', None)"
    by (simp add: ftpfile_Read_def ftp_open_reader_def read_file_def new_ftp_file_def counting_lib_def)
  moreover have "ff_once read_file" by (simp add: read_file_def)
  ultimately show ?thesis
    using FTP_Seek_after_read [of read_file 1 0 "()" "(1, None)" "read_file\<lparr>ff_offset := 1\<rparr>" counting_lib
      "\<lambda>s. (Inr (), s)" 2] by simp
qed

text \<open>when the server reports that the file to rename is missing, the error is one that \<open>errors.Is\<close>
  recognises as \<open>ErrNotExist\<close> and \<open>os.IsNotExist\<close> does not.\<close>

theorem FTP_Rename_missing:
  assumes "conn s = (Inr c, s1)" "lib_rename L c old new s1 = (Some e, s2)"
    and "as_textproto e = Some StatusFileUnavailable"
  shows "\<exists>err. fst (ftp_Rename L conn old new s) = Some err \<and> errors_is err ErrNotExist \<and> \<not> os_is_not_exist err"
  using assms
  by (simp add: ftp_Rename_def conn_Rename_def closing_def normalizeError_def rename_values_def
      os_is_not_exist_def underlying_error_is_def)

theorem FTP_Rename_missing_witness:
  "\<exists>err. fst (ftp_Rename (tree_lib True) tree_dial ''/a'' ''/b'' []) = Some err \<and> errors_is err ErrNotExist \<and> \<not> os_is_not_exist err"
  by (rule FTP_Rename_missing [of _ _ "()" "[]" _ _ _ tree_missing "[]"]) (simp_all add: tree_lib_def tree_missing_def)

text \<open>\<open>Readdir\<close> of a folder answers its entries, each once with its kind, when no limit is given; with
  a positive limit it answers nothing at all.\<close>

theorem FTP_Readdir_result:
  assumes "ftp_server L conn node mlst" "list_all name_ok cs" "fe_name (ff_entry f) = abs_path cs"
    and "node s cs = Some e" "fe_type e = EntryTypeFolder"
  shows "\<exists>infos. ftpfile_Readdir L conn f count s = (Inr infos, f, s) \<and> (0 < count \<longrightarrow> infos = [])
    \<and> (count \<le> 0 \<longrightarrow> (\<lambda>fi. (fi_name fi, fi_is_dir fi)) ` set infos
         = {(x, fe_type e' = EntryTypeFolder) | x e'. name_ok x \<and> node s (cs @ [x]) = Some e'})"
proof -
  obtain c where c: "conn s = (Inr c, s)" using ftp_server.dialled [OF assms(1)] by blast
  obtain es where es: "fst (lib_list L c (abs_path cs) s) = Inr es"
    "set es = {e'. \<exists>x. name_ok x \<and> node s (cs @ [x]) = Some e'}"
    using ftp_server.list_folder [OF assms(1,2,4,5)] by blast
  have "snd (lib_quit L c s) = s" using ftp_server.quit_pure [OF assms(1)] .
  then have run: "ftpfile_Readdir L conn f count s =
      (Inr (map (\<lambda>e. ftp_entry_info (fe_name e) e) (if 0 < count then [] else es)), f, s)"
    using c es(1) assms(3) ftp_server.conn_List_abs [OF assms(1), of c cs s]
    by (cases "lib_quit L c s") (simp add: ftpfile_Readdir_def conn_Close_def Let_def)
  have "(\<lambda>fi. (fi_name fi, fi_is_dir fi)) ` set (map (\<lambda>e. ftp_entry_info (fe_name e) e) es)
      = {(x, fe_type e' = EntryTypeFolder) | x e'. name_ok x \<and> node s (cs @ [x]) = Some e'}"
    using es(2) ftp_server.node_name [OF assms(1)] by (auto simp: ftp_entry_info_def image_iff) fastforce+
  then show ?thesis using run by auto
qed

theorem FTP_Readdir_result_witness:
  "\<exists>infos. ftpfile_Readdir (tree_lib True) tree_dial (new_ftp_file (folder\<lparr>fe_name := ''/''\<rparr>) 0) 1 [([''a''], folder)]
     = (Inr infos, new_ftp_file (folder\<lparr>fe_name := ''/''\<rparr>) 0, [([''a''], folder)]) \<and> infos = []"
proof -
  have "abs_path [] = ''/''" by (simp add: abs_path_def)
  then show ?thesis
    using FTP_Readdir_result [OF tree.ftp_server_axioms, of "[]" "new_ftp_file (folder\<lparr>fe_name := ''/''\<rparr>) 0"
      "[([''a''], folder)]" folder True 1]
    by (simp add: new_ftp_file_def tree_node_def folder_def)
qed

end
