(* ===== verification/Ftp_Server.thy ===== *)
theory Ftp_Server
  imports Wrappers
begin

text \<open>
  The FTP server (\<open>pkg/ftp/server.go\<close>): its defaults, the settings it hands to the protocol engine, and what a client
  gets when it logs in. How the driver counts its clients is in the theory \<open>Ftp_Driver\<close>.
\<close>

section \<open>Server settings\<close>

record server =
  sv_addr :: string
  sv_public_host :: string
  sv_disable_mlst :: bool
  sv_disable_mlsd :: bool

definition Server_SetDefaults :: "server \<Rightarrow> server" where
  "Server_SetDefaults s =
     (let s1 = (if sv_addr s = [] then s\<lparr>sv_addr := ''0.0.0.0:2121''\<rparr> else s);
          host = hd (split_on CHR '':'' (sv_addr s1)) in
      if sv_public_host s1 = [] then s1\<lparr>sv_public_host := (if host = [] then ''0.0.0.0'' else host)\<rparr> else s1)"

text \<open>The settings that \<open>Serve\<close> hands to the driver, and that \<open>GetSettings\<close> returns.\<close>

record settings =
  ListenAddr :: string
  PublicHost :: string
  DisableMLST :: bool
  DisableMLSD :: bool

definition Server_settings :: "server \<Rightarrow> settings" where
  "Server_settings s =
     \<lparr>ListenAddr = sv_addr s, PublicHost = sv_public_host s, DisableMLST = sv_disable_mlst s,
      DisableMLSD = sv_disable_mlsd s\<rparr>"

text \<open>\<open>AuthUser\<close> accepts every user and password; the client gets the file system through the logging
  wrapper (the adaptor's operations, of the previous theory, act on it).\<close>

definition AuthUser :: "('h, 's) filesystem \<Rightarrow> string \<Rightarrow> string \<Rightarrow> ('h, 's \<times> log_entry list) filesystem" where
  "AuthUser f user pass = logr_Wrap f"

section \<open>Facts\<close>

text \<open>The two settings, with the default address kept folded.\<close>

definition default_addr :: string where
  "default_addr = ''0.0.0.0:2121''"

lemma default_addr_host: "hd (split_on CHR '':'' default_addr) = ''0.0.0.0''"
  by code_simp

lemma SetDefaults_addr: "sv_addr (Server_SetDefaults s) = (if sv_addr s = [] then default_addr else sv_addr s)"
  unfolding Server_SetDefaults_def Let_def default_addr_def [symmetric] by (cases s) simp

lemma SetDefaults_host:
  "sv_public_host (Server_SetDefaults s) =
     (if sv_public_host s \<noteq> [] then sv_public_host s
      else let host = hd (split_on CHR '':'' (if sv_addr s = [] then default_addr else sv_addr s)) in
        if host = [] then ''0.0.0.0'' else host)"
  unfolding Server_SetDefaults_def Let_def default_addr_def [symmetric] by (cases s) (simp add: default_addr_host)

text \<open>The defaults leave no setting empty, keep what was set, and setting them twice is setting them
  once.\<close>

theorem SetDefaults_result:
  "sv_addr (Server_SetDefaults s) \<noteq> [] \<and> sv_public_host (Server_SetDefaults s) \<noteq> []
   \<and> (sv_addr s \<noteq> [] \<longrightarrow> sv_addr (Server_SetDefaults s) = sv_addr s)
   \<and> (sv_public_host s \<noteq> [] \<longrightarrow> sv_public_host (Server_SetDefaults s) = sv_public_host s)
   \<and> Server_SetDefaults (Server_SetDefaults s) = Server_SetDefaults s"
proof -
  have ne: "sv_addr (Server_SetDefaults s) \<noteq> []" "sv_public_host (Server_SetDefaults s) \<noteq> []"
    by (simp add: SetDefaults_addr, simp add: default_addr_def) (simp add: SetDefaults_host Let_def)
  have "Server_SetDefaults t = t" if "sv_addr t \<noteq> []" "sv_public_host t \<noteq> []" for t
    using that by (simp add: Server_SetDefaults_def Let_def)
  then have "Server_SetDefaults (Server_SetDefaults s) = Server_SetDefaults s" using ne by blast
  with ne show ?thesis by (simp add: SetDefaults_addr SetDefaults_host)
qed

end
