(* ===== verification/Ftp_Driver.thy ===== *)
theory Ftp_Driver
  imports Go_Errors "HOL-Library.Multiset"
begin

text \<open>
  The driver of the FTP server (\<open>pkg/ftp/server.go\<close>), which counts the connected clients and announces, through a
  channel, that the last one has gone. The protocol engine (\<open>ftpserverlib\<close>) calls it from the goroutines of
  its clients, and from those that stop the server and wait for its end. Nothing locks the driver, so the
  model interleaves the goroutines at every access to the counter, to the field \<open>zeroClientEvent\<close> and to a channel.
\<close>

section \<open>The code\<close>

text \<open>A channel of capacity one for errors that are always nil: whether it holds a message, and whether it is closed.
  Channels are never reused, so the field holds nil or the index of one.\<close>

record event_chan =
  ch_full :: bool
  ch_closed :: bool

record driver =
  nbClients :: int
  zeroClientEvent :: "nat option"
  chans :: "event_chan list"

text \<open>Where a goroutine is: before \<open>nbClients.Add(1)\<close>, serving its client, before the channel is made, in
  \<open>considerEnd\<close> before the counter is loaded, the field tested, the channel of the send evaluated, the send, the
  channel of the close evaluated, the close; in \<open>WaitGracefully\<close> before its channel is evaluated, in its \<open>select\<close>,
  before the field is reset; back from the call, or in a panic.\<close>

datatype point =
    At_Connect | At_Serve | At_Stop
  | At_Load | At_Test | At_Send | At_Sending "nat option" | At_Close | At_Closing "nat option"
  | At_Wait | At_Receive "nat option" | At_Forget "go_error option"
  | At_Return "go_error option" | At_Panic

definition set_chan :: "nat \<Rightarrow> event_chan \<Rightarrow> driver \<Rightarrow> driver" where
  "set_chan c ch d = d\<lparr>chans := (chans d)[c := ch]\<rparr>"

text \<open>One step of \<open>considerEnd\<close>; \<^const>\<open>None\<close> where there is none to take. A send on nil blocks for ever, one on a full
  channel until a receive; a send on a closed channel panics, and so does closing nil or a closed channel. A panic ends
  its goroutine, and the program unless the engine recovers, which is not known here: the others go on in the model.\<close>

fun considerEnd :: "point \<Rightarrow> driver \<Rightarrow> (point \<times> driver) option" where
  "considerEnd At_Load d = Some (if nbClients d = 0 then At_Test else At_Return None, d)"
| "considerEnd At_Test d = Some (if zeroClientEvent d \<noteq> None then At_Send else At_Return None, d)"
| "considerEnd At_Send d = Some (At_Sending (zeroClientEvent d), d)"
| "considerEnd (At_Sending (Some c)) d =
     (let ch = chans d ! c in
      if ch_closed ch then Some (At_Panic, d)
      else if ch_full ch then None
      else Some (At_Close, set_chan c (ch\<lparr>ch_full := True\<rparr>) d))"
| "considerEnd At_Close d = Some (At_Closing (zeroClientEvent d), d)"
| "considerEnd (At_Closing None) d = Some (At_Panic, d)"
| "considerEnd (At_Closing (Some c)) d =
     (let ch = chans d ! c in
      if ch_closed ch then Some (At_Panic, d)
      else Some (At_Return None, set_chan c (ch\<lparr>ch_closed := True\<rparr>) d))"
| "considerEnd p d = None"

text \<open>\<open>ClientConnected\<close> answers its greeting and the client is served; \<open>ClientDisconnected\<close> and \<open>Stop\<close> go on in \<open>considerEnd\<close>.\<close>

fun ClientConnected :: "point \<Rightarrow> driver \<Rightarrow> (point \<times> driver) option" where
  "ClientConnected At_Connect d = Some (At_Serve, d\<lparr>nbClients := nbClients d + 1\<rparr>)"
| "ClientConnected p d = None"

fun ClientDisconnected :: "point \<Rightarrow> driver \<Rightarrow> (point \<times> driver) option" where
  "ClientDisconnected At_Serve d = Some (At_Load, d\<lparr>nbClients := nbClients d - 1\<rparr>)"
| "ClientDisconnected p d = considerEnd p d"

fun driver_Stop :: "point \<Rightarrow> driver \<Rightarrow> (point \<times> driver) option" where
  "driver_Stop At_Stop d =
     Some (At_Load, d\<lparr>zeroClientEvent := Some (length (chans d)),
                      chans := chans d @ [\<lparr>ch_full = False, ch_closed = False\<rparr>]\<rparr>)"
| "driver_Stop p d = considerEnd p d"

text \<open>\<open>WaitGracefully\<close> receives from the channel that the field holds when it begins - a message, or nil once the channel is
  closed and empty - or the timeout comes first.\<close>

inductive WaitGracefully :: "point \<Rightarrow> driver \<Rightarrow> point \<Rightarrow> driver \<Rightarrow> bool" where
  waits: "WaitGracefully At_Wait d (At_Receive (zeroClientEvent d)) d"
| received: "ch_full (chans d ! c) \<Longrightarrow>
    WaitGracefully (At_Receive (Some c)) d (At_Forget None) (set_chan c ((chans d ! c)\<lparr>ch_full := False\<rparr>) d)"
| drained: "ch_closed (chans d ! c) \<Longrightarrow> \<not> ch_full (chans d ! c) \<Longrightarrow>
    WaitGracefully (At_Receive (Some c)) d (At_Forget None) d"
| timed_out: "WaitGracefully (At_Receive ch) d (At_Forget (Some ErrTimeout)) d"
| forgets: "WaitGracefully (At_Forget r) d (At_Return r) (d\<lparr>zeroClientEvent := None\<rparr>)"

code_pred (modes: i \<Rightarrow> i \<Rightarrow> o \<Rightarrow> o \<Rightarrow> bool) WaitGracefully .

section \<open>The goroutines\<close>

inductive goroutine_step :: "point \<Rightarrow> driver \<Rightarrow> point \<Rightarrow> driver \<Rightarrow> bool" where
  connects: "ClientConnected p d = Some (p', d') \<Longrightarrow> goroutine_step p d p' d'"
| disconnects: "ClientDisconnected p d = Some (p', d') \<Longrightarrow> goroutine_step p d p' d'"
| stops: "driver_Stop p d = Some (p', d') \<Longrightarrow> goroutine_step p d p' d'"
| waits_for: "WaitGracefully p d p' d' \<Longrightarrow> goroutine_step p d p' d'"

text \<open>A run: the engine begins calls, recorded in their order, and the goroutines move one at a time.\<close>

definition driver_start :: driver where
  "driver_start = \<lparr>nbClients = 0, zeroClientEvent = None, chans = []\<rparr>"

inductive driver_run :: "point list \<Rightarrow> driver \<times> point multiset \<Rightarrow> bool" where
  run_start: "driver_run [] (driver_start, {#})"
| run_call: "driver_run calls (d, G) \<Longrightarrow> p \<in> {At_Connect, At_Stop, At_Wait} \<Longrightarrow> driver_run (calls @ [p]) (d, add_mset p G)"
| run_step: "driver_run calls (d, add_mset p G) \<Longrightarrow> goroutine_step p d p' d' \<Longrightarrow> driver_run calls (d', add_mset p' G)"

section \<open>The invariant\<close>

text \<open>A goroutine that will announce the end through channel \<open>c\<close> if nothing else happens.\<close>

fun announcing :: "nat \<Rightarrow> point \<Rightarrow> bool" where
  "announcing c (At_Sending ch) = (ch = Some c)"
| "announcing c (At_Closing ch) = (ch = Some c)"
| "announcing c p = (p \<in> {At_Load, At_Test, At_Send, At_Close})"

fun closing_end :: "nat \<Rightarrow> point \<Rightarrow> bool" where
  "closing_end c (At_Closing ch) = (ch = Some c)"
| "closing_end c p = (p = At_Close)"

fun holds_chan :: "nat \<Rightarrow> point \<Rightarrow> bool" where
  "holds_chan c (At_Sending ch) = (ch = Some c)"
| "holds_chan c (At_Closing ch) = (ch = Some c)"
| "holds_chan c (At_Receive ch) = (ch = Some c)"
| "holds_chan c p = False"

definition driver_inv :: "driver \<Rightarrow> point multiset \<Rightarrow> bool" where
  "driver_inv d G \<longleftrightarrow> nbClients d = int (count G At_Serve)
     \<and> (\<forall>c. zeroClientEvent d = Some c \<longrightarrow> c < length (chans d))
     \<and> (\<forall>p \<in># G. \<forall>c. holds_chan c p \<longrightarrow> c < length (chans d))
     \<and> (\<forall>c. zeroClientEvent d = Some c \<and> \<not> ch_closed (chans d ! c) \<longrightarrow>
          (nbClients d = 0 \<longrightarrow> (\<exists>p \<in># G. announcing c p)) \<and> (ch_full (chans d ! c) \<longrightarrow> (\<exists>p \<in># G. closing_end c p)))"

lemma considerEnd_inv:
  assumes "considerEnd p d = Some (p', d')" "driver_inv d (add_mset p G)"
  shows "driver_inv d' (add_mset p' G)"
  using assms
  by (induction p d rule: considerEnd.induct)
    (auto simp: driver_inv_def set_chan_def Let_def nth_list_update count_eq_zero_iff split: if_splits)

lemma WaitGracefully_inv:
  assumes "WaitGracefully p d p' d'" "driver_inv d (add_mset p G)"
  shows "driver_inv d' (add_mset p' G)"
  using assms
  by (induction rule: WaitGracefully.induct)
    (auto simp: driver_inv_def set_chan_def nth_list_update split: if_splits)

lemma goroutine_step_inv:
  assumes "goroutine_step p d p' d'" "driver_inv d (add_mset p G)"
  shows "driver_inv d' (add_mset p' G)"
  using assms
proof (induction rule: goroutine_step.induct)
  case (connects p d p' d')
  then show ?case by (cases p) (auto simp: driver_inv_def)
next
  case (disconnects p d p' d')
  show ?case
  proof (cases "p = At_Serve")
    case True
    with disconnects show ?thesis by (auto simp: driver_inv_def)
  next
    case False
    then have "considerEnd p d = Some (p', d')" using disconnects(1) by (cases p) auto
    then show ?thesis using considerEnd_inv disconnects(2) by blast
  qed
next
  case (stops p d p' d')
  show ?case
  proof (cases "p = At_Stop")
    case True
    with stops show ?thesis by (auto simp: driver_inv_def nth_append less_Suc_eq)
  next
    case False
    then have "considerEnd p d = Some (p', d')" using stops(1) by (cases p) auto
    then show ?thesis using considerEnd_inv stops(2) by blast
  qed
qed (rule WaitGracefully_inv)

lemma driver_run_inv: "driver_run calls (d, G) \<Longrightarrow> driver_inv d G"
proof (induction calls "(d, G)" arbitrary: d G rule: driver_run.induct)
  case run_start
  show ?case by (simp add: driver_inv_def driver_start_def)
next
  case (run_call calls d G p)
  then show ?case by (auto simp: driver_inv_def)
next
  case (run_step calls d p G p' d')
  then show ?case using goroutine_step_inv by blast
qed

text \<open>\<open>considerEnd\<close> is a straight line.\<close>

fun considerEnd_left :: "point \<Rightarrow> nat" where
  "considerEnd_left At_Load = 6"
| "considerEnd_left At_Test = 5"
| "considerEnd_left At_Send = 4"
| "considerEnd_left (At_Sending ch) = 3"
| "considerEnd_left At_Close = 2"
| "considerEnd_left (At_Closing ch) = 1"
| "considerEnd_left p = 0"

lemma considerEnd_forward: "considerEnd p d = Some (p', d') \<Longrightarrow> considerEnd_left p' < considerEnd_left p"
  by (induction p d rule: considerEnd.induct) (auto simp: Let_def split: if_splits)

lemma announcing_moves:
  assumes "announcing c p" "ch_full (chans d ! c) \<longrightarrow> closing_end c p"
  shows "considerEnd p d \<noteq> None"
  using assms by (cases p) (auto simp: Let_def)

lemma closing_end_announcing: "closing_end c p \<Longrightarrow> announcing c p"
  by (cases p) auto

text \<open>C14: In every interleaving of clients that come and go, of \<open>Stop\<close> and of \<open>WaitGracefully\<close>, the counter is exactly the number
  of clients being served, and an end that was asked for is not forgotten: as long as the channel is there and open and
  no client is served, some goroutine in \<open>considerEnd\<close> can take a step towards the announcement. It takes at most six, so
  where all goroutines have left \<open>considerEnd\<close> or are blocked in it the end has been announced.\<close>

theorem driver_invariant:
  assumes "driver_run calls (d, G)"
  shows "nbClients d = int (count G At_Serve)
    \<and> (\<forall>c. zeroClientEvent d = Some c \<and> \<not> ch_closed (chans d ! c) \<and> nbClients d = 0 \<longrightarrow>
        (\<exists>p \<in># G. \<exists>p' d'. announcing c p \<and> considerEnd p d = Some (p', d') \<and> considerEnd_left p' < considerEnd_left p))"
proof (intro conjI allI impI)
  have inv: "driver_inv d G" by (rule driver_run_inv [OF assms])
  then show "nbClients d = int (count G At_Serve)" by (simp add: driver_inv_def)
  fix c assume c: "zeroClientEvent d = Some c \<and> \<not> ch_closed (chans d ! c) \<and> nbClients d = 0"
  then obtain p where p: "p \<in># G" "announcing c p" "ch_full (chans d ! c) \<longrightarrow> closing_end c p"
    using inv closing_end_announcing unfolding driver_inv_def by metis
  then obtain p' d' where step: "considerEnd p d = Some (p', d')"
    using announcing_moves by (metis not_None_eq surj_pair)
  then show "\<exists>p \<in># G. \<exists>p' d'. announcing c p \<and> considerEnd p d = Some (p', d') \<and> considerEnd_left p' < considerEnd_left p"
    using p considerEnd_forward by blast
qed

section \<open>Runs\<close>

text \<open>A step of one of the functions, and a call, in a given configuration.\<close>

lemma run_to:
  assumes "driver_run calls (d, G)" "G = add_mset p H" "G2 = add_mset p' H"
    and "considerEnd p d = Some (p', d') \<or> ClientConnected p d = Some (p', d') \<or> ClientDisconnected p d = Some (p', d')
      \<or> driver_Stop p d = Some (p', d')"
  shows "driver_run calls (d', G2)"
proof -
  have "considerEnd p d = Some (p', d') \<Longrightarrow> driver_Stop p d = Some (p', d')" by (cases p) auto
  then have "goroutine_step p d p' d'" using assms(4) connects disconnects stops by blast
  then show ?thesis using run_step assms(1-3) by blast
qed

lemma call_to:
  assumes "driver_run calls (d, G)" "p \<in> {At_Connect, At_Stop, At_Wait}" "G2 = add_mset p G" "calls2 = calls @ [p]"
  shows "driver_run calls2 (d, G2)"
  using run_call assms by blast

abbreviation driver_at :: "int \<Rightarrow> nat option \<Rightarrow> event_chan list \<Rightarrow> driver" where
  "driver_at n ev cs \<equiv> \<lparr>nbClients = n, zeroClientEvent = ev, chans = cs\<rparr>"

abbreviation open_chan :: event_chan where
  "open_chan \<equiv> \<lparr>ch_full = False, ch_closed = False\<rparr>"

abbreviation end_chan :: event_chan where
  "end_chan \<equiv> \<lparr>ch_full = True, ch_closed = True\<rparr>"

text \<open>Past the test of the field nothing is looked at again: the announcement is made, or made twice.\<close>

lemma announce_run:
  assumes "driver_run calls (driver_at n (Some 0) [open_chan], add_mset At_Test H)"
  shows "driver_run calls (driver_at n (Some 0) [end_chan], add_mset (At_Return None) H)"
proof -
  have "driver_run calls (driver_at n (Some 0) [open_chan], add_mset At_Send H)"
    by (rule run_to [OF assms refl refl]) simp
  then have "driver_run calls (driver_at n (Some 0) [open_chan], add_mset (At_Sending (Some 0)) H)"
    by (rule run_to [OF _ refl refl]) simp
  then have "driver_run calls (driver_at n (Some 0) [\<lparr>ch_full = True, ch_closed = False\<rparr>], add_mset At_Close H)"
    by (rule run_to [OF _ refl refl]) (simp add: set_chan_def)
  then have "driver_run calls (driver_at n (Some 0) [\<lparr>ch_full = True, ch_closed = False\<rparr>], add_mset (At_Closing (Some 0)) H)"
    by (rule run_to [OF _ refl refl]) simp
  then show ?thesis by (rule run_to [OF _ refl refl]) (simp add: set_chan_def)
qed

lemma announce_again_run:
  assumes "driver_run calls (driver_at 0 (Some 0) [end_chan], add_mset At_Load H)"
  shows "driver_run calls (driver_at 0 (Some 0) [end_chan], add_mset At_Panic H)"
proof -
  have "driver_run calls (driver_at 0 (Some 0) [end_chan], add_mset At_Test H)"
    by (rule run_to [OF assms refl refl]) simp
  then have "driver_run calls (driver_at 0 (Some 0) [end_chan], add_mset At_Send H)"
    by (rule run_to [OF _ refl refl]) simp
  then have "driver_run calls (driver_at 0 (Some 0) [end_chan], add_mset (At_Sending (Some 0)) H)"
    by (rule run_to [OF _ refl refl]) simp
  then show ?thesis by (rule run_to [OF _ refl refl]) simp
qed

lemma served_run:
  assumes "driver_run calls (driver_at n ev cs, G)"
  shows "driver_run (calls @ [At_Connect]) (driver_at (n + 1) ev cs, add_mset At_Serve G)"
  by (rule run_to [OF call_to [OF assms _ refl refl] refl refl]) simp_all

lemma leaving_run:
  assumes "driver_run calls (driver_at n ev cs, add_mset At_Serve G)"
  shows "driver_run calls (driver_at (n - 1) ev cs, add_mset At_Load G)"
  by (rule run_to [OF assms refl refl]) simp

lemma stopping_run:
  assumes "driver_run calls (driver_at n ev [], G)"
  shows "driver_run (calls @ [At_Stop]) (driver_at n (Some 0) [open_chan], add_mset At_Load G)"
  by (rule run_to [OF call_to [OF assms _ refl refl] refl refl]) simp_all

text \<open>The configuration may be written in another order.\<close>

lemma run_as: "driver_run calls (d, G) \<Longrightarrow> G = G2 \<Longrightarrow> driver_run calls (d, G2)"
  by simp

lemma started_run: "driver_run [] (driver_at 0 None [], {#})"
  using run_start by (simp add: driver_start_def)

text \<open>A client is served, \<open>Stop\<close> has made its channel and seen the client, and then the client goes.\<close>

lemma last_client_run: "driver_run [At_Connect, At_Stop] (driver_at 0 (Some 0) [open_chan], {#At_Load, At_Return None#})"
proof -
  have "driver_run [At_Connect, At_Stop] (driver_at 1 (Some 0) [open_chan], {#At_Load, At_Serve#})"
    using stopping_run [OF served_run [OF started_run]] by simp
  then have "driver_run [At_Connect, At_Stop] (driver_at 1 (Some 0) [open_chan], {#At_Serve, At_Return None#})"
    by (rule run_to [where p = At_Load and H = "{#At_Serve#}"]) (simp_all add: add_mset_commute)
  from leaving_run [OF this] show ?thesis by simp
qed

theorem driver_invariant_witness:
  "driver_run [At_Connect, At_Stop] (driver_at 0 (Some 0) [open_chan], {#At_Load, At_Return None#})
   \<and> (\<exists>p \<in># {#At_Load, At_Return None#}. \<exists>p' d'. announcing 0 p \<and> considerEnd p (driver_at 0 (Some 0) [open_chan]) = Some (p', d')
       \<and> considerEnd_left p' < considerEnd_left p)"
  using driver_invariant [OF last_client_run] last_client_run by simp

text \<open>The last client and \<open>Stop\<close> can both announce the end: when the client goes while \<open>Stop\<close> is under way, both see no client
  left, and the second to send panics, in a run of one client and one \<open>Stop\<close>.\<close>

theorem driver_double_end_panics: "\<exists>d G. driver_run [At_Connect, At_Stop] (d, G) \<and> At_Panic \<in># G"
proof -
  have "driver_run [At_Connect, At_Stop] (driver_at 1 (Some 0) [open_chan], {#At_Serve, At_Load#})"
    using stopping_run [OF served_run [OF started_run]] by (simp add: add_mset_commute)
  from leaving_run [OF this]
  have two: "driver_run [At_Connect, At_Stop] (driver_at 0 (Some 0) [open_chan], {#At_Load, At_Load#})" by simp
  have "driver_run [At_Connect, At_Stop] (driver_at 0 (Some 0) [open_chan], {#At_Test, At_Load#})"
    by (rule run_to [OF two refl refl]) simp
  from run_as [OF announce_run [OF this] add_mset_commute] show ?thesis
    using announce_again_run by fastforce
qed

text \<open>The end can be announced too early: a client that has gone before \<open>Stop\<close>, and has seen no other client then, announces the
  end through the channel that \<open>Stop\<close> made, although another client has come in between and is still served.\<close>

theorem driver_early_end:
  "\<exists>d G. driver_run [At_Connect, At_Connect, At_Stop] (d, G) \<and> zeroClientEvent d = Some 0 \<and> chans d = [end_chan]
    \<and> nbClients d = 1 \<and> At_Serve \<in># G"
proof -
  have "driver_run [At_Connect] (driver_at 0 None [], {#At_Load#})"
    using leaving_run [OF served_run [OF started_run]] by simp
  then have "driver_run [At_Connect] (driver_at 0 None [], {#At_Test#})"
    by (rule run_to [OF _ refl refl]) simp
  from stopping_run [OF served_run [OF this]]
  have "driver_run [At_Connect, At_Connect, At_Stop] (driver_at 1 (Some 0) [open_chan], {#At_Load, At_Serve, At_Test#})"
    by simp
  then have "driver_run [At_Connect, At_Connect, At_Stop] (driver_at 1 (Some 0) [open_chan], {#At_Test, At_Return None, At_Serve#})"
    by (rule run_to [where p = At_Load and H = "{#At_Serve, At_Test#}"]) (simp_all add: add_mset_commute)
  from announce_run [OF this] show ?thesis by fastforce
qed

text \<open>A client that comes and goes after the end was announced, before anybody has waited for it, panics as well.\<close>

theorem driver_second_end_panics: "\<exists>d G. driver_run [At_Stop, At_Connect] (d, G) \<and> At_Panic \<in># G"
proof -
  have "driver_run [At_Stop] (driver_at 0 (Some 0) [open_chan], {#At_Load#})"
    using stopping_run [OF started_run] by simp
  then have "driver_run [At_Stop] (driver_at 0 (Some 0) [open_chan], {#At_Test#})"
    by (rule run_to [OF _ refl refl]) simp
  then have "driver_run [At_Stop] (driver_at 0 (Some 0) [end_chan], {#At_Return None#})" by (rule announce_run)
  from leaving_run [OF served_run [OF this]]
  have "driver_run [At_Stop, At_Connect] (driver_at 0 (Some 0) [end_chan], {#At_Load, At_Return None#})" by simp
  then show ?thesis using announce_again_run by fastforce
qed

end
