(* ===== verification/Dav_Values.thy ===== *)
theory Dav_Values
  imports Go_Errors
begin

text \<open>
  The operations of the raw XML values of the WebDAV client (\<open>client/xml.go\<close>): writing a value
  to an encoder, reading one from a decoder, and the token reader, whose state is a position in
  the value. The facts say that the three agree: the encoder is given the tokens of the value in
  order, the reader delivers the same tokens, and reading them back gives the value.
\<close>

section \<open>The code\<close>

text \<open>An encoder is what it answers to the next token, with its new state.\<close>

type_synonym 'e encoder = "xml_token \<Rightarrow> 'e \<Rightarrow> go_error option \<times> 'e"

fun encode_tokens :: "'e encoder \<Rightarrow> xml_token list \<Rightarrow> 'e \<Rightarrow> go_error option \<times> 'e" where
  "encode_tokens enc [] e = (None, e)"
| "encode_tokens enc (t # ts) e =
     (case enc t e of (Some err, e') \<Rightarrow> (Some err, e') | (None, e') \<Rightarrow> encode_tokens enc ts e')"

fun MarshalXML :: "'e encoder \<Rightarrow> raw_xml \<Rightarrow> 'e \<Rightarrow> go_error option \<times> 'e"
  and marshal_children :: "'e encoder \<Rightarrow> raw_xml list \<Rightarrow> 'e \<Rightarrow> go_error option \<times> 'e" where
  "MarshalXML enc (RawOut out) e = encode_tokens enc out e"
| "MarshalXML enc (RawXml (StartElement name attr) children) e =
     (case enc (StartElement name attr) e of
        (Some err, e1) \<Rightarrow> (Some err, e1)
      | (None, e1) \<Rightarrow>
          (case marshal_children enc children e1 of
             (Some err, e2) \<Rightarrow> (Some err, e2)
           | (None, e2) \<Rightarrow> enc (EndElement name) e2))"
| "MarshalXML enc (RawXml (EndElement name) children) e = (Some Panics, e)"
| "MarshalXML enc (RawXml tok children) e = enc tok e"
| "marshal_children enc [] e = (None, e)"
| "marshal_children enc (c # cs) e =
     (case MarshalXML enc c e of
        (Some err, e1) \<Rightarrow> (Some err, e1)
      | (None, e1) \<Rightarrow> marshal_children enc cs e1)"

text \<open>
  \<open>UnmarshalXML\<close> after the start element: the children up to the end element, and what is left.
  The decoder is the list of tokens it will deliver; after them \<open>Token\<close> returns the error \<open>eof\<close>.
\<close>

function unmarshal_children ::
  "go_error \<Rightarrow> xml_token list \<Rightarrow> (go_error + raw_xml list) \<times> xml_token list" where
  "unmarshal_children eof [] = (Inl eof, [])"
| "unmarshal_children eof (StartElement name attr # ts) =
     (case unmarshal_children eof ts of
        (Inl err, rest) \<Rightarrow> (Inl err, rest)
      | (Inr cs, rest) \<Rightarrow>
          (case unmarshal_children eof rest of
             (Inl err, rest') \<Rightarrow> (Inl err, rest')
           | (Inr ds, rest') \<Rightarrow> (Inr (RawXml (StartElement name attr) cs # ds), rest')))"
| "unmarshal_children eof (EndElement name # ts) = (Inr [], ts)"
| "unmarshal_children eof (CharData d # ts) =
     (case unmarshal_children eof ts of
        (Inl err, rest) \<Rightarrow> (Inl err, rest) | (Inr ds, rest) \<Rightarrow> (Inr (RawXml (CharData d) [] # ds), rest))"
| "unmarshal_children eof (Comment d # ts) =
     (case unmarshal_children eof ts of
        (Inl err, rest) \<Rightarrow> (Inl err, rest) | (Inr ds, rest) \<Rightarrow> (Inr (RawXml (Comment d) [] # ds), rest))"
| "unmarshal_children eof (ProcInst t d # ts) =
     (case unmarshal_children eof ts of
        (Inl err, rest) \<Rightarrow> (Inl err, rest) | (Inr ds, rest) \<Rightarrow> (Inr (RawXml (ProcInst t d) [] # ds), rest))"
| "unmarshal_children eof (Directive d # ts) =
     (case unmarshal_children eof ts of
        (Inl err, rest) \<Rightarrow> (Inl err, rest) | (Inr ds, rest) \<Rightarrow> (Inr (RawXml (Directive d) [] # ds), rest))"
  by pat_completeness auto

lemma unmarshal_children_shorter:
  "unmarshal_children_dom (eof, ts) \<Longrightarrow> length (snd (unmarshal_children eof ts)) \<le> length ts"
  by (induction rule: unmarshal_children.pinduct)
    (fastforce simp: unmarshal_children.psimps split: prod.splits sum.splits)+

termination unmarshal_children
proof (relation "measure (\<lambda>(eof, ts). length ts)", goal_cases)
  case (3 eof name attr ts p)
  then show ?case using unmarshal_children_shorter [of eof ts] by (simp add: less_Suc_eq_le) (metis snd_conv)
qed simp_all

definition UnmarshalXML ::
  "go_error \<Rightarrow> xml_name \<Rightarrow> xml_attr list \<Rightarrow> xml_token list \<Rightarrow> (go_error + raw_xml) \<times> xml_token list" where
  "UnmarshalXML eof name attr ts =
     (case unmarshal_children eof ts of
        (Inl err, rest) \<Rightarrow> (Inl err, rest)
      | (Inr cs, rest) \<Rightarrow> (Inr (RawXml (StartElement name attr) cs), rest))"

text \<open>The token reader: the value, whether its start has been delivered, whether it is at its end, the
  index of the current child and the reader of that child.\<close>

datatype xml_reader = XmlReader raw_xml bool bool nat "xml_reader option"

definition TokenReader :: "raw_xml \<Rightarrow> go_error + xml_reader" where
  "TokenReader v =
     (case v of RawOut _ \<Rightarrow> Inl Panics | RawXml _ _ \<Rightarrow> Inr (XmlReader v False False 0 None))"

fun raw_weight :: "raw_xml \<Rightarrow> nat" where
  "raw_weight (RawXml tok cs) = 2 + sum_list (map raw_weight cs)"
| "raw_weight (RawOut out) = 2"

fun raw_children :: "raw_xml \<Rightarrow> raw_xml list" where
  "raw_children (RawXml tok cs) = cs"
| "raw_children (RawOut out) = []"

fun reader_weight :: "xml_reader \<Rightarrow> nat" where
  "reader_weight (XmlReader v st en c None) = 1 + sum_list (map raw_weight (drop c (raw_children v)))"
| "reader_weight (XmlReader v st en c (Some r)) =
     1 + reader_weight r + sum_list (map raw_weight (drop (Suc c) (raw_children v)))"

lemma reader_weight_pos: "0 < reader_weight r"
  by (cases r rule: reader_weight.cases) auto

lemma reader_weight_next:
  "c < length (raw_children v) \<Longrightarrow>
    reader_weight (XmlReader v st en (Suc c) None) < reader_weight (XmlReader v st en c r)"
  using reader_weight_pos
  by (cases r; cases "raw_children v ! c") (auto simp flip: Cons_nth_drop_Suc)

text \<open>The reader of the current child: the one kept, or a new one.\<close>

definition child_reader :: "raw_xml list \<Rightarrow> nat \<Rightarrow> xml_reader option \<Rightarrow> go_error + xml_reader" where
  "child_reader children c r = (case r of Some r' \<Rightarrow> Inr r' | None \<Rightarrow> TokenReader (children ! c))"

lemma reader_weight_child:
  "c < length (raw_children v) \<Longrightarrow> child_reader (raw_children v) c r = Inr r' \<Longrightarrow>
    reader_weight r' < reader_weight (XmlReader v st en c r)"
  by (cases r; cases "raw_children v ! c")
    (auto simp: child_reader_def TokenReader_def simp flip: Cons_nth_drop_Suc)

text \<open>One call of \<open>Token\<close>. Going on with the next child is the same as calling \<open>Token\<close> again in the
  state with the next child, since the start has been delivered and the end has not.\<close>

function Token :: "xml_reader \<Rightarrow> (go_error + xml_token) \<times> xml_reader" where
  "Token (XmlReader v st en c r) =
     (if en then (Inl EOF, XmlReader v st en c r)
      else
        (case v of
           RawXml (StartElement name attr) children \<Rightarrow>
             if \<not> st then (Inr (StartElement name attr), XmlReader v True en c r)
             else if c < length (raw_children v) then
               (case child_reader (raw_children v) c r of
                  Inl err \<Rightarrow> (Inl err, XmlReader v st en c r)
                | Inr r' \<Rightarrow>
                    (case Token r' of
                       (Inl err, r'') \<Rightarrow>
                         if err = EOF then Token (XmlReader v st en (Suc c) None)
                         else (Inl err, XmlReader v st en c (Some r''))
                     | (Inr tok, r'') \<Rightarrow> (Inr tok, XmlReader v st en c (Some r''))))
             else (Inr (EndElement name), XmlReader v st True c r)
         | RawXml tok children \<Rightarrow> (Inr tok, XmlReader v st True c r)
         | RawOut out \<Rightarrow> (Inl Panics, XmlReader v st en c r)))"
  by pat_completeness auto
termination
  by (relation "measure reader_weight")
    (auto simp: reader_weight_next reader_weight_child simp del: reader_weight.simps)

declare Token.simps [simp del]

text \<open>Reading to the end, at most \<open>n\<close> calls.\<close>

fun read_tokens :: "nat \<Rightarrow> xml_reader \<Rightarrow> (xml_token list \<times> go_error) option" where
  "read_tokens 0 r = None"
| "read_tokens (Suc n) r =
     (case Token r of
        (Inl err, r') \<Rightarrow> Some ([], err)
      | (Inr tok, r') \<Rightarrow> map_option (\<lambda>(ts, err). (tok # ts, err)) (read_tokens n r'))"

section \<open>The tokens of a value\<close>

fun raw_tokens :: "raw_xml \<Rightarrow> xml_token list" where
  "raw_tokens (RawXml (StartElement name attr) cs) =
     StartElement name attr # concat (map raw_tokens cs) @ [EndElement name]"
| "raw_tokens (RawXml tok cs) = [tok]"
| "raw_tokens (RawOut out) = out"

text \<open>The values that \<open>UnmarshalXML\<close> makes: only elements have children, no token is an end element.\<close>

fun is_start :: "xml_token \<Rightarrow> bool" where
  "is_start (StartElement name attr) = True"
| "is_start _ = False"

fun is_end :: "xml_token \<Rightarrow> bool" where
  "is_end (EndElement name) = True"
| "is_end _ = False"

fun decoded_raw :: "raw_xml \<Rightarrow> bool" where
  "decoded_raw (RawXml tok cs) = ((if is_start tok then list_all decoded_raw cs else cs = []) \<and> \<not> is_end tok)"
| "decoded_raw (RawOut out) = False"

lemma encode_tokens_append:
  "encode_tokens enc (ts @ us) e =
     (case encode_tokens enc ts e of (Some err, e') \<Rightarrow> (Some err, e') | (None, e') \<Rightarrow> encode_tokens enc us e')"
  by (induction ts arbitrary: e) (auto split: prod.splits option.splits)

lemma encode_tokens_single: "encode_tokens enc [t] e = enc t e"
  by (auto split: prod.splits option.splits)

lemma marshal_tokens:
  fixes enc :: "'e encoder"
  shows "decoded_raw v \<Longrightarrow> MarshalXML enc v e = encode_tokens enc (raw_tokens v) e"
    and "list_all decoded_raw cs \<Longrightarrow> marshal_children enc cs e = encode_tokens enc (concat (map raw_tokens cs)) e"
proof (induction enc v e and enc cs e rule: MarshalXML_marshal_children.induct)
  case (2 enc name attr children e)
  then show ?case
    by (auto simp: encode_tokens_append encode_tokens_single split: prod.splits option.splits)
qed (auto simp: encode_tokens_append split: prod.splits option.splits)

lemma unmarshal_tokens:
  shows "decoded_raw v \<Longrightarrow> unmarshal_children eof (raw_tokens v @ ts) =
      (case unmarshal_children eof ts of
         (Inl err, rest) \<Rightarrow> (Inl err, rest) | (Inr ds, rest) \<Rightarrow> (Inr (v # ds), rest))"
proof (induction v arbitrary: ts)
  case (RawXml tok cs)
  have children: "list_all decoded_raw ds \<Longrightarrow> set ds \<subseteq> set cs \<Longrightarrow>
      unmarshal_children eof (concat (map raw_tokens ds) @ EndElement name # us) = (Inr ds, us)" for ds name us
    by (induction ds) (auto simp: RawXml.IH)
  show ?case
  proof (cases tok)
    case (StartElement name attr)
    then show ?thesis using RawXml.prems children [of cs name ts] by (simp add: StartElement split: prod.splits sum.splits)
  qed (use RawXml.prems in \<open>auto split: prod.splits sum.splits\<close>)
qed simp

lemma unmarshal_children_tokens:
  "list_all decoded_raw cs \<Longrightarrow>
    unmarshal_children eof (concat (map raw_tokens cs) @ EndElement name # ts) = (Inr cs, ts)"
  by (induction cs) (auto simp: unmarshal_tokens)

lemma unmarshal_children_decoded:
  "unmarshal_children eof ts = (Inr cs, rest) \<Longrightarrow> list_all decoded_raw cs \<and> suffix rest ts"
proof (induction eof ts arbitrary: cs rest rule: unmarshal_children.induct)
  case (2 eof name attr ts)
  then show ?case
    by (fastforce split: prod.splits sum.splits intro: suffix_ConsI dest: suffix_order.trans)
qed (fastforce split: prod.splits sum.splits intro: suffix_ConsI)+

section \<open>The reader\<close>

fun pending :: "xml_reader \<Rightarrow> xml_token list" where
  "pending (XmlReader v st en c r) =
     (if en then []
      else
        (case v of
           RawXml (StartElement name attr) children \<Rightarrow>
             (if \<not> st then raw_tokens v
              else (case r of
                      None \<Rightarrow> concat (map raw_tokens (drop c children))
                    | Some r' \<Rightarrow> pending r' @ concat (map raw_tokens (drop (Suc c) children)))
                   @ [EndElement name])
         | RawXml tok children \<Rightarrow> [tok]
         | RawOut out \<Rightarrow> []))"

fun reader_ok :: "xml_reader \<Rightarrow> bool" where
  "reader_ok (XmlReader v st en c r) =
     (decoded_raw v \<and> (st \<or> c = 0 \<and> r = None)
      \<and> (case r of None \<Rightarrow> True | Some r' \<Rightarrow> c < length (raw_children v) \<and> reader_ok r'))"

lemma fresh_reader:
  assumes "decoded_raw v"
  shows "TokenReader v = Inr (XmlReader v False False 0 None)"
    and "reader_ok (XmlReader v False False 0 None)"
    and "pending (XmlReader v False False 0 None) = raw_tokens v"
  using assms by (cases v; auto simp: TokenReader_def split: xml_token.splits)+

lemma child_reader_ok:
  assumes "reader_ok (XmlReader v True False c r)" "c < length (raw_children v)" "v = RawXml (StartElement name attr) cs"
  shows "\<exists>r'. child_reader cs c r = Inr r' \<and> reader_ok r'
    \<and> pending (XmlReader v True False c r)
      = pending r' @ concat (map raw_tokens (drop (Suc c) cs)) @ [EndElement name]"
proof (cases r)
  case None
  have "decoded_raw (cs ! c)" using assms by (auto simp: list_all_length)
  then show ?thesis using assms(2,3) None fresh_reader [of "cs ! c"]
    by (auto simp: child_reader_def simp flip: Cons_nth_drop_Suc)
next
  case (Some r')
  then show ?thesis using assms by (auto simp: child_reader_def)
qed

lemma Token_pending:
  assumes "reader_ok r"
  shows "reader_ok (snd (Token r)) \<and>
    (case pending r of
       [] \<Rightarrow> fst (Token r) = Inl EOF
     | t # ts \<Rightarrow> fst (Token r) = Inr t \<and> pending (snd (Token r)) = ts)"
  using assms
proof (induction "reader_weight r" arbitrary: r rule: less_induct)
  case less
  obtain v st en c k where r: "r = XmlReader v st en c k" by (cases r)
  show ?case
  proof (cases "\<not> en \<and> st \<and> (\<exists>name attr cs. v = RawXml (StartElement name attr) cs)")
    case False
    show ?thesis
    proof (cases en)
      case True
      then have "Token r = (Inl EOF, r)" by (simp add: r Token.simps)
      then show ?thesis using True less.prems r by simp
    next
      case en: False
      obtain tok cs where v: "v = RawXml tok cs" using less.prems r by (cases v) auto
      show ?thesis
      proof (cases "is_start tok")
        case True
        then have "\<not> st" "\<exists>name attr. tok = StartElement name attr"
          using False en v by (cases tok; auto)+
        then have "Token r = (Inr tok, XmlReader v True en c k)" using en v by (auto simp: r Token.simps)
        then show ?thesis using True less.prems r v \<open>\<not> st\<close> en by (cases tok) auto
      next
        case False
        then have "Token r = (Inr tok, XmlReader v st True c k)"
          using en v by (cases tok) (auto simp: r Token.simps)
        then show ?thesis using False less.prems r v en by (cases tok) auto
      qed
    qed
  next
    case True
    then obtain name attr cs where v: "v = RawXml (StartElement name attr) cs" and en: "\<not> en" "st"
      by blast
    show ?thesis
    proof (cases "c < length cs")
      case False
      then show ?thesis
        using less.prems v en r by (cases k) (auto simp: Token.simps)
    next
      case True
      then have c: "c < length (raw_children v)" using v by simp
      have ok: "reader_ok (XmlReader v True False c k)" using less.prems r en by simp
      obtain k' where k': "child_reader cs c k = Inr k'" "reader_ok k'"
          "pending r = pending k' @ concat (map raw_tokens (drop (Suc c) cs)) @ [EndElement name]"
        using child_reader_ok [OF ok c v] en r by auto
      have unfold_r: "Token r =
          (case Token k' of
             (Inl err, k'') \<Rightarrow>
               if err = EOF then Token (XmlReader v st en (Suc c) None)
               else (Inl err, XmlReader v st en c (Some k''))
           | (Inr tok, k'') \<Rightarrow> (Inr tok, XmlReader v st en c (Some k'')))"
        unfolding r by (subst Token.simps) (use v en k'(1) True in simp)
      have IH1: "reader_ok (snd (Token k')) \<and>
          (case pending k' of [] \<Rightarrow> fst (Token k') = Inl EOF
           | t # ts \<Rightarrow> fst (Token k') = Inr t \<and> pending (snd (Token k')) = ts)"
        using less.hyps [OF _ k'(2)] reader_weight_child [OF c, of k k' st en] k'(1) v r by simp
      let ?next = "XmlReader v st en (Suc c) None"
      have next_ok: "reader_ok ?next" using ok en by simp
      have IH2: "reader_ok (snd (Token ?next)) \<and>
          (case pending ?next of [] \<Rightarrow> fst (Token ?next) = Inl EOF
           | t # ts \<Rightarrow> fst (Token ?next) = Inr t \<and> pending (snd (Token ?next)) = ts)"
        using less.hyps [OF _ next_ok] reader_weight_next [OF c, of st en k] r by simp
      show ?thesis
      proof (cases "pending k'")
        case Nil
        then have "Token r = Token ?next" using IH1 unfold_r by (cases "Token k'") auto
        moreover have "pending r = pending ?next" using k'(3) Nil v en by simp
        ultimately show ?thesis using IH2 by (simp only:)
      next
        case (Cons t ts)
        then obtain k'' where "Token k' = (Inr t, k'')" "reader_ok k''" "pending k'' = ts"
          using IH1 by (cases "Token k'") auto
        then show ?thesis using unfold_r k'(3) Cons v en ok True by simp
      qed
    qed
  qed
qed

lemma read_tokens_pending:
  "reader_ok r \<Longrightarrow> length (pending r) < n \<Longrightarrow> read_tokens n r = Some (pending r, EOF)"
proof (induction n arbitrary: r)
  case (Suc n)
  show ?case
  proof (cases "pending r")
    case Nil
    then show ?thesis using Token_pending [OF Suc.prems(1)] by (cases "Token r") simp
  next
    case (Cons t ts)
    then obtain r' where "Token r = (Inr t, r')" "reader_ok r'" "pending r' = ts"
      using Token_pending [OF Suc.prems(1)] by (cases "Token r") auto
    then show ?thesis using Suc Cons by simp
  qed
qed simp

section \<open>Writing, reading and reading back\<close>

text \<open>An encoder that only collects.\<close>

definition collect :: "xml_token list encoder" where
  "collect t ts = (None, ts @ [t])"

lemma encode_collect: "encode_tokens collect ts us = (None, us @ ts)"
  by (induction ts arbitrary: us) (auto simp: collect_def)

lemma MarshalXML_collect: "decoded_raw v \<Longrightarrow> MarshalXML collect v us = (None, us @ raw_tokens v)"
  by (simp only: marshal_tokens encode_collect)

text \<open>C28: A decoder over the token reader of a value gets exactly the tokens that the value writes to an
  encoder, in order, and then the end of the stream: one call of \<open>Token\<close> per token, however deeply the
  value nests.\<close>

theorem TokenReader_delivers:
  assumes "decoded_raw v"
  shows "\<exists>r ts. TokenReader v = Inr r \<and> MarshalXML collect v [] = (None, ts)
    \<and> read_tokens (Suc (length ts)) r = Some (ts, EOF)"
  using fresh_reader [OF assms] MarshalXML_collect [OF assms]
    read_tokens_pending [of "XmlReader v False False 0 None" "Suc (length (raw_tokens v))"]
  by auto

definition sample_raw :: raw_xml where
  "sample_raw =
     NewRawXMLElement \<lparr>xn_space = ''DAV:'', xn_local = ''prop''\<rparr> []
       [NewRawXMLElement \<lparr>xn_space = ''DAV:'', xn_local = ''getcontentlength''\<rparr> [] [RawXml (CharData ''12'') []],
        RawXml (Comment ''x'') [],
        NewRawXMLElement \<lparr>xn_space = ''DAV:'', xn_local = ''resourcetype''\<rparr> [] []]"

lemma sample_raw_decoded: "decoded_raw sample_raw"
  by (simp add: sample_raw_def NewRawXMLElement_def)

theorem TokenReader_delivers_witness:
  "\<exists>r ts. TokenReader sample_raw = Inr r \<and> MarshalXML collect sample_raw [] = (None, ts)
    \<and> read_tokens (Suc (length ts)) r = Some (ts, EOF)"
  by (rule TokenReader_delivers [OF sample_raw_decoded])

text \<open>C29: Reading back what was written gives the value: the decoder that delivers the written tokens,
  whatever follows them, returns the value and stops right after it.\<close>

theorem UnmarshalXML_MarshalXML:
  assumes "decoded_raw (RawXml (StartElement name attr) cs)"
  shows "\<exists>ts. MarshalXML collect (RawXml (StartElement name attr) cs) [] = (None, StartElement name attr # ts)
    \<and> UnmarshalXML eof name attr (ts @ rest) = (Inr (RawXml (StartElement name attr) cs), rest)"
  using assms unmarshal_children_tokens [of cs eof name rest]
  unfolding MarshalXML_collect [OF assms] by (auto simp: UnmarshalXML_def)

theorem UnmarshalXML_MarshalXML_witness:
  "\<exists>ts. MarshalXML collect (RawXml (StartElement \<lparr>xn_space = ''DAV:'', xn_local = ''set''\<rparr> []) [sample_raw]) []
      = (None, StartElement \<lparr>xn_space = ''DAV:'', xn_local = ''set''\<rparr> [] # ts)
    \<and> UnmarshalXML ErrUnexpectedEOF \<lparr>xn_space = ''DAV:'', xn_local = ''set''\<rparr> [] (ts @ [CharData ''rest''])
      = (Inr (RawXml (StartElement \<lparr>xn_space = ''DAV:'', xn_local = ''set''\<rparr> []) [sample_raw]), [CharData ''rest''])"
  by (rule UnmarshalXML_MarshalXML) (simp add: sample_raw_decoded)

text \<open>C27: Whatever the decoder delivers, a value that \<open>UnmarshalXML\<close> returns is well formed: elements carry
  the children, no token is an end element, nothing in it can only be written. So the panics of
  \<open>MarshalXML\<close> and \<open>TokenReader\<close> cannot happen on it, and what is left unread is a suffix of the input.\<close>

theorem UnmarshalXML_well_formed:
  assumes "UnmarshalXML eof name attr ts = (Inr v, rest)"
  shows "decoded_raw v \<and> suffix rest ts \<and> fst (MarshalXML collect v []) = None \<and> TokenReader v \<noteq> Inl Panics"
proof -
  have "decoded_raw v \<and> suffix rest ts"
    using assms unmarshal_children_decoded by (auto simp: UnmarshalXML_def split: prod.splits sum.splits)
  then show ?thesis
    using MarshalXML_collect [of v "[]"] fresh_reader(1) [of v] by simp
qed

theorem UnmarshalXML_well_formed_witness:
  "decoded_raw sample_raw \<and> suffix [] (tl (raw_tokens sample_raw))
    \<and> fst (MarshalXML collect sample_raw []) = None \<and> TokenReader sample_raw \<noteq> Inl Panics"
proof (rule UnmarshalXML_well_formed)
  show "UnmarshalXML EOF \<lparr>xn_space = ''DAV:'', xn_local = ''prop''\<rparr> [] (tl (raw_tokens sample_raw)) = (Inr sample_raw, [])"
    by (simp add: UnmarshalXML_def sample_raw_def NewRawXMLElement_def)
qed

end
