(* ===== verification/Dav_Types.thy ===== *)
theory Dav_Types
  imports Dav_Values Go_Url Filesystem
begin

text \<open>
  The values of the WebDAV protocol (\<open>client/types.go\<close>, \<open>status.go\<close>, \<open>href.go\<close>, \<open>errors.go\<close>,
  \<open>multi_status.go\<close>): header values, status lines, properties, and the multi-status answer with
  the file information read from one of its responses.

  Package \<open>encoding/xml\<close> decodes an element into a struct by the tags of its fields; the
  functions \<open>decode_*\<close> below do this for the structs of the client, field by field in document
  order (an element of a field must be in the namespace of the struct, \<open>DAV:\<close>; an element that
  belongs to no field is skipped). \<open>http.ParseTime\<close> is the parameter \<open>parse_time\<close>.
\<close>

section \<open>Header values\<close>

definition DepthZero :: int where "DepthZero = 0"
definition DepthOne :: int where "DepthOne = 1"
definition DepthInfinity :: int where "DepthInfinity = -1"

definition ParseDepth :: "string \<Rightarrow> go_error + int" where
  "ParseDepth s =
     (if s = ''0'' then Inr DepthZero
      else if s = ''1'' then Inr DepthOne
      else if s = ''infinity'' then Inr DepthInfinity
      else Inl (ErrorString ''webdav: invalid Depth value''))"

definition Depth_String :: "int \<Rightarrow> go_error + string" where
  "Depth_String d =
     (if d = DepthZero then Inr ''0''
      else if d = DepthOne then Inr ''1''
      else if d = DepthInfinity then Inr ''infinity''
      else Inl Panics)"

definition ParseOverwrite :: "string \<Rightarrow> go_error + bool" where
  "ParseOverwrite s =
     (if s = ''T'' then Inr True
      else if s = ''F'' then Inr False
      else Inl (ErrorString ''webdav: invalid Overwrite value''))"

definition FormatOverwrite :: "bool \<Rightarrow> string" where
  "FormatOverwrite overwrite = (if overwrite then ''T'' else ''F'')"

section \<open>Status lines and HTTP errors\<close>

text \<open>\<open>http.StatusText\<close>.\<close>

definition status_texts :: "(int \<times> string) list" where
  "status_texts =
     [(100, ''Continue''), (101, ''Switching Protocols''), (102, ''Processing''), (103, ''Early Hints''),
      (200, ''OK''), (201, ''Created''), (202, ''Accepted''), (203, ''Non-Authoritative Information''),
      (204, ''No Content''), (205, ''Reset Content''), (206, ''Partial Content''), (207, ''Multi-Status''),
      (208, ''Already Reported''), (226, ''IM Used''), (300, ''Multiple Choices''), (301, ''Moved Permanently''),
      (302, ''Found''), (303, ''See Other''), (304, ''Not Modified''), (305, ''Use Proxy''),
      (307, ''Temporary Redirect''), (308, ''Permanent Redirect''), (400, ''Bad Request''), (401, ''Unauthorized''),
      (402, ''Payment Required''), (403, ''Forbidden''), (404, ''Not Found''), (405, ''Method Not Allowed''),
      (406, ''Not Acceptable''), (407, ''Proxy Authentication Required''), (408, ''Request Timeout''),
      (409, ''Conflict''), (410, ''Gone''), (411, ''Length Required''), (412, ''Precondition Failed''),
      (413, ''Request Entity Too Large''), (414, ''Request URI Too Long''), (415, ''Unsupported Media Type''),
      (416, ''Requested Range Not Satisfiable''), (417, ''Expectation Failed''), (418, ''I'' @ [CHR 0x27] @ ''m a teapot''),
      (421, ''Misdirected Request''), (422, ''Unprocessable Entity''), (423, ''Locked''), (424, ''Failed Dependency''),
      (425, ''Too Early''), (426, ''Upgrade Required''), (428, ''Precondition Required''), (429, ''Too Many Requests''),
      (431, ''Request Header Fields Too Large''), (451, ''Unavailable For Legal Reasons''),
      (500, ''Internal Server Error''), (501, ''Not Implemented''), (502, ''Bad Gateway''), (503, ''Service Unavailable''),
      (504, ''Gateway Timeout''), (505, ''HTTP Version Not Supported''), (506, ''Variant Also Negotiates''),
      (507, ''Insufficient Storage''), (508, ''Loop Detected''), (510, ''Not Extended''),
      (511, ''Network Authentication Required'')]"

definition status_text :: "int \<Rightarrow> string" where
  "status_text code = (case map_of status_texts code of Some t \<Rightarrow> t | None \<Rightarrow> [])"

record dav_status =
  st_code :: int
  st_text :: string

definition Status_MarshalText :: "dav_status \<Rightarrow> bytes" where
  "Status_MarshalText s =
     ''HTTP/1.1 '' @ format_int (st_code s) @ '' ''
     @ (if st_text s = [] then status_text (st_code s) else st_text s)"

text \<open>The new value of the receiver; \<open>SplitN\<close> in three at spaces is two cuts.\<close>

definition Status_UnmarshalText :: "dav_status \<Rightarrow> bytes \<Rightarrow> go_error + dav_status" where
  "Status_UnmarshalText s b =
     (if b = [] then Inr s
      else
        (let (proto, rest, more) = cut CHR '' '' b; (code, text, more') = cut CHR '' '' rest in
         if \<not> more \<or> \<not> more' then Inl (WrapError ''webdav: invalid HTTP status'' (ErrorString ''expected 3 fields''))
         else
           (case parse_int 64 code of
              None \<Rightarrow> Inl (WrapError ''webdav: invalid HTTP status'' (ErrorString ''failed to parse code''))
            | Some c \<Rightarrow> Inr \<lparr>st_code = c, st_text = text\<rparr>)))"

definition Status_Err :: "dav_status option \<Rightarrow> go_error option" where
  "Status_Err st =
     (case st of
        None \<Rightarrow> None
      | Some s \<Rightarrow> if st_code s \<noteq> 200 then Some (HTTPError (st_code s) None) else None)"

definition HTTPErrorFromError :: "go_error option \<Rightarrow> go_error option" where
  "HTTPErrorFromError err =
     (case err of
        None \<Rightarrow> None
      | Some (HTTPError code e) \<Rightarrow> Some (HTTPError code e)
      | Some e \<Rightarrow> Some (HTTPError 500 (Some e)))"

definition IsNotFound :: "go_error \<Rightarrow> bool" where
  "IsNotFound err = (as_http err = Some 404)"

definition HTTPErrorf :: "int \<Rightarrow> string \<Rightarrow> go_error" where
  "HTTPErrorf code msg = HTTPError code (Some (ErrorString msg))"

text \<open>\<open>Error\<close>, with the text of the wrapped error.\<close>

definition HTTPError_Error :: "int \<Rightarrow> string option \<Rightarrow> string" where
  "HTTPError_Error code inner =
     format_int code @ '' '' @ status_text code @ (case inner of Some e \<Rightarrow> '': '' @ e | None \<Rightarrow> [])"

definition Href_UnmarshalText :: "(string \<Rightarrow> go_error + string) \<Rightarrow> bytes \<Rightarrow> go_error + url" where
  "Href_UnmarshalText ip b = url_parse ip b"

definition Href_String :: "url \<Rightarrow> string" where
  "Href_String h = url_string h"

definition Href_MarshalText :: "url \<Rightarrow> bytes" where
  "Href_MarshalText h = Href_String h"

section \<open>Names and properties\<close>

definition dav_name :: "string \<Rightarrow> xml_name" where
  "dav_name local = \<lparr>xn_space = ''DAV:'', xn_local = local\<rparr>"

definition ResourceTypeName :: xml_name where "ResourceTypeName = dav_name ''resourcetype''"
definition GetContentLengthName :: xml_name where "GetContentLengthName = dav_name ''getcontentlength''"
definition GetContentTypeName :: xml_name where "GetContentTypeName = dav_name ''getcontenttype''"
definition GetLastModifiedName :: xml_name where "GetLastModifiedName = dav_name ''getlastmodified''"
definition GetETagName :: xml_name where "GetETagName = dav_name ''getetag''"
definition CollectionName :: xml_name where "CollectionName = dav_name ''collection''"

text \<open>\<open>valueXMLName\<close> looks at the type of the value: what it asks of a type is whether it is a pointer or
  a struct, and of each field the name, whether its type is \<open>xml.Name\<close>, and the tag.\<close>

datatype go_type = GoPtr go_type | GoStruct "(string \<times> bool \<times> string) list" | GoOther

fun valueXMLName :: "go_type \<Rightarrow> go_error + xml_name" where
  "valueXMLName (GoPtr t) = valueXMLName t"
| "valueXMLName GoOther = Inl (ErrorString ''webdav: value is not a struct'')"
| "valueXMLName (GoStruct fds) =
     (case map_of fds ''XMLName'' of
        None \<Rightarrow> Inl (ErrorString ''webdav: missing an XMLName struct field'')
      | Some (is_name, tag) \<Rightarrow>
          if \<not> is_name then Inl (ErrorString ''webdav: XMLName is not an xml.Name'')
          else if tag = [] then Inl (ErrorString ''webdav: XMLName is missing an xml tag'')
          else
            (case split_on CHR '' '' (hd (split_on CHR '','' tag)) of
               [space, local] \<Rightarrow> Inr \<lparr>xn_space = space, xn_local = local\<rparr>
             | _ \<Rightarrow> Inl (ErrorString ''webdav: expected a namespace and local name'')))"

text \<open>A property value: the type of its struct, and how \<open>encoding/xml\<close> fills it from an element.\<close>

record 'v dav_value =
  dv_type :: go_type
  dv_decode :: "raw_xml \<Rightarrow> go_error + 'v"

definition Prop_Get :: "raw_xml list \<Rightarrow> xml_name \<Rightarrow> raw_xml option" where
  "Prop_Get props name = find (\<lambda>raw. XMLName raw = Some name) props"

definition Prop_Decode :: "raw_xml list \<Rightarrow> 'v dav_value \<Rightarrow> go_error + 'v" where
  "Prop_Decode props v =
     (case valueXMLName (dv_type v) of
        Inl err \<Rightarrow> Inl err
      | Inr name \<Rightarrow>
          (case Prop_Get props name of
             None \<Rightarrow> Inl (HTTPErrorf 404 (''missing property '' @ xn_local name))
           | Some raw \<Rightarrow> dv_decode v raw))"

definition EncodeRawXMLElement :: "xml_token list \<Rightarrow> go_error + raw_xml" where
  "EncodeRawXMLElement v = Inr (RawOut v)"

fun EncodeProp :: "xml_token list list \<Rightarrow> go_error + raw_xml list" where
  "EncodeProp [] = Inr []"
| "EncodeProp (v # vs) =
     (case EncodeRawXMLElement v of
        Inl err \<Rightarrow> Inl err
      | Inr raw \<Rightarrow> (case EncodeProp vs of Inl err \<Rightarrow> Inl err | Inr l \<Rightarrow> Inr (raw # l)))"

definition xmlNamesToRaw :: "xml_name list \<Rightarrow> raw_xml list" where
  "xmlNamesToRaw names = map (\<lambda>name. NewRawXMLElement name [] []) names"

definition NewResourceType :: "xml_name list \<Rightarrow> raw_xml list" where
  "NewResourceType names = xmlNamesToRaw names"

definition ResourceType_Is :: "raw_xml list \<Rightarrow> xml_name \<Rightarrow> bool" where
  "ResourceType_Is t name \<longleftrightarrow> list_ex (\<lambda>raw. XMLName raw = Some name) t"

record prop_find =
  pf_prop :: "raw_xml list option"
  pf_all_prop :: bool
  pf_include :: "raw_xml list option"
  pf_prop_name :: bool

definition NewPropNamePropFind :: "xml_name list \<Rightarrow> prop_find" where
  "NewPropNamePropFind names =
     \<lparr>pf_prop = Some (xmlNamesToRaw names), pf_all_prop = False, pf_include = None, pf_prop_name = False\<rparr>"

definition FileInfoPropFind :: prop_find where
  "FileInfoPropFind =
     NewPropNamePropFind
       [ResourceTypeName, GetContentLengthName, GetLastModifiedName, GetContentTypeName, GetETagName]"

text \<open>What encoding the request body gives to the encoder.\<close>

definition element_tokens :: "string \<Rightarrow> xml_token list \<Rightarrow> xml_token list" where
  "element_tokens local inner = StartElement (dav_name local) [] # inner @ [EndElement (dav_name local)]"

definition PropFind_tokens :: "prop_find \<Rightarrow> go_error + xml_token list" where
  "PropFind_tokens pf =
     (case (case pf_prop pf of
              None \<Rightarrow> (None, [])
            | Some raws \<Rightarrow> map_prod id (element_tokens ''prop'') (marshal_children collect raws [])) of
        (Some err, _) \<Rightarrow> Inl err
      | (None, props) \<Rightarrow>
          (case (case pf_include pf of
                   None \<Rightarrow> (None, [])
                 | Some raws \<Rightarrow> map_prod id (element_tokens ''include'') (marshal_children collect raws [])) of
             (Some err, _) \<Rightarrow> Inl err
           | (None, incl) \<Rightarrow>
               Inr (element_tokens ''propfind''
                 (props @ (if pf_all_prop pf then element_tokens ''allprop'' [] else []) @ incl
                  @ (if pf_prop_name pf then element_tokens ''propname'' [] else [])))))"

section \<open>Decoding\<close>

text \<open>The text of an element, and its child elements handed one by one to the field they belong to.\<close>

fun raw_text :: "raw_xml list \<Rightarrow> string" where
  "raw_text [] = []"
| "raw_text (RawXml (CharData d) cs # rs) = d @ raw_text rs"
| "raw_text (_ # rs) = raw_text rs"

fun decode_fields :: "(xml_name \<Rightarrow> raw_xml \<Rightarrow> 'r \<Rightarrow> go_error + 'r) \<Rightarrow> raw_xml list \<Rightarrow> 'r \<Rightarrow> go_error + 'r" where
  "decode_fields field [] r = Inr r"
| "decode_fields field (v # vs) r =
     (case XMLName v of
        None \<Rightarrow> decode_fields field vs r
      | Some name \<Rightarrow>
          (case field name v r of Inl err \<Rightarrow> Inl err | Inr r' \<Rightarrow> decode_fields field vs r'))"

definition decode_any :: "raw_xml list \<Rightarrow> raw_xml list" where
  "decode_any cs = filter (\<lambda>c. XMLName c \<noteq> None) cs"

text \<open>The property structs. The element has the name of the struct: \<open>Prop_Get\<close> looks for it.\<close>

definition xml_struct :: "string \<Rightarrow> go_type" where
  "xml_struct tag = GoPtr (GoStruct [(''XMLName'', True, tag)])"

definition ResourceType :: "raw_xml list dav_value" where
  "ResourceType =
     \<lparr>dv_type = xml_struct ''DAV: resourcetype'', dv_decode = (\<lambda>raw. Inr (decode_any (raw_children raw)))\<rparr>"

definition decode_int64 :: "string \<Rightarrow> go_error + int" where
  "decode_int64 data =
     (if data = [] then Inr 0
      else
        (case parse_int 64 (trim_space data) of
           Some i \<Rightarrow> Inr i
         | None \<Rightarrow> Inl (WrapError ''strconv.ParseInt'' (ErrorString ''invalid syntax''))))"

definition GetContentLength :: "int dav_value" where
  "GetContentLength =
     \<lparr>dv_type = xml_struct ''DAV: getcontentlength'', dv_decode = (\<lambda>raw. decode_int64 (raw_text (raw_children raw)))\<rparr>"

definition GetLastModified :: "(string \<Rightarrow> go_error + int) \<Rightarrow> int dav_value" where
  "GetLastModified parse_time =
     \<lparr>dv_type = xml_struct ''DAV: getlastmodified'', dv_decode = (\<lambda>raw. parse_time (raw_text (raw_children raw)))\<rparr>"

definition GetContentType :: "string dav_value" where
  "GetContentType =
     \<lparr>dv_type = xml_struct ''DAV: getcontenttype'', dv_decode = (\<lambda>raw. Inr (raw_text (raw_children raw)))\<rparr>"

definition DisplayName :: "string dav_value" where
  "DisplayName =
     \<lparr>dv_type = xml_struct ''DAV: displayname'', dv_decode = (\<lambda>raw. Inr (raw_text (raw_children raw)))\<rparr>"

record prop_stat =
  ps_prop :: "raw_xml list"
  ps_status :: dav_status
  ps_description :: string
  ps_error :: "raw_xml list option"

definition decode_prop_stat :: "raw_xml \<Rightarrow> go_error + prop_stat" where
  "decode_prop_stat raw =
     decode_fields
       (\<lambda>name v r.
          if name = dav_name ''prop'' then Inr (r\<lparr>ps_prop := ps_prop r @ decode_any (raw_children v)\<rparr>)
          else if name = dav_name ''status'' then
            map_sum id (\<lambda>st. r\<lparr>ps_status := st\<rparr>) (Status_UnmarshalText (ps_status r) (raw_text (raw_children v)))
          else if name = dav_name ''responsedescription'' then Inr (r\<lparr>ps_description := raw_text (raw_children v)\<rparr>)
          else if name = dav_name ''error'' then
            Inr (r\<lparr>ps_error := Some ((case ps_error r of Some e \<Rightarrow> e | None \<Rightarrow> []) @ decode_any (raw_children v))\<rparr>)
          else Inr r)
       (raw_children raw)
       \<lparr>ps_prop = [], ps_status = \<lparr>st_code = 0, st_text = []\<rparr>, ps_description = [], ps_error = None\<rparr>"

record dav_response =
  rs_hrefs :: "url list"
  rs_prop_stats :: "prop_stat list"
  rs_description :: string
  rs_status :: "dav_status option"
  rs_error :: "raw_xml list option"
  rs_location :: "url option"
  rs_prefix :: string

definition empty_response :: dav_response where
  "empty_response =
     \<lparr>rs_hrefs = [], rs_prop_stats = [], rs_description = [], rs_status = None, rs_error = None, rs_location = None,
      rs_prefix = []\<rparr>"

definition decode_location :: "(string \<Rightarrow> go_error + string) \<Rightarrow> raw_xml \<Rightarrow> url option \<Rightarrow> go_error + url option" where
  "decode_location ip raw loc =
     decode_fields
       (\<lambda>name v r.
          if name = dav_name ''href'' then map_sum id Some (Href_UnmarshalText ip (raw_text (raw_children v))) else Inr r)
       (raw_children raw) (Some (case loc of Some h \<Rightarrow> h | None \<Rightarrow> empty_url))"

definition decode_response :: "(string \<Rightarrow> go_error + string) \<Rightarrow> raw_xml \<Rightarrow> go_error + dav_response" where
  "decode_response ip raw =
     decode_fields
       (\<lambda>name v r.
          if name = dav_name ''href'' then
            map_sum id (\<lambda>h. r\<lparr>rs_hrefs := rs_hrefs r @ [h]\<rparr>) (Href_UnmarshalText ip (raw_text (raw_children v)))
          else if name = dav_name ''propstat'' then
            map_sum id (\<lambda>ps. r\<lparr>rs_prop_stats := rs_prop_stats r @ [ps]\<rparr>) (decode_prop_stat v)
          else if name = dav_name ''responsedescription'' then Inr (r\<lparr>rs_description := raw_text (raw_children v)\<rparr>)
          else if name = dav_name ''status'' then
            map_sum id (\<lambda>st. r\<lparr>rs_status := Some st\<rparr>)
              (Status_UnmarshalText (case rs_status r of Some st \<Rightarrow> st | None \<Rightarrow> \<lparr>st_code = 0, st_text = []\<rparr>)
                 (raw_text (raw_children v)))
          else if name = dav_name ''error'' then
            Inr (r\<lparr>rs_error := Some ((case rs_error r of Some e \<Rightarrow> e | None \<Rightarrow> []) @ decode_any (raw_children v))\<rparr>)
          else if name = dav_name ''location'' then
            map_sum id (\<lambda>h. r\<lparr>rs_location := h\<rparr>) (decode_location ip v (rs_location r))
          else Inr r)
       (raw_children raw) empty_response"

record multi_status =
  ms_responses :: "dav_response list"
  ms_description :: string
  ms_sync_token :: string

definition NewMultiStatus :: "dav_response list \<Rightarrow> multi_status" where
  "NewMultiStatus resps = \<lparr>ms_responses = resps, ms_description = [], ms_sync_token = []\<rparr>"

definition decode_multi_status :: "(string \<Rightarrow> go_error + string) \<Rightarrow> raw_xml \<Rightarrow> go_error + multi_status" where
  "decode_multi_status ip raw =
     (if XMLName raw \<noteq> Some (dav_name ''multistatus'') then Inl (ErrorString ''expected element type <multistatus>'')
      else
        decode_fields
          (\<lambda>name v r.
             if name = dav_name ''response'' then
               map_sum id (\<lambda>resp. r\<lparr>ms_responses := ms_responses r @ [resp]\<rparr>) (decode_response ip v)
             else if name = dav_name ''responsedescription'' then Inr (r\<lparr>ms_description := raw_text (raw_children v)\<rparr>)
             else if name = dav_name ''sync-token'' then Inr (r\<lparr>ms_sync_token := raw_text (raw_children v)\<rparr>)
             else Inr r)
          (raw_children raw) (NewMultiStatus []))"

text \<open>The decoder at the start of a body: it skips to the root element and reads it.\<close>

fun decode_body :: "(raw_xml \<Rightarrow> go_error + 'v) \<Rightarrow> go_error \<Rightarrow> xml_token list \<Rightarrow> go_error + 'v" where
  "decode_body f eof [] = Inl eof"
| "decode_body f eof (StartElement name attr # ts) =
     (case UnmarshalXML eof name attr ts of (Inl err, _) \<Rightarrow> Inl err | (Inr v, _) \<Rightarrow> f v)"
| "decode_body f eof (t # ts) = decode_body f eof ts"

section \<open>Responses\<close>

definition NewOKResponse :: "string \<Rightarrow> dav_response" where
  "NewOKResponse p =
     empty_response\<lparr>rs_hrefs := [empty_url\<lparr>url_path := p\<rparr>], rs_status := Some \<lparr>st_code = 200, st_text = []\<rparr>\<rparr>"

text \<open>\<open>errors.As\<close> for the error element.\<close>

fun as_dav :: "go_error \<Rightarrow> raw_xml list option option" where
  "as_dav (DavError e) = Some e"
| "as_dav (PathError op p e) = as_dav e"
| "as_dav (LinkError op old new e) = as_dav e"
| "as_dav (UrlError op u e) = as_dav e"
| "as_dav (WrapError msg e) = as_dav e"
| "as_dav (HTTPError code (Some e)) = as_dav e"
| "as_dav _ = None"

text \<open>The last argument is \<open>err.Error()\<close>.\<close>

definition NewErrorResponse :: "string \<Rightarrow> go_error \<Rightarrow> string \<Rightarrow> dav_response" where
  "NewErrorResponse p err text =
     empty_response\<lparr>rs_hrefs := [empty_url\<lparr>url_path := p\<rparr>],
       rs_status := Some \<lparr>st_code = (case as_http err of Some code \<Rightarrow> code | None \<Rightarrow> 500), st_text = []\<rparr>,
       rs_description := text, rs_error := (case as_dav err of Some e \<Rightarrow> e | None \<Rightarrow> None)\<rparr>"

text \<open>\<open>Err\<close>: the interface value made from the pointer \<open>resp.Error\<close> is never nil, also when the pointer
  is; so the status error always wraps something. Division rounds to zero.\<close>

definition Response_Err :: "dav_response \<Rightarrow> go_error option" where
  "Response_Err resp =
     (case rs_status resp of
        None \<Rightarrow> None
      | Some st \<Rightarrow>
          if 200 \<le> st_code st \<and> st_code st < 300 then None
          else
            Some (HTTPError (st_code st)
              (Some (if rs_description resp \<noteq> [] then WrapError (rs_description resp) (DavError (rs_error resp))
                     else DavError (rs_error resp)))))"

definition Response_Path :: "dav_response \<Rightarrow> string \<times> go_error option" where
  "Response_Path resp =
     (let err = Response_Err resp;
          (p, err') =
            (case rs_hrefs resp of
               [h] \<Rightarrow> (url_path h, err)
             | _ \<Rightarrow> ([], if err = None then Some (ErrorString ''webdav: malformed response'') else err)) in
      (if p \<noteq> [] \<and> rs_prefix resp \<noteq> [] \<and> rs_prefix resp \<noteq> ''/'' then trim_prefix p (rs_prefix resp) else p, err'))"

definition newPropError :: "xml_name \<Rightarrow> go_error \<Rightarrow> go_error" where
  "newPropError name err = WrapError (''property <'' @ xn_space name @ '' '' @ xn_local name @ ''>'') err"

text \<open>\<open>DecodeProp\<close> for one value; the first \<open>propstat\<close> that has the property decides.\<close>

definition Response_DecodeProp :: "dav_response \<Rightarrow> 'v dav_value \<Rightarrow> go_error + 'v" where
  "Response_DecodeProp resp v =
     (case valueXMLName (dv_type v) of
        Inl err \<Rightarrow> Inl err
      | Inr name \<Rightarrow>
          (case Response_Err resp of
             Some err \<Rightarrow> Inl (newPropError name err)
           | None \<Rightarrow>
               (case find (\<lambda>ps. Prop_Get (ps_prop ps) name \<noteq> None) (rs_prop_stats resp) of
                  None \<Rightarrow> Inl (newPropError name (HTTPError 404 (Some (ErrorString ''missing property''))))
                | Some ps \<Rightarrow>
                    (case Status_Err (Some (ps_status ps)) of
                       Some err \<Rightarrow> Inl (newPropError name err)
                     | None \<Rightarrow>
                         (case dv_decode v (the (Prop_Get (ps_prop ps) name)) of
                            Inl err \<Rightarrow> Inl (newPropError name err)
                          | Inr x \<Rightarrow> Inr x)))))"

definition Response_FileInfo :: "(string \<Rightarrow> go_error + int) \<Rightarrow> dav_response \<Rightarrow> go_error + file_info" where
  "Response_FileInfo parse_time resp =
     (case Response_Path resp of
        (_, Some err) \<Rightarrow> Inl err
      | (pathname, None) \<Rightarrow>
          (case Response_DecodeProp resp ResourceType of
             Inl err \<Rightarrow> Inl err
           | Inr resType \<Rightarrow>
               if ResourceType_Is resType CollectionName then Inr (NewDirFileInfo (path_base pathname))
               else
                 (case Response_DecodeProp resp GetContentLength of
                    Inl err \<Rightarrow> Inl err
                  | Inr len \<Rightarrow>
                      (case Response_DecodeProp resp (GetLastModified parse_time) of
                         Inl err \<Rightarrow>
                           if IsNotFound err then Inr (NewFileInfo (path_base pathname) len 0) else Inl err
                       | Inr t \<Rightarrow> Inr (NewFileInfo (path_base pathname) len t)))))"

definition Response_EncodeProp :: "dav_response \<Rightarrow> int \<Rightarrow> xml_token list \<Rightarrow> go_error option \<times> dav_response" where
  "Response_EncodeProp resp code v =
     (case EncodeRawXMLElement v of
        Inl err \<Rightarrow> (Some err, resp)
      | Inr raw \<Rightarrow>
          (let pss = rs_prop_stats resp;
               before = takeWhile (\<lambda>ps. st_code (ps_status ps) \<noteq> code) pss;
               after = dropWhile (\<lambda>ps. st_code (ps_status ps) \<noteq> code) pss in
           (None,
            resp\<lparr>rs_prop_stats :=
              (case after of
                 ps # rest \<Rightarrow> before @ ps\<lparr>ps_prop := ps_prop ps @ [raw]\<rparr> # rest
               | [] \<Rightarrow> pss @ [\<lparr>ps_prop = [raw], ps_status = \<lparr>st_code = code, st_text = []\<rparr>,
                              ps_description = [], ps_error = None\<rparr>])\<rparr>)))"

end
