(* ===== verification/Dav_Client.thy ===== *)
theory Dav_Client
  imports Dav_Types Strfmt
begin

text \<open>
  The WebDAV client (\<open>client/client.go\<close>, \<open>client/file.go\<close>) and its configuration
  (\<open>webdav/config.go\<close>). HTTP is a parameter: the record of a client holds, besides the endpoint,
  what \<open>http.DefaultClient.Do\<close> answers to a request (a status code and a body, over the outside
  state), how a body is read and closed, and the XML tokens a decoder gets from a body, with the
  error that comes after them.

  The body of an upload is a pipe that the request reads in a goroutine of its own. \<open>dc_feed\<close> is what
  the running request does with the next bytes of the pipe: it takes them, or it closes its end
  after some of them. \<open>dc_finish\<close> is what becomes of the outside once the pipe has ended: nothing
  waits for the request, and nobody sees its answer.
\<close>

section \<open>Requests\<close>

datatype dav_body = NoBody | XmlBody "xml_token list" | PipeBody

record dav_request =
  rq_method :: string
  rq_url :: url
  rq_header :: "(string \<times> string) list"
  rq_body :: dav_body

record ('b, 's) dav_client =
  dc_endpoint :: url
  dc_ip_literal :: "string \<Rightarrow> go_error + string"
  dc_parse_time :: "string \<Rightarrow> go_error + int"
  dc_do :: "dav_request \<Rightarrow> 's \<Rightarrow> (go_error + int \<times> 'b) \<times> 's"
  dc_read :: "'b \<Rightarrow> nat \<Rightarrow> 's \<Rightarrow> (int \<times> bytes \<times> go_error option) \<times> 'b \<times> 's"
  dc_close :: "'b \<Rightarrow> 's \<Rightarrow> go_error option \<times> 's"
  dc_xml :: "'b \<Rightarrow> 's \<Rightarrow> (xml_token list \<times> go_error) \<times> 's"
  dc_feed :: "dav_request \<Rightarrow> bytes \<Rightarrow> bytes \<Rightarrow> 's \<Rightarrow> nat option \<times> 's"
  dc_finish :: "dav_request \<Rightarrow> bytes \<Rightarrow> 's \<Rightarrow> 's"

definition header_add :: "string \<Rightarrow> string \<Rightarrow> dav_request \<Rightarrow> dav_request" where
  "header_add k v r = r\<lparr>rq_header := rq_header r @ [(k, v)]\<rparr>"

definition header_set :: "string \<Rightarrow> string \<Rightarrow> dav_request \<Rightarrow> dav_request" where
  "header_set k v r = r\<lparr>rq_header := filter (\<lambda>(k', _). k' \<noteq> k) (rq_header r) @ [(k, v)]\<rparr>"

definition header_get :: "string \<Rightarrow> dav_request \<Rightarrow> string option" where
  "header_get k r = map_of (rq_header r) k"

definition ResolveHref :: "('b, 's) dav_client \<Rightarrow> string \<Rightarrow> go_error + url" where
  "ResolveHref c p =
     (let u = dc_endpoint c in Inr (u\<lparr>url_path := path_join [url_path u, trim_left slash p]\<rparr>))"

text \<open>\<open>http.NewRequest\<close> parses the printed URL again, and drops a colon with no port after it.\<close>

definition remove_empty_port :: "string \<Rightarrow> string" where
  "remove_empty_port host =
     (if has_suffix host '':'' \<and> \<not> (case last_index CHR '':'' host of Some i \<Rightarrow> CHR '']'' \<in> set (drop i host) | None \<Rightarrow> False)
      then butlast host else host)"

definition client_req :: "('b, 's) dav_client \<Rightarrow> string \<Rightarrow> string \<Rightarrow> dav_body \<Rightarrow> go_error + dav_request" where
  "client_req c method p body =
     (case ResolveHref c p of
        Inl err \<Rightarrow> Inl err
      | Inr h \<Rightarrow>
          (case url_parse (dc_ip_literal c) (url_string h) of
             Inl err \<Rightarrow> Inl err
           | Inr u \<Rightarrow>
               Inr \<lparr>rq_method = method, rq_url = u\<lparr>url_host := remove_empty_port (url_host u)\<rparr>,
                    rq_header = [], rq_body = body\<rparr>))"

definition client_reqXML :: "('b, 's) dav_client \<Rightarrow> string \<Rightarrow> string \<Rightarrow> prop_find \<Rightarrow> go_error + dav_request" where
  "client_reqXML c method p v =
     (case PropFind_tokens v of
        Inl err \<Rightarrow> Inl err
      | Inr tokens \<Rightarrow>
          (case client_req c method p (XmlBody tokens) of
             Inl err \<Rightarrow> Inl err
           | Inr r \<Rightarrow> Inr (header_add ''Content-Type'' ''text/xml; charset=utf-8'' r)))"

definition client_do :: "('b, 's) dav_client \<Rightarrow> dav_request \<Rightarrow> 's \<Rightarrow> (go_error + int \<times> 'b) \<times> 's" where
  "client_do c r s = dc_do c r s"

definition client_doSimple :: "('b, 's) dav_client \<Rightarrow> dav_request \<Rightarrow> 's \<Rightarrow> go_error option \<times> 's" where
  "client_doSimple c r s =
     (case client_do c r s of
        (Inl err, s1) \<Rightarrow> (Some err, s1)
      | (Inr (code, body), s1) \<Rightarrow>
          (if 400 \<le> code then Some (HTTPError code None) else None, snd (dc_close c body s1)))"

definition client_doMultiStatus :: "('b, 's) dav_client \<Rightarrow> dav_request \<Rightarrow> 's \<Rightarrow> (go_error + multi_status) \<times> 's" where
  "client_doMultiStatus c r s =
     (case client_do c r s of
        (Inl err, s1) \<Rightarrow> (Inl err, s1)
      | (Inr (code, body), s1) \<Rightarrow>
          if code \<noteq> 207 then
            (Inr (NewMultiStatus
               [NewErrorResponse (url_path (rq_url r)) (HTTPError code None) (HTTPError_Error code None)]),
             snd (dc_close c body s1))
          else
            (case dc_xml c body s1 of
               ((tokens, eof), s2) \<Rightarrow>
                 (map_sum id
                    (\<lambda>ms. ms\<lparr>ms_responses := map (\<lambda>resp. resp\<lparr>rs_prefix := url_path (dc_endpoint c)\<rparr>) (ms_responses ms)\<rparr>)
                    (decode_body (decode_multi_status (dc_ip_literal c)) eof tokens),
                  snd (dc_close c body s2))))"

section \<open>Operations\<close>

definition client_PropFind ::
  "('b, 's) dav_client \<Rightarrow> string \<Rightarrow> int \<Rightarrow> prop_find option \<Rightarrow> 's \<Rightarrow> (go_error + multi_status) \<times> 's" where
  "client_PropFind c p depth propfind s =
     (case client_reqXML c ''PROPFIND'' p (case propfind of Some pf \<Rightarrow> pf | None \<Rightarrow> FileInfoPropFind) of
        Inl err \<Rightarrow> (Inl err, s)
      | Inr r \<Rightarrow>
          (case Depth_String depth of
             Inl err \<Rightarrow> (Inl err, s)
           | Inr d \<Rightarrow> client_doMultiStatus c (header_add ''Depth'' d r) s))"

definition client_MkCol :: "('b, 's) dav_client \<Rightarrow> string \<Rightarrow> 's \<Rightarrow> go_error option \<times> 's" where
  "client_MkCol c name s =
     (case client_req c ''MKCOL'' name NoBody of Inl err \<Rightarrow> (Some err, s) | Inr r \<Rightarrow> client_doSimple c r s)"

definition client_Delete :: "('b, 's) dav_client \<Rightarrow> string \<Rightarrow> 's \<Rightarrow> go_error option \<times> 's" where
  "client_Delete c name s =
     (case client_req c ''DELETE'' name NoBody of
        Inl err \<Rightarrow> (Some err, s)
      | Inr r \<Rightarrow>
          (case client_doSimple c r s of
             (Some err, s1) \<Rightarrow> (if IsNotFound err then None else Some err, s1)
           | (None, s1) \<Rightarrow> (None, s1)))"

definition client_Move :: "('b, 's) dav_client \<Rightarrow> string \<Rightarrow> string \<Rightarrow> bool \<Rightarrow> 's \<Rightarrow> go_error option \<times> 's" where
  "client_Move c src dest overwrite s =
     (case ResolveHref c dest of
        Inl err \<Rightarrow> (Some err, s)
      | Inr d \<Rightarrow>
          (case client_req c ''MOVE'' src NoBody of
             Inl err \<Rightarrow> (Some err, s)
           | Inr r \<Rightarrow>
               client_doSimple c
                 (header_set ''Overwrite'' (FormatOverwrite overwrite) (header_set ''Destination'' (url_string d) r)) s))"

definition setRange :: "int \<Rightarrow> int \<Rightarrow> dav_request \<Rightarrow> dav_request" where
  "setRange start end' r =
     (if start = 0 \<and> end' < 0 then header_set ''Range'' (''bytes='' @ format_int end') r
      else if 0 < start \<and> end' = 0 then header_set ''Range'' (''bytes='' @ format_int start @ ''-'') r
      else if 0 \<le> start \<and> start \<le> end' then
        header_set ''Range'' (''bytes='' @ format_int start @ ''-'' @ format_int end') r
      else r)"

section \<open>Files for reading\<close>

text \<open>\<open>doRequest\<close> is determined by the client and the name.\<close>

record 'b client_file =
  cf_name :: string
  cf_info :: file_info
  cf_pos :: "64 word"
  cf_seeked :: bool
  cf_body :: "'b option"

definition client_Open :: "('b, 's) dav_client \<Rightarrow> string \<Rightarrow> 's \<Rightarrow> (go_error + 'b client_file) \<times> 's" where
  "client_Open c name s =
     (case client_PropFind c name 0 (Some FileInfoPropFind) s of
        (Inl err, s1) \<Rightarrow> (Inl err, s1)
      | (Inr ms, s1) \<Rightarrow>
          (case ms_responses ms of
             [resp] \<Rightarrow>
               (case Response_FileInfo (dc_parse_time c) resp of
                  Inl err \<Rightarrow> (Inl (if IsNotFound err then PathError ''stat'' name ErrNotExist else err), s1)
                | Inr info \<Rightarrow>
                    (Inr \<lparr>cf_name = name, cf_info = info, cf_pos = 0, cf_seeked = False, cf_body = None\<rparr>, s1))
           | _ \<Rightarrow> (Inl (ErrorString ''PROPFIND with Depth: 0 returned several responses''), s1)))"

definition doRequest :: "('b, 's) dav_client \<Rightarrow> string \<Rightarrow> int \<Rightarrow> int \<Rightarrow> 's \<Rightarrow> (go_error + 'b) \<times> 's" where
  "doRequest c name offset end' s =
     (case client_req c ''GET'' name NoBody of
        Inl err \<Rightarrow> (Inl err, s)
      | Inr r \<Rightarrow>
          (case client_do c (setRange offset end' r) s of
             (Inl err, s1) \<Rightarrow> (Inl err, s1)
           | (Inr (code, body), s1) \<Rightarrow> if code = 416 then (Inl EOF, s1) else (Inr body, s1)))"

definition client_file_Seek :: "'b client_file \<Rightarrow> int \<Rightarrow> int \<Rightarrow> (int \<times> go_error option) \<times> 'b client_file" where
  "client_file_Seek f offset whence =
     (let npos =
        (if whence = 0 then word_of_int offset
         else if whence = 1 then cf_pos f + word_of_int offset
         else if whence = 2 then word_of_int (fi_size (cf_info f)) + word_of_int offset
         else - 1) in
      if sint npos < 0 then ((0, Some ErrInvalid), f)
      else ((sint npos, None), f\<lparr>cf_pos := npos, cf_seeked := True\<rparr>))"

definition client_file_Read ::
  "('b, 's) dav_client \<Rightarrow> 'b client_file \<Rightarrow> nat \<Rightarrow> 's \<Rightarrow> (int \<times> bytes \<times> go_error option) \<times> 'b client_file \<times> 's" where
  "client_file_Read c f n s =
     (case (case cf_body f of
              Some body \<Rightarrow> (Inr body, s)
            | None \<Rightarrow> doRequest c (cf_name f) (if cf_seeked f then sint (cf_pos f) else - 1) 0 s) of
        (Inl err, s1) \<Rightarrow> ((0, [], Some err), f, s1)
      | (Inr body, s1) \<Rightarrow>
          (case dc_read c body n s1 of
             ((k, data, _), body', s2) \<Rightarrow>
               (let f' = f\<lparr>cf_body := Some body', cf_pos := cf_pos f + word_of_int k\<rparr> in
                ((k, data, if fi_size (cf_info f) \<le> sint (cf_pos f') then Some EOF else None), f', s2))))"

text \<open>The closed body stays in the file: the assignment of \<open>nil\<close> comes after the return.\<close>

definition client_file_Close :: "('b, 's) dav_client \<Rightarrow> 'b client_file \<Rightarrow> 's \<Rightarrow> go_error option \<times> 'b client_file \<times> 's" where
  "client_file_Close c f s =
     (case cf_body f of
        Some body \<Rightarrow> (case dc_close c body s of (err, s1) \<Rightarrow> (err, f, s1))
      | None \<Rightarrow> (None, f, s))"

section \<open>Uploads\<close>

text \<open>
  The writer's end of the pipe: the request runs and has read these bytes; there is no request,
  since it could not be made, and so nobody reads; the request has closed its end; or the writer has
  closed the pipe.
\<close>

datatype dav_writer = Uploading dav_request bytes | NoReader | ReaderClosed | WriterClosed

definition client_OpenWrite :: "('b, 's) dav_client \<Rightarrow> string \<Rightarrow> 's \<Rightarrow> (go_error + dav_writer) \<times> 's" where
  "client_OpenWrite c name s =
     (case client_req c ''PUT'' name PipeBody of
        Inl err \<Rightarrow> (Inr NoReader, s)
      | Inr r \<Rightarrow> (Inr (Uploading r []), s))"

definition pipe_Write :: "('b, 's) dav_client \<Rightarrow> dav_writer \<Rightarrow> bytes \<Rightarrow> 's \<Rightarrow> (int \<times> go_error option) \<times> dav_writer \<times> 's" where
  "pipe_Write c w p s =
     (case w of
        Uploading r buf \<Rightarrow>
          (case dc_feed c r buf p s of
             (None, s1) \<Rightarrow> ((int (length p), None), Uploading r (buf @ p), s1)
           | (Some k, s1) \<Rightarrow> ((int (min k (length p)), Some ErrClosedPipe), ReaderClosed, s1))
      | NoReader \<Rightarrow> ((0, Some Blocks), w, s)
      | ReaderClosed \<Rightarrow> ((0, Some ErrClosedPipe), w, s)
      | WriterClosed \<Rightarrow> ((0, Some ErrClosedPipe), w, s))"

definition pipe_Close :: "('b, 's) dav_client \<Rightarrow> dav_writer \<Rightarrow> 's \<Rightarrow> go_error option \<times> dav_writer \<times> 's" where
  "pipe_Close c w s =
     (case w of
        Uploading r buf \<Rightarrow> (None, WriterClosed, dc_finish c r buf s)
      | _ \<Rightarrow> (None, WriterClosed, s))"

section \<open>Configuration\<close>

text \<open>\<open>NewClient\<close> sets the endpoint; the rest of the record \<open>env\<close> is the HTTP it runs on.\<close>

definition NewClient :: "('b, 's) dav_client \<Rightarrow> string \<Rightarrow> go_error + ('b, 's) dav_client" where
  "NewClient env endpoint =
     (case url_parse (dc_ip_literal env) endpoint of
        Inl err \<Rightarrow> Inl err
      | Inr u \<Rightarrow> Inr (env\<lparr>dc_endpoint := u\<rparr>))"

definition dav_config_url :: "Endpoint \<Rightarrow> url" where
  "dav_config_url e =
     empty_url\<lparr>url_scheme := (if values_get (Extra e) ''insecure'' = ''true'' then ''http'' else ''https''),
       url_host := Endpoint_Host e, url_path := Path e,
       url_user := (if Username e \<noteq> [] then Some (Username e, Some (Password e)) else None)\<rparr>"

text \<open>\<open>Config.Client\<close> with the client it keeps. It keeps the client also when the check fails; a
  client that could not be made is nil, and asking it panics.\<close>

definition dav_Config_Client ::
  "('b, 's) dav_client \<Rightarrow> Endpoint \<Rightarrow> ('b, 's) dav_client option \<Rightarrow> 's
   \<Rightarrow> (go_error + ('b, 's) dav_client) \<times> ('b, 's) dav_client option \<times> 's" where
  "dav_Config_Client env e cached s =
     (case cached of
        Some c \<Rightarrow> (Inr c, cached, s)
      | None \<Rightarrow>
          (case NewClient env (url_string (dav_config_url e)) of
             Inl _ \<Rightarrow> (Inl Panics, None, s)
           | Inr c \<Rightarrow>
               (case client_PropFind c ''/'' 0 None s of
                  (Inl err, s1) \<Rightarrow> (Inl err, Some c, s1)
                | (Inr _, s1) \<Rightarrow> (Inr c, Some c, s1))))"

end
