(* ===== verification/Dav_Fs.thy ===== *)
theory Dav_Fs
  imports Dav_Client
begin

text \<open>
  The WebDAV file system (\<open>webdav/webdav_fs.go\<close>) and its files (\<open>webdav/file.go\<close>), over the client.
\<close>

section \<open>Files\<close>

record dav_node =
  nd_name :: string
  nd_size :: int
  nd_mode :: file_mode
  nd_mod_time :: int

record 'b dav_file =
  df_node :: dav_node
  df_writer :: "dav_writer option"
  df_file :: "'b client_file option"

definition dav_addNode :: "file_info \<Rightarrow> dav_node" where
  "dav_addNode fi =
     \<lparr>nd_name = fi_name fi, nd_size = fi_size fi, nd_mode = fi_mode fi, nd_mod_time = fi_mod_time fi\<rparr>"

definition davfile_Name :: "'b dav_file \<Rightarrow> string" where
  "davfile_Name f = nd_name (df_node f)"

text \<open>The loop of \<open>Readdir\<close> over the responses, with the number of entries so far.\<close>

fun dav_readdir_loop ::
  "(string \<Rightarrow> go_error + int) \<Rightarrow> string \<Rightarrow> int \<Rightarrow> int \<Rightarrow> dav_response list \<Rightarrow> go_error + file_info list" where
  "dav_readdir_loop parse_time name n idx [] = Inr []"
| "dav_readdir_loop parse_time name n idx (resp # resps) =
     (case Response_Path resp of
        (_, Some err) \<Rightarrow> Inl err
      | (p, None) \<Rightarrow>
          if p = name \<or> p = name @ ''/'' then dav_readdir_loop parse_time name n idx resps
          else
            (case Response_FileInfo parse_time resp of
               Inl err \<Rightarrow> Inl err
             | Inr fi \<Rightarrow>
                 if 0 < n \<and> n < idx + 1 then Inr [fi]
                 else map_sum id (\<lambda>fis. fi # fis) (dav_readdir_loop parse_time name n (idx + 1) resps)))"

definition dav_list_name :: "string \<Rightarrow> string" where
  "dav_list_name name =
     (let p = trim_prefix name ''/'' in if p \<noteq> [] \<and> \<not> has_suffix p ''/'' then p @ ''/'' else p)"

definition davfile_Readdir ::
  "('b, 's) dav_client \<Rightarrow> 'b dav_file \<Rightarrow> int \<Rightarrow> 's \<Rightarrow> (go_error + file_info list) \<times> 'b dav_file \<times> 's" where
  "davfile_Readdir c f n s =
     (case client_PropFind c (dav_list_name (davfile_Name f)) 1 (Some FileInfoPropFind) s of
        (Inl err, s1) \<Rightarrow> (Inl err, f, s1)
      | (Inr ms, s1) \<Rightarrow> (dav_readdir_loop (dc_parse_time c) (davfile_Name f) n 0 (ms_responses ms), f, s1))"

definition davfile_Write ::
  "('b, 's) dav_client \<Rightarrow> 'b dav_file \<Rightarrow> bytes \<Rightarrow> 's \<Rightarrow> (int \<times> go_error option) \<times> 'b dav_file \<times> 's" where
  "davfile_Write c f p s =
     (case df_writer f of
        None \<Rightarrow> ((0, Some ErrInvalid), f, s)
      | Some w \<Rightarrow> (case pipe_Write c w p s of (res, w', s1) \<Rightarrow> (res, f\<lparr>df_writer := Some w'\<rparr>, s1)))"

text \<open>\<open>Seek\<close> calls the nil interface when the file is not open for reading.\<close>

definition davfile_Seek :: "'b dav_file \<Rightarrow> int \<Rightarrow> int \<Rightarrow> 's \<Rightarrow> (int \<times> go_error option) \<times> 'b dav_file \<times> 's" where
  "davfile_Seek f offset whence s =
     (case df_file f of
        None \<Rightarrow> ((0, Some Panics), f, s)
      | Some cf \<Rightarrow> (case client_file_Seek cf offset whence of (res, cf') \<Rightarrow> (res, f\<lparr>df_file := Some cf'\<rparr>, s)))"

definition davfile_Read ::
  "('b, 's) dav_client \<Rightarrow> 'b dav_file \<Rightarrow> nat \<Rightarrow> 's \<Rightarrow> (int \<times> bytes \<times> go_error option) \<times> 'b dav_file \<times> 's" where
  "davfile_Read c f n s =
     (case df_file f of
        None \<Rightarrow> ((0, [], Some ErrInvalid), f, s)
      | Some cf \<Rightarrow> (case client_file_Read c cf n s of (res, cf', s1) \<Rightarrow> (res, f\<lparr>df_file := Some cf'\<rparr>, s1)))"

text \<open>\<open>Close\<close> closes both at the same time; closing the pipe never fails.\<close>

definition davfile_Close :: "('b, 's) dav_client \<Rightarrow> 'b dav_file \<Rightarrow> 's \<Rightarrow> go_error option \<times> 'b dav_file \<times> 's" where
  "davfile_Close c f s =
     (case (case df_writer f of
              None \<Rightarrow> (f, s)
            | Some w \<Rightarrow> (case pipe_Close c w s of (_, w', s1) \<Rightarrow> (f\<lparr>df_writer := Some w'\<rparr>, s1))) of
        (f1, s1) \<Rightarrow>
          (case df_file f1 of
             None \<Rightarrow> (None, f1, s1)
           | Some cf \<Rightarrow>
               (case client_file_Close c cf s1 of (err, cf', s2) \<Rightarrow> (err, f1\<lparr>df_file := Some cf'\<rparr>, s2))))"

section \<open>The file system\<close>

definition dav_Stat :: "('b, 's) dav_client \<Rightarrow> string \<Rightarrow> 's \<Rightarrow> (go_error + file_info) \<times> 's" where
  "dav_Stat c name s =
     (case client_PropFind c name 0 (Some FileInfoPropFind) s of
        (Inl err, s1) \<Rightarrow> (Inl err, s1)
      | (Inr ms, s1) \<Rightarrow>
          (case ms_responses ms of
             [resp] \<Rightarrow>
               (case Response_FileInfo (dc_parse_time c) resp of
                  Inl err \<Rightarrow> (Inl (if IsNotFound err then PathError ''stat'' name ErrNotExist else err), s1)
                | Inr info \<Rightarrow> (Inr info, s1))
           | _ \<Rightarrow> (Inl (ErrorString ''PROPFIND with Depth: 0 returned several responses''), s1)))"

definition davfile_Stat :: "('b, 's) dav_client \<Rightarrow> 'b dav_file \<Rightarrow> 's \<Rightarrow> (go_error + file_info) \<times> 'b dav_file \<times> 's" where
  "davfile_Stat c f s = (case dav_Stat c (davfile_Name f) s of (r, s1) \<Rightarrow> (r, f, s1))"

text \<open>The parent of a name, which is looked at before something is made in it, unless it is the root.\<close>

definition dav_check_parent :: "('b, 's) dav_client \<Rightarrow> string \<Rightarrow> 's \<Rightarrow> go_error option \<times> 's" where
  "dav_check_parent c name s =
     (let parent = path_dir (trim_right slash name) in
      if parent \<noteq> ''/'' then
        (case dav_Stat c parent s of (Inl err, s1) \<Rightarrow> (Some err, s1) | (Inr _, s1) \<Rightarrow> (None, s1))
      else (None, s))"

definition dav_dir_file :: "file_info \<Rightarrow> 'b dav_file" where
  "dav_dir_file fi = \<lparr>df_node = dav_addNode fi, df_writer = None, df_file = None\<rparr>"

definition dav_openDir :: "('b, 's) dav_client \<Rightarrow> string \<Rightarrow> 's \<Rightarrow> (go_error + 'b dav_file) \<times> 's" where
  "dav_openDir c name s =
     (case dav_Stat c name s of
        (Inl err, s1) \<Rightarrow>
          if os_is_not_exist err then
            (case dav_check_parent c name s1 of
               (Some err', s2) \<Rightarrow> (Inl err', s2)
             | (None, s2) \<Rightarrow>
                 (case client_MkCol c name s2 of
                    (Some err', s3) \<Rightarrow> (Inl err', s3)
                  | (None, s3) \<Rightarrow>
                      (case dav_Stat c name s3 of
                         (Inl err', s4) \<Rightarrow> (Inl err', s4)
                       | (Inr fi, s4) \<Rightarrow> (Inr (dav_dir_file fi), s4))))
          else (Inl err, s1)
      | (Inr fi, s1) \<Rightarrow>
          if \<not> fi_is_dir fi then (Inl (PathError ''stat'' name ErrExist), s1) else (Inr (dav_dir_file fi), s1))"

definition dav_openFile :: "('b, 's) dav_client \<Rightarrow> string \<Rightarrow> open_flag \<Rightarrow> 's \<Rightarrow> (go_error + 'b dav_file) \<times> 's" where
  "dav_openFile c name flag s =
     (case (if has_flag flag O_CREATE then dav_check_parent c name s else (None, s)) of
        (Some err, s1) \<Rightarrow> (Inl err, s1)
      | (None, s1) \<Rightarrow>
          (let f = \<lparr>df_node = \<lparr>nd_name = name, nd_size = 0, nd_mode = 0, nd_mod_time = 0\<rparr>,
                    df_writer = None, df_file = None\<rparr> in
           if has_flag flag O_WRONLY \<or> has_flag flag O_RDWR then
             (case client_OpenWrite c (davfile_Name f) s1 of
                (Inl err, s2) \<Rightarrow> (Inl err, s2)
              | (Inr w, s2) \<Rightarrow> (Inr (f\<lparr>df_writer := Some w\<rparr>), s2))
           else
             (case client_Open c (davfile_Name f) s1 of
                (Inl err, s2) \<Rightarrow> (Inl err, s2)
              | (Inr cf, s2) \<Rightarrow> (Inr (f\<lparr>df_file := Some cf\<rparr>), s2))))"

definition dav_OpenFile ::
  "('b, 's) dav_client \<Rightarrow> string \<Rightarrow> open_flag \<Rightarrow> file_mode \<Rightarrow> 's \<Rightarrow> (go_error + 'b dav_file) \<times> 's" where
  "dav_OpenFile c name flag perm s =
     (if has_flag flag O_APPEND then (Inl ErrNotSupported, s)
      else
        (let flag' = (if has_flag flag O_CREATE then flag OR O_WRONLY else flag) in
         if has_suffix name ''/'' then dav_openDir c name s else dav_openFile c name flag' s))"

definition dav_Mkdir :: "('b, 's) dav_client \<Rightarrow> string \<Rightarrow> file_mode \<Rightarrow> 's \<Rightarrow> go_error option \<times> 's" where
  "dav_Mkdir c name perm s =
     (case dav_Stat c name s of
        (Inr _, s1) \<Rightarrow> (Some (PathError ''mkdir'' name ErrExist), s1)
      | (Inl _, s1) \<Rightarrow>
          (case dav_OpenFile c (path_clean name @ ''/'') O_CREATE perm s1 of
             (Inl err, s2) \<Rightarrow> (Some err, s2)
           | (Inr f, s2) \<Rightarrow> (None, snd (snd (davfile_Close c f s2)))))"

definition dav_RemoveAll :: "('b, 's) dav_client \<Rightarrow> string \<Rightarrow> 's \<Rightarrow> go_error option \<times> 's" where
  "dav_RemoveAll c name s =
     (if name = ''/'' then (Some (WrapError ''rm '/' not allow'' ErrPermission), s) else client_Delete c name s)"

definition dav_Rename :: "('b, 's) dav_client \<Rightarrow> string \<Rightarrow> string \<Rightarrow> 's \<Rightarrow> go_error option \<times> 's" where
  "dav_Rename c oldName newName s =
     (if newName = oldName then (None, s) else client_Move c oldName newName False s)"

definition Dav_NewFS :: "('b, 's) dav_client \<Rightarrow> ('b dav_file, 's) filesystem" where
  "Dav_NewFS c =
     \<lparr>fs_mkdir = dav_Mkdir c, fs_open_file = dav_OpenFile c, fs_remove_all = dav_RemoveAll c,
      fs_rename = dav_Rename c, fs_stat = dav_Stat c,
      f_close = davfile_Close c, f_read = davfile_Read c, f_write = davfile_Write c, f_seek = davfile_Seek,
      f_readdir = davfile_Readdir c, f_stat = davfile_Stat c, f_read_dir = None\<rparr>"

end
