(* ===== verification/Backend.thy ===== *)
theory Backend
  imports S3_Fs Ftp_Fs Dav_Fs
begin

text \<open>
  From an endpoint to a file system: the S3 configuration with its fake bucket check
  (\<open>s3/config.go\<close>), the backend of the commands (\<open>api/backend.go\<close>) and the standard library view
  of a file system (\<open>fs_std.go\<close>). The libraries that open connections are parameters.
\<close>

section \<open>The S3 configuration\<close>

record minio_options =
  mo_access :: string
  mo_secret :: string
  mo_signature_v2 :: bool
  mo_secure :: bool
  mo_fake_bucket :: "(string \<times> string) option"

record ('o, 's) minio =
  minio_New :: "string \<Rightarrow> minio_options \<Rightarrow> go_error + ('o, 's) s3_client"
  BucketExists :: "('o, 's) s3_client \<Rightarrow> string \<Rightarrow> 's \<Rightarrow> (go_error + bool) \<times> 's"
  MakeBucket :: "('o, 's) s3_client \<Rightarrow> string \<Rightarrow> 's \<Rightarrow> go_error option \<times> 's"

definition s3_options :: "Endpoint \<Rightarrow> minio_options" where
  "s3_options e =
     \<lparr>mo_access = Username e, mo_secret = Password e,
      mo_signature_v2 = (values_get (Extra e) ''signatureType'' = ''v2''),
      mo_secure = (values_get (Extra e) ''insecure'' \<noteq> ''true''),
      mo_fake_bucket =
        (if values_get (Extra e) ''skipBucketCheck'' = ''true'' then Some (Config_Bucket e, Config_Prefix e) else None)\<rparr>"

definition s3_presign_url :: "(string \<Rightarrow> go_error + string) \<Rightarrow> Endpoint \<Rightarrow> go_error + url option" where
  "s3_presign_url ip e =
     (if values_get (Extra e) ''presignAs'' = [] then Inr None
      else map_sum id Some (url_parse ip (values_get (Extra e) ''presignAs'')))"

text \<open>\<open>AsFileSystem\<close> without the file system it keeps; an error of \<open>MakeBucket\<close> is dropped. Where the code
  leaves the presign client nil (no \<open>presignAs\<close>), the record repeats the client: it is not looked at.\<close>

definition s3_new_fs ::
  "('o, 's) minio \<Rightarrow> (string \<Rightarrow> go_error + string) \<Rightarrow> Endpoint \<Rightarrow> 's \<Rightarrow> (go_error + ('o, 's) s3fs) \<times> 's" where
  "s3_new_fs M ip e s =
     (case s3_presign_url ip e of
        Inl err \<Rightarrow> (Inl err, s)
      | Inr presign \<Rightarrow>
          (case minio_New M (Endpoint_Host e) (s3_options e) of
             Inl err \<Rightarrow> (Inl (WrapError ''new s3 client failed'' err), s)
           | Inr client \<Rightarrow>
               (case BucketExists M client (Endpoint_Base e) s of
                  (Inl err, s1) \<Rightarrow> (Inl (WrapError ''check bucket failed'' err), s1)
                | (Inr ok, s1) \<Rightarrow>
                    (let s2 = (if ok then s1 else snd (MakeBucket M client (Endpoint_Base e) s1));
                         f = \<lparr>s3Client = client, s3ClientForPresign = client, presignAs = None,
                              s3_bucket = Config_Bucket e, s3_prefix = Config_Prefix e\<rparr> in
                     case presign of
                       None \<Rightarrow> (Inr f, s2)
                     | Some u \<Rightarrow>
                         (case minio_New M (url_host u) (s3_options e) of
                            Inl err \<Rightarrow> (Inl (WrapError ''new s3 client failed'' err), s2)
                          | Inr pc \<Rightarrow>
                              (Inr (f\<lparr>presignAs := Some (u\<lparr>url_host := Config_Bucket e @ ''.'' @ url_host u\<rparr>),
                                      s3ClientForPresign := pc\<rparr>), s2))))))"

definition s3_AsFileSystem ::
  "('o, 's) minio \<Rightarrow> (string \<Rightarrow> go_error + string) \<Rightarrow> Endpoint \<Rightarrow> ('o, 's) s3fs option \<Rightarrow> 's
   \<Rightarrow> (go_error + ('o, 's) s3fs) \<times> ('o, 's) s3fs option \<times> 's" where
  "s3_AsFileSystem M ip e cached s =
     (case cached of
        Some f \<Rightarrow> (Inr f, cached, s)
      | None \<Rightarrow>
          (case s3_new_fs M ip e s of
             (Inl err, s1) \<Rightarrow> (Inl err, None, s1)
           | (Inr f, s1) \<Rightarrow> (Inr f, Some f, s1)))"

text \<open>
  \<open>RoundTrip\<close> of the fake bucket. A request is its method and path; a response its status, the value
  of its header \<open>Last-Modified\<close> and its body. The two times are the formatted present. A failure of the
  real transport (\<open>trip\<close>) is returned without its error.
\<close>

record http_response =
  hr_status :: int
  hr_last_modified :: "string option"
  hr_body :: bytes

definition fake_bucket_body :: "string \<Rightarrow> string \<Rightarrow> bytes" where
  "fake_bucket_body name created =
     ''<?xml version='' @ [CHR 0x22] @ ''1.0'' @ [CHR 0x22] @ '' encoding='' @ [CHR 0x22] @ ''UTF-8'' @ [CHR 0x22] @ ''?>'' @ [CHR 0x0A, CHR 0x09]
     @ ''<GetBucketResult>'' @ [CHR 0x0A, CHR 0x09] @ ''  <Bucket>'' @ name @ ''</Bucket>'' @ [CHR 0x0A, CHR 0x09]
     @ ''  <PublicAccessBlockEnabled>false</PublicAccessBlockEnabled>'' @ [CHR 0x0A, CHR 0x09]
     @ ''  <CreationDate>'' @ created @ ''</CreationDate>'' @ [CHR 0x0A, CHR 0x09]
     @ ''</GetBucketResult>'' @ [CHR 0x0A, CHR 0x09]"

definition fakeBucket_RoundTrip ::
  "string \<times> string \<Rightarrow> string \<Rightarrow> string \<Rightarrow> ('s \<Rightarrow> http_response option \<times> go_error option \<times> 's) \<Rightarrow> string \<Rightarrow> string \<Rightarrow> 's
   \<Rightarrow> http_response option \<times> go_error option \<times> 's" where
  "fakeBucket_RoundTrip rt created modified trip meth path s =
     (if (meth = ''GET'' \<or> meth = ''HEAD'') \<and> path = ''/'' @ fst rt @ ''/'' then
        (Some \<lparr>hr_status = 200, hr_last_modified = None, hr_body = fake_bucket_body (fst rt) created\<rparr>, None, s)
      else if path = ''/'' @ fst rt @ snd rt then
        (Some \<lparr>hr_status = 200, hr_last_modified = Some modified, hr_body = []\<rparr>, None, s)
      else
        (case trip s of
           (resp, Some _, s1) \<Rightarrow> (resp, None, s1)
         | (None, None, s1) \<Rightarrow> (None, Some Panics, s1)
         | (Some resp, None, s1) \<Rightarrow>
             (let code = (if meth = ''HEAD'' \<and> 200 < hr_status resp \<and> hr_status resp < 300 then 200 else hr_status resp) in
              (Some (resp\<lparr>hr_status := code, hr_last_modified := Some modified\<rparr>), None, s1))))"

section \<open>Backends\<close>

text \<open>The file system of a backend. The local one is the directory of the host that the WebDAV library serves.\<close>

datatype ('o, 'b, 's) mounted_fs =
    S3Backend "('o, 's) s3fs"
  | FtpBackend Endpoint
  | DavBackend "('b, 's) dav_client"
  | LocalBackend string

record ('o, 'b, 's) fs_backend =
  be_endpoint :: Endpoint
  be_username :: string
  be_password :: string
  be_path :: string
  be_extra :: string
  be_fsi :: "('o, 'b, 's) mounted_fs option"

definition Backend_Disabled :: "('o, 'b, 's) fs_backend \<Rightarrow> bool" where
  "Backend_Disabled m = Endpoint_IsZero (be_endpoint m)"

definition Backend_FileSystem :: "('o, 'b, 's) fs_backend \<Rightarrow> ('o, 'b, 's) mounted_fs option" where
  "Backend_FileSystem m = be_fsi m"

definition overwritten_endpoint :: "('o, 'b, 's) fs_backend \<Rightarrow> go_error + Endpoint" where
  "overwritten_endpoint m =
     (let e = be_endpoint m;
          e1 = (if be_path m \<noteq> [] then e\<lparr>Path := be_path m\<rparr> else e);
          e2 = (if be_username m \<noteq> [] then e1\<lparr>Username := be_username m\<rparr> else e1);
          e3 = (if be_password m \<noteq> [] then e2\<lparr>Password := be_password m\<rparr> else e2) in
      if be_extra m \<noteq> [] then
        (case parse_query (be_extra m) of
           (_, True) \<Rightarrow> Inl (ErrorString ''invalid query'')
         | (q, False) \<Rightarrow> Inr (e3\<lparr>Extra := q\<rparr>))
      else Inr e3)"

definition local_prefix :: "Endpoint \<Rightarrow> string" where
  "local_prefix e = (if Hostname e = ''.'' \<and> has_prefix (Path e) ''/'' then tl (Path e) else Path e)"

text \<open>The libraries behind the backends.\<close>

record ('o, 'b, 's) backend_env =
  env_minio :: "('o, 's) minio"
  env_dav :: "('b, 's) dav_client"
  env_ip_literal :: "string \<Rightarrow> go_error + string"

definition Backend_Init ::
  "('o, 'b, 's) backend_env \<Rightarrow> ('o, 'b, 's) fs_backend \<Rightarrow> 's \<Rightarrow> go_error option \<times> ('o, 'b, 's) fs_backend \<times> 's" where
  "Backend_Init env m s =
     (if Backend_Disabled m then (None, m, s)
      else
        (case overwritten_endpoint m of
           Inl err \<Rightarrow> (Some err, m, s)
         | Inr e \<Rightarrow>
             if Scheme e = ''s3'' then
               (case s3_AsFileSystem (env_minio env) (env_ip_literal env) e None s of
                  (Inl err, _, s1) \<Rightarrow> (Some err, m, s1)
                | (Inr f, _, s1) \<Rightarrow> (None, m\<lparr>be_fsi := Some (S3Backend f)\<rparr>, s1))
             else if Scheme e = ''ftp'' \<or> Scheme e = ''ftps'' then (None, m\<lparr>be_fsi := Some (FtpBackend e)\<rparr>, s)
             else if Scheme e = ''webdav'' then
               (case dav_Config_Client (env_dav env) e None s of
                  (Inl err, _, s1) \<Rightarrow> (Some err, m, s1)
                | (Inr c, _, s1) \<Rightarrow> (None, m\<lparr>be_fsi := Some (DavBackend c)\<rparr>, s1))
             else if Scheme e = ''file'' then (None, m\<lparr>be_fsi := Some (LocalBackend (local_prefix e))\<rparr>, s)
             else (Some (ErrorString (''unsupported '' @ Endpoint_String e)), m, s)))"

section \<open>The view for the standard library\<close>

definition readDirFS_Open :: "('h, 's) filesystem \<Rightarrow> string \<Rightarrow> 's \<Rightarrow> (go_error + 'h) \<times> 's" where
  "readDirFS_Open fsys name s = fs_open_file fsys name O_RDONLY ModePerm s"

definition readDirFS_ReadDir ::
  "('h, 's) filesystem \<Rightarrow> string \<Rightarrow> 's \<Rightarrow> (dir_entry list \<times> go_error option) \<times> 's" where
  "readDirFS_ReadDir fsys name s = ReadDir fsys name s"

section \<open>The context\<close>

text \<open>The two entries that this program keeps in a context: the file system, which may have been injected as
  nil, and the metadata that new S3 objects get.\<close>

type_synonym metadata = "string \<rightharpoonup> string list"

record ('o, 'b, 's) go_context =
  cx_fs :: "('o, 'b, 's) mounted_fs option option"
  cx_metadata :: "metadata option"

definition Backend_InjectContext ::
  "('o, 'b, 's) fs_backend \<Rightarrow> ('o, 'b, 's) go_context \<Rightarrow> ('o, 'b, 's) go_context" where
  "Backend_InjectContext m ctx = ctx\<lparr>cx_fs := Some (be_fsi m)\<rparr>"

definition MetadataFromContext :: "('o, 'b, 's) go_context \<Rightarrow> metadata" where
  "MetadataFromContext ctx = (case cx_metadata ctx of Some meta \<Rightarrow> meta | None \<Rightarrow> Map.empty)"

definition MetadataInjectContext :: "('o, 'b, 's) go_context \<Rightarrow> metadata \<Rightarrow> ('o, 'b, 's) go_context" where
  "MetadataInjectContext ctx meta = ctx\<lparr>cx_metadata := Some meta\<rparr>"

section \<open>Properties\<close>

text \<open>\<open>Init\<close> on every branch. A backend without a scheme is left alone. Otherwise an overwrite that is not empty
  replaces its part of the endpoint and nothing else, and the scheme decides the file system; the WebDAV one
  is only kept when the server answers a look at its root, the S3 one when its bucket could be
  had; an unknown scheme fails, and the error's text is the whole endpoint, with the password.\<close>

theorem Backend_Init_result:
  assumes "overwritten_endpoint m = Inr e"
  shows "Scheme e = Scheme (be_endpoint m) \<and> Hostname e = Hostname (be_endpoint m) \<and> Port e = Port (be_endpoint m)
    \<and> Path e = (if be_path m \<noteq> [] then be_path m else Path (be_endpoint m))
    \<and> Username e = (if be_username m \<noteq> [] then be_username m else Username (be_endpoint m))
    \<and> Password e = (if be_password m \<noteq> [] then be_password m else Password (be_endpoint m))
    \<and> Extra e = (if be_extra m \<noteq> [] then fst (parse_query (be_extra m)) else Extra (be_endpoint m))
    \<and> Backend_Init env m s =
       (if Scheme e = [] then (None, m, s)
        else if Scheme e \<in> {''ftp'', ''ftps''} then (None, m\<lparr>be_fsi := Some (FtpBackend e)\<rparr>, s)
        else if Scheme e = ''file'' then (None, m\<lparr>be_fsi := Some (LocalBackend (local_prefix e))\<rparr>, s)
        else if Scheme e = ''s3'' then
          (case s3_new_fs (env_minio env) (env_ip_literal env) e s of
             (Inl err, s1) \<Rightarrow> (Some err, m, s1) | (Inr f, s1) \<Rightarrow> (None, m\<lparr>be_fsi := Some (S3Backend f)\<rparr>, s1))
        else if Scheme e = ''webdav'' then
          (case NewClient (env_dav env) (url_string (dav_config_url e)) of
             Inl _ \<Rightarrow> (Some Panics, m, s)
           | Inr c \<Rightarrow>
               (case client_PropFind c ''/'' 0 None s of
                  (Inl err, s1) \<Rightarrow> (Some err, m, s1) | (Inr _, s1) \<Rightarrow> (None, m\<lparr>be_fsi := Some (DavBackend c)\<rparr>, s1)))
        else (Some (ErrorString (''unsupported '' @ Endpoint_String e)), m, s))"
proof -
  have e: "Scheme e = Scheme (be_endpoint m) \<and> Hostname e = Hostname (be_endpoint m) \<and> Port e = Port (be_endpoint m)
    \<and> Path e = (if be_path m \<noteq> [] then be_path m else Path (be_endpoint m))
    \<and> Username e = (if be_username m \<noteq> [] then be_username m else Username (be_endpoint m))
    \<and> Password e = (if be_password m \<noteq> [] then be_password m else Password (be_endpoint m))
    \<and> Extra e = (if be_extra m \<noteq> [] then fst (parse_query (be_extra m)) else Extra (be_endpoint m))"
    using assms by (auto simp: overwritten_endpoint_def Let_def split: if_splits prod.splits bool.splits)
  then have "Backend_Disabled m \<longleftrightarrow> Scheme e = []" by (simp add: Backend_Disabled_def Endpoint_IsZero_def)
  with e show ?thesis
    by (simp add: Backend_Init_def assms s3_AsFileSystem_def dav_Config_Client_def split: prod.split sum.split)
qed

definition offline_env :: "(unit, unit, 's) backend_env" where
  "offline_env =
     \<lparr>env_minio =
        \<lparr>minio_New = (\<lambda>host opts. Inl ErrTimeout), BucketExists = (\<lambda>c b s. (Inl ErrTimeout, s)),
         MakeBucket = (\<lambda>c b s. (Some ErrTimeout, s))\<rparr>,
      env_dav =
        \<lparr>dc_endpoint = empty_url, dc_ip_literal = Inr, dc_parse_time = (\<lambda>_. Inr 0),
         dc_do = (\<lambda>r s. (Inl ErrTimeout, s)), dc_read = (\<lambda>b n s. ((0, [], Some EOF), b, s)), dc_close = (\<lambda>b s. (None, s)),
         dc_xml = (\<lambda>b s. (([], EOF), s)), dc_feed = (\<lambda>r buf p s. (None, s)), dc_finish = (\<lambda>r data s. s)\<rparr>,
      env_ip_literal = Inr\<rparr>"

definition sample_backend :: "(unit, unit, 's) fs_backend" where
  "sample_backend =
     \<lparr>be_endpoint = sample_endpoint\<lparr>Scheme := ''file'', Hostname := ''.''\<rparr>, be_username = [], be_password = ''other'',
      be_path = ''/data'', be_extra = [], be_fsi = None\<rparr>"

theorem Backend_Init_result_witness:
  "Backend_Init offline_env sample_backend () = (None, sample_backend\<lparr>be_fsi := Some (LocalBackend ''data'')\<rparr>, ())"
  using Backend_Init_result [of sample_backend "sample_endpoint\<lparr>Scheme := ''file'', Hostname := ''.'', Password := ''other'', Path := ''/data''\<rparr>" offline_env "()"]
  by (simp add: overwritten_endpoint_def sample_backend_def sample_endpoint_def local_prefix_def)

end
