(* ===== verification/Csi.thy ===== *)
theory Csi
  imports Backend
begin

text \<open>
  The CSI driver (\<open>pkg/csidriver\<close>): mounting through a child process (\<open>mounter/mounter.go\<close>), the
  driver with its volumes (\<open>driver.go\<close>, \<open>util.go\<close>), the identity, controller and node servers
  (\<open>server_identity.go\<close>, \<open>server_controller.go\<close>, \<open>server_node.go\<close>), and the mount command
  (\<open>cmd/unifs/mount.go\<close>).

  What the code asks of the operating system is the record \<open>os_env\<close>, over the outside state. The text
  of an error, which the servers put into a gRPC status, is the parameter \<open>err_text\<close>. Logging is
  left out.
\<close>

section \<open>Mounting\<close>

record 's os_env =
  os_MkdirAll :: "string \<Rightarrow> 's \<Rightarrow> go_error option \<times> 's"
  os_Executable :: "'s \<Rightarrow> go_error + string"
  os_Run :: "string \<Rightarrow> string list \<Rightarrow> 's \<Rightarrow> go_error option \<times> 's"
  os_Stat :: "string \<Rightarrow> 's \<Rightarrow> go_error option"
  os_NotMountPoint :: "string \<Rightarrow> 's \<Rightarrow> go_error + bool"
  os_Unmount :: "string \<Rightarrow> 's \<Rightarrow> go_error option \<times> 's"
  os_Sleep :: "int \<Rightarrow> 's \<Rightarrow> 's"
  os_Processes :: "'s \<Rightarrow> go_error + nat list"
  os_ReadFile :: "string \<Rightarrow> 's \<Rightarrow> go_error + bytes"
  os_FindProcess :: "nat \<Rightarrow> 's \<Rightarrow> go_error + nat"

text \<open>Durations are in nanoseconds.\<close>

definition wait_interval :: int where
  "wait_interval = 10 * 1000000"

definition mount_timeout :: int where
  "mount_timeout = 10 * 1000000000"

function wait_from :: "'s os_env \<Rightarrow> string \<Rightarrow> int \<Rightarrow> int \<Rightarrow> 's \<Rightarrow> go_error option \<times> 's" where
  "wait_from os path timeout elapsed s =
     (case os_NotMountPoint os path s of
        Inl err \<Rightarrow> (Some err, s)
      | Inr notMount \<Rightarrow>
          if \<not> notMount then (None, s)
          else
            (let s1 = os_Sleep os wait_interval s; elapsed' = elapsed + wait_interval in
             if timeout \<le> elapsed' then (Some (ErrorString ''Timeout waiting for mount''), s1)
             else wait_from os path timeout elapsed' s1))"
  by pat_completeness auto
termination
  by (relation "measure (\<lambda>(os, path, timeout, elapsed, s). nat (timeout - elapsed))") (auto simp: wait_interval_def)

declare wait_from.simps [simp del]

definition waitForMount :: "'s os_env \<Rightarrow> string \<Rightarrow> int \<Rightarrow> 's \<Rightarrow> go_error option \<times> 's" where
  "waitForMount os path timeout s = wait_from os path timeout 0 s"

definition NewMounter ::
  "('o, 'b, 's) backend_env \<Rightarrow> string \<Rightarrow> 's \<Rightarrow> (go_error + Endpoint) \<times> 's" where
  "NewMounter env backendStr s =
     (case ParseEndpoint (env_ip_literal env) backendStr of
        Inl err \<Rightarrow> (Inl err, s)
      | Inr e \<Rightarrow>
          (case Backend_Init env
                  \<lparr>be_endpoint = e, be_username = [], be_password = [], be_path = [], be_extra = [], be_fsi = None\<rparr> s of
             (Some err, m, s1) \<Rightarrow> (Inl err, s1)
           | (None, m, s1) \<Rightarrow> (Inr (be_endpoint m), s1)))"

definition mount_args :: "Endpoint \<Rightarrow> string \<Rightarrow> string list" where
  "mount_args e mountPoint = [''mount'', ''--backend'', Endpoint_String e, mountPoint]"

definition mounter_Mount :: "'s os_env \<Rightarrow> Endpoint \<Rightarrow> string \<Rightarrow> 's \<Rightarrow> go_error option \<times> 's" where
  "mounter_Mount os e mountPoint s =
     (case os_MkdirAll os mountPoint s of
        (Some err, s1) \<Rightarrow> (Some err, s1)
      | (None, s1) \<Rightarrow>
          (case os_Executable os s1 of
             Inl err \<Rightarrow> (Some err, s1)
           | Inr p \<Rightarrow>
               (case os_Run os p (mount_args e mountPoint) s1 of
                  (Some err, s2) \<Rightarrow>
                    (Some (WrapError (''FuseMount: ['' @ join_with '' '' (p # mount_args e mountPoint) @ '']'') err), s2)
                | (None, s2) \<Rightarrow> waitForMount os mountPoint mount_timeout s2)))"

definition FuseUnmount :: "'s os_env \<Rightarrow> string \<Rightarrow> 's \<Rightarrow> go_error option \<times> 's" where
  "FuseUnmount os path s =
     (case os_Stat os path s of
        Some err \<Rightarrow> (if os_is_not_exist err then None else Some err, s)
      | None \<Rightarrow>
          (case os_NotMountPoint os path s of
             Inl err \<Rightarrow> (Some err, s)
           | Inr notMount \<Rightarrow> if notMount then (None, s) else os_Unmount os path s))"

definition getCmdLine :: "'s os_env \<Rightarrow> nat \<Rightarrow> 's \<Rightarrow> go_error + string" where
  "getCmdLine os pid s = os_ReadFile os (''/proc/'' @ format_uint pid @ ''/cmdline'') s"

definition FindFuseMountProcess :: "'s os_env \<Rightarrow> string \<Rightarrow> 's \<Rightarrow> go_error + nat option" where
  "FindFuseMountProcess os path s =
     (case os_Processes os s of
        Inl err \<Rightarrow> Inl err
      | Inr pids \<Rightarrow>
          (case find (\<lambda>pid. case getCmdLine os pid s of Inl _ \<Rightarrow> False | Inr line \<Rightarrow> sublist path line) pids of
             Some pid \<Rightarrow> map_sum id Some (os_FindProcess os pid s)
           | None \<Rightarrow> Inr None))"

section \<open>The mount command\<close>

record mount_cmd =
  mc_mount_point :: string
  mc_backend :: Endpoint
  mc_foreground :: bool
  mc_delegate :: bool

text \<open>What the command does with daemons and with the FUSE library: \<open>Reborn\<close> returns the child in the parent
  process and none in the child; a server runs until it is unmounted or signalled.\<close>

record ('o, 'b, 's) daemon_env =
  dm_Reborn :: "'s \<Rightarrow> (go_error + bool) \<times> 's"
  dm_Release :: "'s \<Rightarrow> 's"
  dm_NewServer :: "('o, 'b, 's) mounted_fs option \<Rightarrow> string \<Rightarrow> string \<Rightarrow> 's \<Rightarrow> go_error option \<times> 's"
  dm_Serve :: "'s \<Rightarrow> 's"
  dm_ServeSignals :: "'s \<Rightarrow> go_error option \<times> 's"

definition mount_serve ::
  "('o, 'b, 's) backend_env \<Rightarrow> 's os_env \<Rightarrow> ('o, 'b, 's) daemon_env \<Rightarrow> mount_cmd \<Rightarrow> 's \<Rightarrow> go_error option \<times> 's" where
  "mount_serve env os dm m s =
     (case os_MkdirAll os (mc_mount_point m) s of
        (Some err, s1) \<Rightarrow> (Some err, s1)
      | (None, s1) \<Rightarrow>
          (case Backend_Init env
                  \<lparr>be_endpoint = mc_backend m, be_username = [], be_password = [], be_path = [], be_extra = [], be_fsi = None\<rparr> s1 of
             (Some err, _, s2) \<Rightarrow> (Some err, s2)
           | (None, b, s2) \<Rightarrow>
               (case dm_NewServer dm (Backend_FileSystem b) (Scheme (be_endpoint b) @ ''.fs'') (mc_mount_point m) s2 of
                  (Some err, s3) \<Rightarrow> (Some err, s3)
                | (None, s3) \<Rightarrow>
                    if \<not> mc_foreground m then dm_ServeSignals dm s3 else (None, dm_Serve dm s3))))"

definition mount_Run ::
  "('o, 'b, 's) backend_env \<Rightarrow> 's os_env \<Rightarrow> ('o, 'b, 's) daemon_env \<Rightarrow> mount_cmd \<Rightarrow> 's \<Rightarrow> go_error option \<times> 's" where
  "mount_Run env os dm m s =
     (if mc_delegate m then
        (case NewMounter env (Endpoint_String (mc_backend m)) s of
           (Inl err, s1) \<Rightarrow> (Some err, s1)
         | (Inr e, s1) \<Rightarrow> mounter_Mount os e (mc_mount_point m) s1)
      else if \<not> mc_foreground m then
        (case dm_Reborn dm s of
           (Inl err, s1) \<Rightarrow> (Some err, s1)
         | (Inr True, s1) \<Rightarrow> (None, s1)
         | (Inr False, s1) \<Rightarrow> (case mount_serve env os dm m s1 of (r, s2) \<Rightarrow> (r, dm_Release dm s2)))
      else mount_serve env os dm m s)"

section \<open>Volumes\<close>

record volume =
  vol_id :: string
  vol_uuid :: string
  vol_scheme :: string
  vol_host :: string
  vol_base :: string
  vol_size :: int

definition volume_id :: "volume \<Rightarrow> string" where
  "volume_id v = join_with ''#'' [vol_scheme v, vol_host v, vol_base v, vol_uuid v]"

definition newVolume ::
  "(string \<Rightarrow> go_error + string) \<Rightarrow> string \<Rightarrow> int \<Rightarrow> (string \<rightharpoonup> string) \<Rightarrow> go_error + volume" where
  "newVolume ip name sz secrets =
     (let v = \<lparr>vol_id = [], vol_uuid = name, vol_scheme = [], vol_host = [], vol_base = [], vol_size = sz\<rparr> in
      case (case secrets ''backend'' of
              None \<Rightarrow> Inr v
            | Some str \<Rightarrow>
                (case ParseEndpoint ip str of
                   Inl err \<Rightarrow> Inl err
                 | Inr e \<Rightarrow>
                     Inr (v\<lparr>vol_scheme := Scheme e, vol_host := Endpoint_Host e, vol_base := trim_both slash (Path e)\<rparr>))) of
        Inl err \<Rightarrow> Inl err
      | Inr v' \<Rightarrow> Inr (v'\<lparr>vol_id := volume_id v'\<rparr>))"

definition volumeFromID :: "string \<Rightarrow> go_error + volume" where
  "volumeFromID i =
     (case split_on CHR ''#'' i of
        [scheme, host, base, uuid] \<Rightarrow>
          Inr \<lparr>vol_id = i, vol_uuid = uuid, vol_scheme = scheme, vol_host = host, vol_base = base, vol_size = 0\<rparr>
      | _ \<Rightarrow> Inl (ErrorString (''invalid id '' @ i)))"

section \<open>The driver\<close>

datatype controller_cap = CREATE_DELETE_VOLUME | OTHER_CAP nat

datatype access_mode = SINGLE_NODE_WRITER | OTHER_MODE nat

record driver_context =
  dx_name :: string
  dx_vendor_version :: string
  dx_node_id :: string
  dx_controller_caps :: "controller_cap list"
  dx_access_modes :: "access_mode list"

definition NewControllerServiceCapability :: "controller_cap \<Rightarrow> controller_cap" where
  "NewControllerServiceCapability c = c"

definition NewVolumeCapabilityAccessMode :: "access_mode \<Rightarrow> access_mode" where
  "NewVolumeCapabilityAccessMode m = m"

definition AddControllerServiceCapabilities :: "driver_context \<Rightarrow> controller_cap list \<Rightarrow> driver_context" where
  "AddControllerServiceCapabilities n cl = n\<lparr>dx_controller_caps := map NewControllerServiceCapability cl\<rparr>"

definition AddVolumeCapabilityAccessModes :: "driver_context \<Rightarrow> access_mode list \<Rightarrow> driver_context" where
  "AddVolumeCapabilityAccessModes n nl = n\<lparr>dx_access_modes := map NewVolumeCapabilityAccessMode nl\<rparr>"

record csi_driver =
  cd_endpoint :: string
  cd_node_id :: string
  cd_context :: driver_context

definition Driver_Init :: "csi_driver \<Rightarrow> csi_driver" where
  "Driver_Init d =
     (let ctx = \<lparr>dx_name = ''csi-driver.unifs.octohelm.tech'', dx_vendor_version = ''v0.0.0'', dx_node_id = cd_node_id d,
                 dx_controller_caps = [], dx_access_modes = []\<rparr>;
          ctx1 = AddControllerServiceCapabilities ctx [CREATE_DELETE_VOLUME];
          ctx2 = AddVolumeCapabilityAccessModes ctx1 [SINGLE_NODE_WRITER] in
      d\<lparr>cd_context := ctx2\<rparr>)"

text \<open>The interceptor that \<open>Init\<close> installs around every handler: it logs the error of the call and hands on its result.\<close>

definition driver_logErr ::
  "('q \<Rightarrow> 's \<Rightarrow> 'r \<times> go_error option \<times> 's) \<Rightarrow> 'q \<Rightarrow> 's \<times> go_error list \<Rightarrow> ('r \<times> go_error option) \<times> 's \<times> go_error list" where
  "driver_logErr handler req = (\<lambda>(s, log).
     (case handler req s of
        (resp, None, s1) \<Rightarrow> ((resp, None), s1, log)
      | (resp, Some err, s1) \<Rightarrow> ((resp, Some err), s1, log @ [err])))"

text \<open>\<open>strings.SplitN\<close> in two at a longer separator.\<close>

fun cut_at :: "string \<Rightarrow> string \<Rightarrow> (string \<times> string) option" where
  "cut_at sep [] = (if sep = [] then Some ([], []) else None)"
| "cut_at sep (c # s) =
     (if has_prefix (c # s) sep then Some ([], drop (length sep) (c # s))
      else map_option (\<lambda>(a, b). (c # a, b)) (cut_at sep s))"

text \<open>\<open>strings.ToLower\<close>, as far as a test for an ASCII prefix sees it: besides the letters A to Z, two characters
  have an ASCII letter as their lower case, U+0130 (in UTF-8 the bytes C4 B0) and U+212A (the bytes E2 84 AA). The bytes of all
  others are left as they are; they are not ASCII, before and after.\<close>

fun lower_ascii :: "string \<Rightarrow> string" where
  "lower_ascii [] = []"
| "lower_ascii (c # s) =
     (if has_prefix (c # s) [CHR 0xC4, CHR 0xB0] then CHR ''i'' # lower_ascii (drop 1 s)
      else if has_prefix (c # s) [CHR 0xE2, CHR 0x84, CHR 0xAA] then CHR ''k'' # lower_ascii (drop 2 s)
      else hd (to_lower [c]) # lower_ascii s)"

definition csi_ParseEndpoint :: "string \<Rightarrow> go_error + string \<times> string" where
  "csi_ParseEndpoint ep =
     (if has_prefix (lower_ascii ep) ''unix://'' \<or> has_prefix (lower_ascii ep) ''tcp://'' then
        (case cut_at ''://'' ep of
           Some (scheme, addr) \<Rightarrow> if addr \<noteq> [] then Inr (scheme, addr) else Inl (ErrorString (''Invalid endpoint: '' @ ep))
         | None \<Rightarrow> Inl Panics)
      else Inl (ErrorString (''Invalid endpoint: '' @ ep)))"

text \<open>\<open>Serve\<close>; listening, and serving until the end, are parameters.\<close>

definition Driver_Serve ::
  "(string \<Rightarrow> string \<Rightarrow> 's \<Rightarrow> (go_error + 'l) \<times> 's) \<Rightarrow> ('l \<Rightarrow> 's \<Rightarrow> go_error option \<times> 's) \<Rightarrow> csi_driver \<Rightarrow> 's \<Rightarrow> go_error option \<times> 's" where
  "Driver_Serve net_Listen svc_Serve d s =
     (case csi_ParseEndpoint (cd_endpoint d) of
        Inl err \<Rightarrow> (Some err, s)
      | Inr (scheme, addr) \<Rightarrow>
          (case net_Listen scheme addr s of
             (Inl err, s1) \<Rightarrow> (Some err, s1)
           | (Inr l, s1) \<Rightarrow> svc_Serve l s1))"

section \<open>The identity server\<close>

definition GetPluginInfo :: "driver_context \<Rightarrow> go_error + string \<times> string" where
  "GetPluginInfo i = Inr (dx_name i, dx_vendor_version i)"

datatype plugin_cap = CONTROLLER_SERVICE

definition GetPluginCapabilities :: "go_error + plugin_cap list" where
  "GetPluginCapabilities = Inr [CONTROLLER_SERVICE]"

definition Probe :: "go_error + bool" where
  "Probe = Inr True"

section \<open>The controller server\<close>

text \<open>A volume capability says block, mount or neither; a map of the protocol may be missing.\<close>

datatype volume_access = AccessBlock | AccessMount | AccessNone

record create_request =
  cr_name :: string
  cr_caps :: "volume_access list"
  cr_parameters :: "(string \<rightharpoonup> string) option"
  cr_required_bytes :: "int option"
  cr_secrets :: "(string \<rightharpoonup> string) option"

record created_volume =
  cv_id :: string
  cv_capacity :: int
  cv_context :: "(string \<rightharpoonup> string) option"

definition map_or_empty :: "(string \<rightharpoonup> string) option \<Rightarrow> (string \<rightharpoonup> string)" where
  "map_or_empty m = (case m of Some f \<Rightarrow> f | None \<Rightarrow> Map.empty)"

definition isValidVolumeCapabilities :: "volume_access list \<Rightarrow> string option" where
  "isValidVolumeCapabilities caps =
     (if caps = [] then Some ''volume capabilities missing in request''
      else if AccessBlock \<in> set caps then Some ''block volume capability not supported''
      else None)"

definition ControllerGetCapabilities :: "driver_context \<Rightarrow> go_error + controller_cap list" where
  "ControllerGetCapabilities c = Inr (dx_controller_caps c)"

definition CreateVolume :: "(string \<Rightarrow> go_error + string) \<Rightarrow> create_request \<Rightarrow> go_error + created_volume" where
  "CreateVolume ip req =
     (if cr_name req = [] then Inl (StatusError InvalidArgument ''CreateVolume name must be provided'')
      else
        (case isValidVolumeCapabilities (cr_caps req) of
           Some msg \<Rightarrow> Inl (StatusError InvalidArgument msg)
         | None \<Rightarrow>
             (case newVolume ip (cr_name req) (case cr_required_bytes req of Some n \<Rightarrow> n | None \<Rightarrow> 0) (map_or_empty (cr_secrets req)) of
                Inl err \<Rightarrow> Inl err
              | Inr v \<Rightarrow> Inr \<lparr>cv_id = vol_id v, cv_capacity = vol_size v, cv_context = cr_parameters req\<rparr>)))"

definition DeleteVolume :: "string \<Rightarrow> go_error option" where
  "DeleteVolume i = None"

text \<open>The calls that the servers do not implement all answer the same.\<close>

datatype csi_call =
    GetSnapshot | ControllerModifyVolume | ControllerPublishVolume | ControllerUnpublishVolume | ValidateVolumeCapabilities
  | ControllerGetVolume | GetCapacity | ListVolumes | ControllerExpandVolume | CreateSnapshot | DeleteSnapshot | ListSnapshots
  | NodeStageVolume | NodeUnstageVolume | NodeExpandVolume

definition controller_unimplemented :: "csi_call \<Rightarrow> go_error" where
  "controller_unimplemented c = StatusError Unimplemented []"

definition node_unimplemented :: "csi_call \<Rightarrow> go_error" where
  "node_unimplemented c = StatusError Unimplemented []"

section \<open>The node server\<close>

record publish_request =
  pr_capability :: "volume_access option"
  pr_volume_id :: string
  pr_target_path :: string
  pr_secrets :: "(string \<rightharpoonup> string) option"

definition NodePublishVolume ::
  "(go_error \<Rightarrow> string) \<Rightarrow> ('o, 'b, 's) backend_env \<Rightarrow> 's os_env \<Rightarrow> publish_request \<Rightarrow> 's \<Rightarrow> go_error option \<times> 's" where
  "NodePublishVolume err_text env os req s =
     (if pr_capability req = None then (Some (StatusError InvalidArgument ''Volume capability missing in request''), s)
      else if pr_volume_id req = [] then (Some (StatusError InvalidArgument ''Volume ID missing in request''), s)
      else if pr_target_path req = [] then (Some (StatusError InvalidArgument ''Target path missing in request''), s)
      else
        (case map_or_empty (pr_secrets req) ''backend'' of
           None \<Rightarrow> (Some (StatusError InvalidArgument ''Missing backend in secret''), s)
         | Some b \<Rightarrow>
             (case NewMounter env b s of
                (Inl err, s1) \<Rightarrow> (Some (StatusError Internal (err_text err)), s1)
              | (Inr m, s1) \<Rightarrow>
                  (case mounter_Mount os m (pr_target_path req) s1 of
                     (Some err, s2) \<Rightarrow> (Some (StatusError Internal (err_text err)), s2)
                   | (None, s2) \<Rightarrow> (None, s2)))))"

definition NodeUnpublishVolume ::
  "(go_error \<Rightarrow> string) \<Rightarrow> 's os_env \<Rightarrow> string \<Rightarrow> string \<Rightarrow> 's \<Rightarrow> go_error option \<times> 's" where
  "NodeUnpublishVolume err_text os volumeID targetPath s =
     (if volumeID = [] then (Some (StatusError InvalidArgument ''Volume ID missing in request''), s)
      else if targetPath = [] then (Some (StatusError InvalidArgument ''Target path missing in request''), s)
      else
        (case FuseUnmount os targetPath s of
           (Some err, s1) \<Rightarrow> (Some (StatusError Internal (err_text err)), s1)
         | (None, s1) \<Rightarrow> (None, s1)))"

datatype node_cap = NODE_CAP_UNKNOWN

definition NodeGetCapabilities :: "go_error + node_cap list" where
  "NodeGetCapabilities = Inr [NODE_CAP_UNKNOWN]"

definition NodeGetVolumeStats :: "string \<Rightarrow> go_error option" where
  "NodeGetVolumeStats i = None"

definition NodeGetInfo :: "driver_context \<Rightarrow> go_error + string" where
  "NodeGetInfo n = Inr (dx_node_id n)"

end
