(* ===== verification/Services.thy ===== *)
theory Services
  imports Ftp_Server Ftp_Driver Csi
begin

text \<open>
  How the servers are started and stopped: the FTP server (\<open>pkg/ftp/server.go\<close>), the WebDAV server
  (\<open>cmd/unifs/webdav.go\<close>), and the shutdown of the CSI driver (\<open>pkg/csidriver/driver.go\<close>), a race of two
  goroutines given as a transition relation. What listens is a parameter.
\<close>

section \<open>The FTP server\<close>

text \<open>The server with its field \<open>ftp\<close>: nil before the first \<open>Serve\<close>, then the engine made for the driver,
  of which only the settings matter here.\<close>

record ftp_service = server +
  sv_ftp :: "settings option"

definition Server_Serve ::
  "(settings \<Rightarrow> 's \<Rightarrow> go_error option \<times> 's) \<Rightarrow> ftp_service \<Rightarrow> 's \<Rightarrow> go_error option \<times> ftp_service \<times> 's" where
  "Server_Serve ListenAndServe sv s =
     (case sv_ftp sv of
        None \<Rightarrow>
          (let d = \<lparr>ListenAddr = sv_addr sv, PublicHost = sv_public_host sv, DisableMLST = sv_disable_mlst sv,
                    DisableMLSD = sv_disable_mlsd sv\<rparr>;
               (r, s1) = ListenAndServe d s in
           (r, sv\<lparr>sv_ftp := Some d\<rparr>, s1))
      | Some _ \<Rightarrow> (None, sv, s))"

definition Server_Shutdown ::
  "(settings \<Rightarrow> 's \<Rightarrow> go_error option \<times> 's) \<Rightarrow> ftp_service \<Rightarrow> 's \<Rightarrow> go_error option \<times> 's" where
  "Server_Shutdown engine_Stop sv s =
     (case sv_ftp sv of None \<Rightarrow> (None, s) | Some d \<Rightarrow> engine_Stop d s)"

section \<open>The WebDAV server\<close>

text \<open>\<open>ws_svc\<close> is the HTTP server, by its address and the file system of its handler.\<close>

record ('o, 'b, 's) webdav_service =
  ws_addr :: string
  ws_backend :: "('o, 'b, 's) fs_backend"
  ws_svc :: "(string \<times> ('o, 'b, 's) mounted_fs option) option"

definition WebDAVServer_SetDefaults :: "('o, 'b, 's) webdav_service \<Rightarrow> ('o, 'b, 's) webdav_service" where
  "WebDAVServer_SetDefaults w = (if ws_addr w = [] then w\<lparr>ws_addr := '':8081''\<rparr> else w)"

definition WebDAVServer_Serve ::
  "(string \<times> ('o, 'b, 's) mounted_fs option \<Rightarrow> 's \<Rightarrow> go_error option \<times> 's) \<Rightarrow> ('o, 'b, 's) webdav_service \<Rightarrow> 's
    \<Rightarrow> go_error option \<times> ('o, 'b, 's) webdav_service \<times> 's" where
  "WebDAVServer_Serve ListenAndServe w s =
     (let svc = (ws_addr w, Backend_FileSystem (ws_backend w));
          (r, s1) = ListenAndServe svc s in
      (r, w\<lparr>ws_svc := Some svc\<rparr>, s1))"

text \<open>\<open>Shutdown\<close> calls the method of the server it has; before \<open>Serve\<close> that is a nil pointer, and the
  call panics (\<open>None\<close>).\<close>

definition WebDAVServer_Shutdown ::
  "(string \<times> ('o, 'b, 's) mounted_fs option \<Rightarrow> 's \<Rightarrow> go_error option \<times> 's) \<Rightarrow> ('o, 'b, 's) webdav_service \<Rightarrow> 's
    \<Rightarrow> (go_error option \<times> 's) option" where
  "WebDAVServer_Shutdown http_Shutdown w s = map_option (\<lambda>svc. http_Shutdown svc s) (ws_svc w)"

section \<open>The shutdown of the CSI driver\<close>

text \<open>
  \<open>Shutdown\<close> starts a goroutine that calls \<open>GracefulStop\<close> and then sends on an unbuffered channel, and
  itself waits for that message or for the end of its context, on which it calls \<open>Stop\<close>. Both answer nil.
  The gRPC server is a parameter: how it is when \<open>GracefulStop\<close> begins and when \<open>Stop\<close> returns, whether it has
  stopped to accept calls, whether no handler of a call is running, which is when \<open>GracefulStop\<close> returns, and what it
  does by itself.
\<close>

record 'g grpc_server =
  grpc_GracefulStop :: "'g \<Rightarrow> 'g"
  grpc_Stop :: "'g \<Rightarrow> 'g"
  refusing :: "'g \<Rightarrow> bool"
  drained :: "'g \<Rightarrow> bool"
  serves :: "'g \<Rightarrow> 'g \<Rightarrow> bool"

datatype main_point = Selecting | Stopping | Answered_done | Answered_ctx
datatype waiter_point = Spawned | Graceful | Sending | Ended

record 'g shutdown =
  sd_main :: main_point
  sd_waiter :: waiter_point
  sd_ctx_done :: bool
  sd_grpc :: 'g

text \<open>The steps of the code.\<close>

inductive Shutdown_step :: "'g grpc_server \<Rightarrow> 'g shutdown \<Rightarrow> 'g shutdown \<Rightarrow> bool" for svc :: "'g grpc_server" where
  begin_graceful: "sd_waiter c = Spawned \<Longrightarrow>
    Shutdown_step svc c (c\<lparr>sd_waiter := Graceful, sd_grpc := grpc_GracefulStop svc (sd_grpc c)\<rparr>)"
| end_graceful: "sd_waiter c = Graceful \<Longrightarrow> drained svc (sd_grpc c) \<Longrightarrow> Shutdown_step svc c (c\<lparr>sd_waiter := Sending\<rparr>)"
| message: "sd_waiter c = Sending \<Longrightarrow> sd_main c = Selecting \<Longrightarrow>
    Shutdown_step svc c (c\<lparr>sd_waiter := Ended, sd_main := Answered_done\<rparr>)"
| ctx_done: "sd_main c = Selecting \<Longrightarrow> sd_ctx_done c \<Longrightarrow> Shutdown_step svc c (c\<lparr>sd_main := Stopping\<rparr>)"
| stopped: "sd_main c = Stopping \<Longrightarrow>
    Shutdown_step svc c (c\<lparr>sd_main := Answered_ctx, sd_grpc := grpc_Stop svc (sd_grpc c)\<rparr>)"

code_pred (modes: i \<Rightarrow> i \<Rightarrow> o \<Rightarrow> bool) Shutdown_step .

text \<open>The steps of the surroundings: calls begin and end, and the context ends.\<close>

inductive Shutdown_env :: "'g grpc_server \<Rightarrow> 'g shutdown \<Rightarrow> 'g shutdown \<Rightarrow> bool" for svc :: "'g grpc_server" where
  serving: "serves svc (sd_grpc c) g \<Longrightarrow> Shutdown_env svc c (c\<lparr>sd_grpc := g\<rparr>)"
| cancel: "Shutdown_env svc c (c\<lparr>sd_ctx_done := True\<rparr>)"

inductive Shutdown_run :: "'g grpc_server \<Rightarrow> 'g shutdown \<Rightarrow> nat \<Rightarrow> 'g shutdown \<Rightarrow> bool"
  for svc :: "'g grpc_server" and c :: "'g shutdown" where
  begun: "Shutdown_run svc c 0 c"
| code_step: "Shutdown_run svc c n d \<Longrightarrow> Shutdown_step svc d e \<Longrightarrow> Shutdown_run svc c (Suc n) e"
| env_step: "Shutdown_run svc c n d \<Longrightarrow> Shutdown_env svc d e \<Longrightarrow> Shutdown_run svc c n e"

inductive_simps Shutdown_step_iff: "Shutdown_step svc c d"

definition Driver_Shutdown :: "'g \<Rightarrow> 'g shutdown" where
  "Driver_Shutdown g = \<lparr>sd_main = Selecting, sd_waiter = Spawned, sd_ctx_done = False, sd_grpc = g\<rparr>"

section \<open>Facts\<close>

text \<open>How far the two goroutines are, and what holds of them together.\<close>

definition shutdown_progress :: "'g shutdown \<Rightarrow> nat" where
  "shutdown_progress c = (case sd_main c of Selecting \<Rightarrow> 0 | Stopping \<Rightarrow> 1 | Answered_ctx \<Rightarrow> 2 | Answered_done \<Rightarrow> 1)
    + (case sd_waiter c of Spawned \<Rightarrow> 0 | Graceful \<Rightarrow> 1 | _ \<Rightarrow> 2)"

definition shutdown_inv :: "'g grpc_server \<Rightarrow> 'g shutdown \<Rightarrow> bool" where
  "shutdown_inv svc c \<longleftrightarrow> (sd_waiter c = Ended \<longleftrightarrow> sd_main c = Answered_done)
    \<and> (sd_waiter c \<noteq> Spawned \<longrightarrow> refusing svc (sd_grpc c))
    \<and> (sd_waiter c \<in> {Sending, Ended} \<longrightarrow> drained svc (sd_grpc c))
    \<and> (sd_main c \<in> {Stopping, Answered_ctx} \<longrightarrow> sd_ctx_done c)"

text \<open>What is documented of the gRPC server: from \<open>GracefulStop\<close> or \<open>Stop\<close> on no call is accepted, so that no handler starts to
  run once none does. \<open>Stop\<close> closes the connections but, without the option \<open>WaitForHandlers\<close>, which \<open>Init\<close> does not
  set, handlers may still be running when it returns; it starts none.\<close>

definition grpc_laws :: "'g grpc_server \<Rightarrow> bool" where
  "grpc_laws svc \<longleftrightarrow>
     (\<forall>g. refusing svc (grpc_GracefulStop svc g) \<and> refusing svc (grpc_Stop svc g))
     \<and> (\<forall>g. drained svc g \<longrightarrow> drained svc (grpc_GracefulStop svc g) \<and> drained svc (grpc_Stop svc g))
     \<and> (\<forall>g g'. refusing svc g \<longrightarrow> serves svc g g' \<longrightarrow> refusing svc g' \<and> (drained svc g \<longrightarrow> drained svc g'))"

lemma Shutdown_step_inv:
  assumes "Shutdown_step svc c d" "grpc_laws svc" "shutdown_inv svc c"
  shows "shutdown_inv svc d \<and> shutdown_progress d = Suc (shutdown_progress c)"
  using assms
  by (induction rule: Shutdown_step.induct)
    (auto simp: shutdown_inv_def shutdown_progress_def grpc_laws_def split: waiter_point.splits)

lemma Shutdown_env_inv:
  assumes "Shutdown_env svc c d" "grpc_laws svc" "shutdown_inv svc c"
  shows "shutdown_inv svc d \<and> shutdown_progress d = shutdown_progress c"
  using assms
  by (induction rule: Shutdown_env.induct) (auto simp: shutdown_inv_def shutdown_progress_def grpc_laws_def)

lemma Shutdown_run_inv:
  assumes "Shutdown_run svc (Driver_Shutdown g) n c" "grpc_laws svc"
  shows "shutdown_inv svc c \<and> shutdown_progress c = n"
  using assms
proof (induction rule: Shutdown_run.induct)
  case begun
  show ?case by (simp add: Driver_Shutdown_def shutdown_inv_def shutdown_progress_def)
qed (auto dest: Shutdown_step_inv Shutdown_env_inv)

lemma shutdown_progress_bound: "shutdown_inv svc c \<Longrightarrow> shutdown_progress c \<le> 4"
  by (simp add: shutdown_inv_def shutdown_progress_def split: main_point.split waiter_point.split)

lemma Shutdown_stuck:
  assumes "shutdown_inv svc c" "\<nexists>d. Shutdown_step svc c d" "sd_ctx_done c \<or> drained svc (sd_grpc c)"
  shows "refusing svc (sd_grpc c)
    \<and> (sd_main c = Answered_done \<and> sd_waiter c = Ended
       \<or> sd_main c = Answered_ctx \<and> sd_ctx_done c \<and> sd_waiter c = (if drained svc (sd_grpc c) then Sending else Graceful))"
  using assms by (cases "sd_main c"; cases "sd_waiter c") (auto simp: shutdown_inv_def Shutdown_step_iff)

text \<open>C39: The shutdown of the CSI driver ends, in every interleaving with its clients and its context: after at most
  four steps neither goroutine can take one. At any time, if it has answered because \<open>GracefulStop\<close> returned, no handler is running.
  When no step is left although the context has ended or no handler runs, it has answered and no call is accepted any more:
  either on the message, with its goroutine ended, or because the context has ended. Then handlers can still be running, as \<open>Stop\<close>
  does not wait for them, and the goroutine is left behind for ever: in \<open>GracefulStop\<close> while they run, and then
  sending to nobody.\<close>

theorem Driver_Shutdown_ends:
  assumes "grpc_laws svc" "Shutdown_run svc (Driver_Shutdown g) n c"
  shows "n \<le> 4
    \<and> (sd_main c = Answered_done \<longrightarrow> sd_waiter c = Ended \<and> refusing svc (sd_grpc c) \<and> drained svc (sd_grpc c))
    \<and> ((\<nexists>d. Shutdown_step svc c d) \<and> (sd_ctx_done c \<or> drained svc (sd_grpc c)) \<longrightarrow>
        refusing svc (sd_grpc c)
        \<and> (sd_main c = Answered_done
           \<or> sd_main c = Answered_ctx \<and> sd_ctx_done c \<and> sd_waiter c = (if drained svc (sd_grpc c) then Sending else Graceful)))"
proof -
  from Shutdown_run_inv [OF assms(2,1)] have c: "shutdown_inv svc c" "shutdown_progress c = n" by simp_all
  then have "n \<le> 4" using shutdown_progress_bound by blast
  moreover have "sd_main c = Answered_done \<longrightarrow> sd_waiter c = Ended \<and> refusing svc (sd_grpc c) \<and> drained svc (sd_grpc c)"
    using c(1) by (auto simp: shutdown_inv_def)
  ultimately show ?thesis using Shutdown_stuck [OF c(1)] by blast
qed

text \<open>A gRPC server by whether it is stopping and how many handlers run; while it is stopping their number does not grow.\<close>

definition counted_grpc :: "(bool \<times> nat) grpc_server" where
  "counted_grpc = \<lparr>grpc_GracefulStop = (\<lambda>(b, n). (True, n)), grpc_Stop = (\<lambda>(b, n). (True, n)), refusing = fst,
     drained = (\<lambda>(b, n). n = 0), serves = (\<lambda>(b, n) (b', n'). b' = b \<and> (b \<longrightarrow> n' \<le> n))\<rparr>"

lemma counted_grpc_laws: "grpc_laws counted_grpc"
  by (auto simp: grpc_laws_def counted_grpc_def)

text \<open>Two handlers run, of which one never ends, and the context ends while \<open>GracefulStop\<close> waits.\<close>

definition left_behind :: "(bool \<times> nat) shutdown" where
  "left_behind = \<lparr>sd_main = Answered_ctx, sd_waiter = Graceful, sd_ctx_done = True, sd_grpc = (True, 1)\<rparr>"

lemma left_behind_run: "Shutdown_run counted_grpc (Driver_Shutdown (False, 2)) 3 left_behind"
proof -
  let ?run = "Shutdown_run counted_grpc (Driver_Shutdown (False, 2 :: nat))"
  have "?run 0 (Driver_Shutdown (False, 2))" by (rule begun)
  then have "?run (Suc 0) \<lparr>sd_main = Selecting, sd_waiter = Graceful, sd_ctx_done = False, sd_grpc = (True, 2)\<rparr>"
    by (rule code_step) (simp add: Shutdown_step_iff Driver_Shutdown_def counted_grpc_def)
  from env_step [OF this serving [of _ _ "(True, 1)"]]
  have "?run (Suc 0) \<lparr>sd_main = Selecting, sd_waiter = Graceful, sd_ctx_done = False, sd_grpc = (True, 1)\<rparr>"
    by (simp add: counted_grpc_def)
  from env_step [OF this cancel]
  have "?run (Suc 0) \<lparr>sd_main = Selecting, sd_waiter = Graceful, sd_ctx_done = True, sd_grpc = (True, 1)\<rparr>" by simp
  then have "?run (Suc (Suc 0)) \<lparr>sd_main = Stopping, sd_waiter = Graceful, sd_ctx_done = True, sd_grpc = (True, 1)\<rparr>"
    by (rule code_step) (simp add: Shutdown_step_iff)
  then have "?run (Suc (Suc (Suc 0))) left_behind"
    by (rule code_step) (simp add: Shutdown_step_iff left_behind_def counted_grpc_def)
  then show ?thesis by (simp add: numeral_3_eq_3)
qed

lemma left_behind_stuck: "\<not> Shutdown_step counted_grpc left_behind d"
  by (simp add: Shutdown_step_iff left_behind_def counted_grpc_def)

text \<open>The other end: nothing runs, and the message is received.\<close>

lemma clean_run:
  "Shutdown_run counted_grpc (Driver_Shutdown (False, 0)) 3
     \<lparr>sd_main = Answered_done, sd_waiter = Ended, sd_ctx_done = False, sd_grpc = (True, 0)\<rparr>"
proof -
  let ?run = "Shutdown_run counted_grpc (Driver_Shutdown (False, 0 :: nat))"
  have "?run 0 (Driver_Shutdown (False, 0))" by (rule begun)
  then have "?run (Suc 0) \<lparr>sd_main = Selecting, sd_waiter = Graceful, sd_ctx_done = False, sd_grpc = (True, 0)\<rparr>"
    by (rule code_step) (simp add: Shutdown_step_iff Driver_Shutdown_def counted_grpc_def)
  then have "?run (Suc (Suc 0)) \<lparr>sd_main = Selecting, sd_waiter = Sending, sd_ctx_done = False, sd_grpc = (True, 0)\<rparr>"
    by (rule code_step) (simp add: Shutdown_step_iff counted_grpc_def)
  then have "?run (Suc (Suc (Suc 0))) \<lparr>sd_main = Answered_done, sd_waiter = Ended, sd_ctx_done = False, sd_grpc = (True, 0)\<rparr>"
    by (rule code_step) (simp add: Shutdown_step_iff)
  then show ?thesis by (simp add: numeral_3_eq_3)
qed

theorem Driver_Shutdown_ends_witness:
  "Shutdown_run counted_grpc (Driver_Shutdown (False, 2)) 3 left_behind
   \<and> sd_main left_behind = Answered_ctx \<and> sd_waiter left_behind = Graceful \<and> \<not> drained counted_grpc (sd_grpc left_behind)
   \<and> (\<exists>c. Shutdown_run counted_grpc (Driver_Shutdown (False, 0)) 3 c \<and> sd_main c = Answered_done \<and> sd_waiter c = Ended
        \<and> refusing counted_grpc (sd_grpc c) \<and> drained counted_grpc (sd_grpc c))"
proof (intro conjI)
  have nd: "\<not> drained counted_grpc (sd_grpc left_behind)" by (simp add: counted_grpc_def left_behind_def)
  then show "\<not> drained counted_grpc (sd_grpc left_behind)" .
  have "sd_main left_behind = Answered_ctx \<and> sd_waiter left_behind = Graceful"
    using Driver_Shutdown_ends [OF counted_grpc_laws left_behind_run] left_behind_stuck nd
    by (simp add: left_behind_def)
  then show "sd_main left_behind = Answered_ctx" "sd_waiter left_behind = Graceful" by simp_all
  show "\<exists>c. Shutdown_run counted_grpc (Driver_Shutdown (False, 0)) 3 c \<and> sd_main c = Answered_done \<and> sd_waiter c = Ended
      \<and> refusing counted_grpc (sd_grpc c) \<and> drained counted_grpc (sd_grpc c)"
    by (intro exI conjI, rule clean_run) (use Driver_Shutdown_ends [OF counted_grpc_laws clean_run] in simp_all)
qed (rule left_behind_run)

text \<open>So \<open>Shutdown\<close> can answer nil while a handler is running.\<close>

theorem Shutdown_leaves_handlers:
  "\<exists>c n. Shutdown_run counted_grpc (Driver_Shutdown (False, 2)) n c \<and> sd_main c = Answered_ctx \<and> \<not> drained counted_grpc (sd_grpc c)"
  using left_behind_run by (fastforce simp: left_behind_def counted_grpc_def)

end
