(* ===== verification/Ftp_S3.thy ===== *)
theory Ftp_S3
  imports Services S3_Props
begin

text \<open>
  The FTP server over the S3 file system: what a client that has logged in gets when it stores a file, through
  the adaptor (\<open>pkg/aferofsutil/adaptor.go\<close>), the logging wrapper and the S3 file system.
\<close>

text \<open>\<open>Write\<close> and \<open>Close\<close> of the adaptor's file are those of the file it embeds.\<close>

definition afile_Close :: "('h, 's) filesystem \<Rightarrow> 'h afile \<Rightarrow> 's \<Rightarrow> go_error option \<times> 'h afile \<times> 's" where
  "afile_Close fs f s = (case f_close fs (af_file f) s of (r, h, s1) \<Rightarrow> (r, f\<lparr>af_file := h\<rparr>, s1))"

text \<open>The protocol engine writes the chunks as they arrive, until one fails.\<close>

fun client_writes :: "('h, 's) filesystem \<Rightarrow> 'h afile \<Rightarrow> bytes list \<Rightarrow> 's \<Rightarrow> bool \<times> 'h afile \<times> 's" where
  "client_writes fs f [] s = (True, f, s)"
| "client_writes fs f (p # ps) s =
     (case afile_Write fs f p s of
        ((n, None), f', s') \<Rightarrow> client_writes fs f' ps s'
      | ((n, Some e), f', s') \<Rightarrow> (False, f', s'))"

section \<open>The file of a client\<close>

lemma AuthUser_f [simp]:
  "f_write (AuthUser f user pass) h p (s, log) = (case f_write f h p s of (r, h', s') \<Rightarrow> (r, h', s', log))"
  "f_close (AuthUser f user pass) h (s, log) = (case f_close f h s of (r, h', s') \<Rightarrow> (r, h', s', log))"
  "f_stat (AuthUser f user pass) h (s, log) = (case f_stat f h s of (r, h', s') \<Rightarrow> (r, h', s', log))"
  "fs_open_file (AuthUser f user pass) name flag perm (s, log) = (case fs_open_file f name flag perm s of
     (r, s') \<Rightarrow> (r, s', log @ [logr_done None ''openfile'' name []]))"
  by (simp_all add: AuthUser_def logr_Wrap_def unlogged_def logr_OpenFile_def deferred_def)

lemma s3_f_stat [simp]: "f_stat (s3_filesystem fuel F meta) = s3file_Stat F"
  by (simp add: s3_filesystem_def)

lemma client_writes_all:
  assumes "write_all f h ps s = (True, h', s')"
  shows "client_writes (AuthUser f user pass) \<lparr>af_info = i, af_file = h\<rparr> ps (s, log) = (True, \<lparr>af_info = i, af_file = h'\<rparr>, s', log)"
  using assms by (induction ps arbitrary: h s) (auto simp: afile_Write_def split: prod.splits option.splits)

text \<open>The flags a client's file is created with.\<close>

definition create_flags :: "open_flag set" where
  "create_flags = {O_RDWR OR O_CREATE OR O_TRUNC, O_WRONLY OR O_CREATE OR O_TRUNC}"

lemma create_flags_write:
  assumes "flag \<in> create_flags"
  shows "\<not> has_flag flag O_APPEND" "has_flag flag O_CREATE" "has_flag (flag OR O_WRONLY) O_WRONLY"
  using assms by (auto simp: create_flags_def has_flag_def open_flags)

context s3_mounted
begin

lemma open_for_write:
  assumes "list_all name_ok (cs @ [x])" "cs = [] \<or> s3_exists (objs s) (key_of ps cs)" "s3_presignForWrite F = None"
    and "flag \<in> create_flags"
  shows "s3_OpenFile F meta (abs_path (cs @ [x])) flag perm s = (Inr (new_file (abs_path (cs @ [x])) (flag OR O_WRONLY) meta True), s)"
  using assms(2,3) check_parent_abs [OF assms(1), of "abs_path (cs @ [x])" s] create_flags_write [OF assms(4)]
    abs_path_last [of x cs] assms(1)
  by (auto simp: s3_OpenFile_def s3_openFileForWrite_def Let_def has_suffix_iff)

end

text \<open>C40: An FTP client that stores a file over S3: if there is an object under the path, it is replaced by the
  chunks, in order, when the file is closed. But a new file cannot be stored: the adaptor asks for the \<open>Stat\<close> of the file
  it has just opened, which the S3 file system answers from the store, where nothing is before the first
  write; so the client is told that the file does not exist, and the log says that it was opened.\<close>

theorem Ftp_S3_upload:
  assumes "s3_reliable F objs ps legal" "list_all name_ok (cs @ [x])" "cs = [] \<or> s3_exists (objs s) (key_of ps cs)"
    and "legal (key_of ps (cs @ [x]))" "s3_presignForWrite F = None" "chunks \<noteq> []" "flag \<in> create_flags"
    and served_def: "served = AuthUser (s3_filesystem fuel F meta) user pass" and name_def: "name = abs_path (cs @ [x])"
    and log'_def: "log' = log @ [logr_done None ''openfile'' name []]"
  shows "(objs s (key_of ps (cs @ [x])) \<noteq> None \<longrightarrow>
      (\<exists>f f' f'' s1 s2. adaptor_OpenFile served name flag perm (s, log) = (Inr f, s, log')
        \<and> client_writes served f chunks (s, log') = (True, f', s1, log') \<and> afile_Close served f' (s1, log') = (None, f'', s2, log')
        \<and> objs s2 = (objs s)(key_of ps (cs @ [x]) \<mapsto> concat chunks)))
    \<and> (\<not> s3_exists (objs s) (key_of ps (cs @ [x])) \<longrightarrow>
        adaptor_OpenFile served name flag perm (s, log) = (Inl (PathError ''stat'' name ErrNotExist), s, log'))"
proof -
  have mounted: "s3_mounted F objs ps" using assms(1) by (simp add: s3_reliable_def)
  have path: "s3_path F name = key_of ps (cs @ [x])"
    unfolding name_def by (rule s3_path_abs [OF _ assms(2)]) (use mounted in \<open>simp add: s3_mounted_def s3_mounted_axioms_def\<close>)
  let ?f = "new_file name (flag OR O_WRONLY) meta True"
  have opened: "s3_OpenFile F meta name flag perm s = (Inr ?f, s)"
    unfolding name_def by (rule s3_mounted.open_for_write [OF mounted assms(2,3,5,7)])
  show ?thesis
  proof (cases "objs s (key_of ps (cs @ [x]))")
    case None
    then have "s3_Stat F name s = (Inl (PathError ''stat'' name ErrNotExist), s)"
      if "\<not> s3_exists (objs s) (key_of ps (cs @ [x]))"
      using s3_mounted.Stat_missing [OF mounted assms(2)] that by (simp add: name_def)
    then show ?thesis
      using None opened by (simp add: adaptor_OpenFile_def served_def log'_def s3file_Stat_def new_file_def)
  next
    case (Some d)
    then obtain t where "s3_Stat F name s = (Inr (NewFileInfo (last (cs @ [x])) (int (length d)) t), s)"
      using s3_mounted.Stat_found [OF mounted assms(2)] unfolding name_def by blast
    then have o: "adaptor_OpenFile served name flag perm (s, log) =
        (Inr \<lparr>af_info = NewFileInfo (last (cs @ [x])) (int (length d)) t, af_file = ?f\<rparr>, s, log')"
      using opened by (auto simp: adaptor_OpenFile_def served_def log'_def s3file_Stat_def new_file_def)
    obtain f' s1 f'' s2 where w: "write_chunks F ?f chunks s = (True, f', s1)" "s3file_Close F f' s1 = (None, f'', s2)"
      "objs s2 = (objs s)(s3_path F name \<mapsto> concat chunks)"
      using s3_reliable.upload_chunks [OF assms(1), of ?f chunks s] assms(4,6) path by (auto simp: new_file_def)
    have "client_writes served \<lparr>af_info = i, af_file = ?f\<rparr> chunks (s, log') = (True, \<lparr>af_info = i, af_file = f'\<rparr>, s1, log')" for i
      unfolding served_def by (rule client_writes_all) (simp add: write_all_chunks w(1))
    moreover have "afile_Close served \<lparr>af_info = i, af_file = f'\<rparr> (s1, log') = (None, \<lparr>af_info = i, af_file = f''\<rparr>, s2, log')" for i
      using w(2) by (simp add: afile_Close_def served_def)
    moreover have "s3_exists (objs s) (key_of ps (cs @ [x]))" by (rule s3_file_exists [of "objs s", OF Some])
    ultimately show ?thesis using o w(3) path by metis
  qed
qed

theorem Ftp_S3_upload_witness:
  "\<exists>f f' f'' s1 s2. adaptor_OpenFile (AuthUser (s3_filesystem 0 good_fs (\<lambda>_. [])) ''u'' ''p'') ''/a'' (O_RDWR OR O_CREATE OR O_TRUNC) 0
        (([(''a'', ''old'')], ()), []) = (Inr f, ([(''a'', ''old'')], ()), [logr_done None ''openfile'' ''/a'' []])
    \<and> client_writes (AuthUser (s3_filesystem 0 good_fs (\<lambda>_. [])) ''u'' ''p'') f [''x'', ''yz'']
        (([(''a'', ''old'')], ()), [logr_done None ''openfile'' ''/a'' []]) = (True, f', s1, [logr_done None ''openfile'' ''/a'' []])
    \<and> afile_Close (AuthUser (s3_filesystem 0 good_fs (\<lambda>_. [])) ''u'' ''p'') f' (s1, [logr_done None ''openfile'' ''/a'' []])
        = (None, f'', s2, [logr_done None ''openfile'' ''/a'' []])
    \<and> ref_objs s2 ''a'' = Some ''xyz''
    \<and> adaptor_OpenFile (AuthUser (s3_filesystem 0 good_fs (\<lambda>_. [])) ''u'' ''p'') ''/b'' (O_RDWR OR O_CREATE OR O_TRUNC) 0
        (([(''a'', ''old'')], ()), []) = (Inl (PathError ''stat'' ''/b'' ErrNotExist), ([(''a'', ''old'')], ()), [logr_done None ''openfile'' ''/b'' []])"
proof -
  let ?s = "([(''a'', ''old'')], ()) :: (string \<times> bytes) list \<times> unit"
  have keys: "abs_path [''a''] = ''/a''" "abs_path [''b''] = ''/b''" "key_of [] [''a''] = ''a''" "key_of [] [''b''] = ''b''"
    "list_all name_ok [''a'']" "list_all name_ok [''b'']" "ref_legal ''a''" "ref_legal ''b''" "s3_presignForWrite good_fs = None"
    by (simp_all add: ref_facts ref_legal_def)
  have flag: "O_RDWR OR O_CREATE OR O_TRUNC \<in> create_flags" by (simp add: create_flags_def)
  have objs: "ref_objs ?s ''a'' = Some ''old''" "\<not> s3_exists (ref_objs ?s) ''b''"
    by (simp_all add: ref_objs_def s3_exists_def)
  note up = Ftp_S3_upload [OF ref_good.s3_reliable_axioms, where cs = "[]" and s = ?s and chunks = "[''x'', ''yz'']" and log = "[]"
      and fuel = 0 and meta = "\<lambda>_. []" and user = "''u''" and pass = "''p''" and perm = 0, OF _ _ _ _ _ flag refl refl refl]
  let ?fs = "AuthUser (s3_filesystem 0 good_fs (\<lambda>_. [])) ''u'' ''p''" and ?log = "[logr_done None ''openfile'' ''/a'' []]"
  obtain f f' f'' s1 s2 where a: "adaptor_OpenFile ?fs ''/a'' (O_RDWR OR O_CREATE OR O_TRUNC) 0 (?s, []) = (Inr f, ?s, ?log)"
    "client_writes ?fs f [''x'', ''yz''] (?s, ?log) = (True, f', s1, ?log)" "afile_Close ?fs f' (s1, ?log) = (None, f'', s2, ?log)"
    "ref_objs s2 = (ref_objs ?s)(''a'' \<mapsto> ''xyz'')"
    using up [of "''a''"] keys objs by (simp del: client_writes.simps split_paired_Ex) blast
  have b: "adaptor_OpenFile ?fs ''/b'' (O_RDWR OR O_CREATE OR O_TRUNC) 0 (?s, [])
      = (Inl (PathError ''stat'' ''/b'' ErrNotExist), ?s, [logr_done None ''openfile'' ''/b'' []])"
    using up [of "''b''"] keys objs by (simp del: client_writes.simps split_paired_Ex)
  have "ref_objs s2 ''a'' = Some ''xyz''" using a(4) by simp
  with a(1-3) b show ?thesis by blast
qed

end
