(* ===== verification/Dav_Facts.thy ===== *)
theory Dav_Facts
  imports Dav_Fs
begin

text \<open>
  What the WebDAV properties rest on: the paths of requests, the URLs as they are sent, and two
  interfaces. \<open>dav_server\<close> is what RFC 4918 promises of a server that shows a tree of collections and
  resources; \<open>dav_bodies\<close> is what HTTP promises of a download with or without a range. Inside the first
  one the operations of the file system are computed, and it gives the interface of \<open>MkdirAll\<close>.
\<close>

section \<open>Paths of requests\<close>

lemma join_names_start:
  assumes "list_all name_ok cs" "cs \<noteq> []"
  obtains y ys where "join_with ''/'' cs = y # ys" "y \<noteq> slash"
proof -
  obtain x xs where cs: "cs = x # xs" using assms(2) by (cases cs) auto
  then have "x \<noteq> []" "slash \<notin> set x" using assms(1) by (auto dest: name_okD)
  then obtain y ys where "x = y # ys" "y \<noteq> slash" by (cases x) auto
  then show thesis using that cs by (cases xs) auto
qed

lemma trim_left_abs:
  assumes "list_all name_ok cs"
  shows "trim_left slash (abs_path cs @ t) = (if cs = [] then trim_left slash t else join_with ''/'' cs @ t)"
proof (cases "cs = []")
  case False
  then obtain y ys where "join_with ''/'' cs = y # ys" "y \<noteq> slash" using join_names_start assms by blast
  then show ?thesis using False by (simp add: trim_left_def abs_path_def)
qed (simp add: trim_left_def abs_path_def)

lemma foldl_clean_no_parent:
  "''..'' \<notin> set es \<Longrightarrow> foldl (clean_step True) st es = rev (filter good_elem es) @ st"
  by (induction es arbitrary: st) (auto simp: clean_step_def good_elem_def)

lemma path_join_base: "path_join [abs_path base, q] = abs_path (path_elems (abs_path base @ slash # q))"
  by (simp add: path_join_def path_clean_def abs_path_def)

lemma path_join_elems:
  assumes "list_all name_ok base" "''..'' \<notin> set (split_on slash q)"
  shows "path_join [abs_path base, q] = abs_path (base @ filter good_elem (split_on slash q))"
proof -
  have "abs_path base \<noteq> []" by (simp add: abs_path_def)
  then show ?thesis
    using assms path_elems_join [of "abs_path base" q] path_elems_abs [OF assms(1)]
    by (simp add: path_join_base foldl_clean_no_parent)
qed

lemma filter_good_split: "list_all name_ok (filter good_elem (split_on slash q))"
  using split_on_free [of _ slash q] by (auto simp: list_all_iff name_ok_def)

lemma split_names: "list_all name_ok cs \<Longrightarrow> cs \<noteq> [] \<Longrightarrow> split_on slash (join_with ''/'' cs) = cs"
  by (intro split_join) (auto simp: list_all_iff name_ok_def)

lemma filter_names: "list_all name_ok cs \<Longrightarrow> filter good_elem cs = cs"
  by (simp add: filter_id_conv list_all_iff name_ok_def)

text \<open>The names in which the file system writes the path \<open>cs\<close>: absolute or relative, with or without a
  slash at the end.\<close>

definition names_path :: "string \<Rightarrow> string list \<Rightarrow> bool" where
  "names_path name cs \<longleftrightarrow>
     ''..'' \<notin> set (split_on slash (trim_left slash name)) \<and> filter good_elem (split_on slash (trim_left slash name)) = cs"

lemma names_no_parent: "list_all name_ok cs \<Longrightarrow> ''..'' \<notin> set cs"
  by (auto simp: list_all_iff name_ok_def good_elem_def)

lemma names_path_root: "names_path ''/'' []" "names_path ''//'' []" "names_path [] []"
  by (simp_all add: names_path_def trim_left_def good_elem_def)

lemma names_path_abs:
  assumes "list_all name_ok cs"
  shows "names_path (abs_path cs) cs"
proof (cases "cs = []")
  case True
  then show ?thesis using names_path_root by (simp add: abs_path_def)
next
  case False
  then have "trim_left slash (abs_path cs) = join_with ''/'' cs"
    using trim_left_abs [OF assms, of "[]"] by simp
  then show ?thesis
    unfolding names_path_def split_names [OF assms False] filter_names [OF assms] using names_no_parent [OF assms]
    by (simp add: split_names [OF assms False] filter_names [OF assms])
qed

lemma names_path_slash:
  assumes "list_all name_ok cs"
  shows "names_path (abs_path cs @ ''/'') cs"
proof (cases "cs = []")
  case True
  then show ?thesis using names_path_root by (simp add: abs_path_def)
next
  case False
  then have "split_on slash (trim_left slash (abs_path cs @ ''/'')) = cs @ [[]]"
    using trim_left_abs [OF assms, of "''/''"] split_on_append [of slash "join_with ''/'' cs" "[]"]
    by (simp add: split_names [OF assms False])
  then show ?thesis
    using names_no_parent [OF assms] by (simp add: names_path_def filter_names [OF assms]) (simp add: good_elem_def)
qed

lemma join_names: "list_all name_ok base \<Longrightarrow> names_path name cs \<Longrightarrow>
    path_join [abs_path base, trim_left slash name] = abs_path (base @ cs)"
  by (auto simp: names_path_def path_join_elems)

lemma abs_path_names: "list_all name_ok cs \<Longrightarrow> abs_path cs = abs_path ds \<Longrightarrow> list_all name_ok ds \<Longrightarrow> cs = ds"
  by (metis path_elems_abs)

section \<open>URLs of requests\<close>

lemma Endpoint_url_path: "(Endpoint_url e)\<lparr>url_path := q\<rparr> = Endpoint_url (e\<lparr>Path := q\<rparr>)"
  by (simp add: Endpoint_url_def Endpoint_Host_def)

lemma host_no_empty_port: "wf_hostname (Hostname e) \<Longrightarrow> remove_empty_port (Endpoint_Host e) = Endpoint_Host e"
proof -
  assume h: "wf_hostname (Hostname e)"
  have "\<not> has_suffix (Endpoint_Host e) '':''"
  proof (cases "Port e = 0")
    case True
    then show ?thesis using h by (auto simp: Endpoint_Host_def has_suffix_iff wf_hostname_def)
  next
    case False
    obtain d ds where d: "format_uint (unat (Port e)) = ds @ [d]"
      using format_uint_facts by (meson rev_exhaust)
    then have "d \<noteq> CHR '':''"
      using format_uint_facts [of "unat (Port e)"] by (auto simp: is_digit_def)
    then show ?thesis using False d by (auto simp: Endpoint_Host_def has_suffix_iff)
  qed
  then show ?thesis by (simp add: remove_empty_port_def)
qed

lemma client_req_url:
  assumes "dc_endpoint c = Endpoint_url ep" "wf_endpoint ep" "Path ep = abs_path base"
  shows "client_req c m p body = Inr \<lparr>rq_method = m,
      rq_url = Endpoint_url (ep\<lparr>Path := path_join [abs_path base, trim_left slash p]\<rparr>), rq_header = [], rq_body = body\<rparr>"
proof -
  let ?e = "ep\<lparr>Path := path_join [abs_path base, trim_left slash p]\<rparr>"
  have wf: "wf_endpoint ?e" using assms(2) by (simp add: wf_endpoint_def path_join_base)
  have h: "ResolveHref c p = Inr (Endpoint_url ?e)"
    using assms(1,3) by (simp add: ResolveHref_def Endpoint_url_path) (simp add: Endpoint_url_def empty_url_def)
  have "url_parse (dc_ip_literal c) (url_string (Endpoint_url ?e)) = Inr (Endpoint_url ?e)"
    using url_parse_wf [OF wf] by (simp add: Endpoint_String_def)
  moreover have "(Endpoint_url ?e)\<lparr>url_host := remove_empty_port (url_host (Endpoint_url ?e))\<rparr> = Endpoint_url ?e"
    using host_no_empty_port [of ?e] wf by (simp add: Endpoint_url_def empty_url_def wf_endpoint_def)
  ultimately show ?thesis by (simp add: client_req_def h)
qed

section \<open>Responses that describe an entry\<close>

datatype dav_kind = Collection | Resource int

text \<open>A server writes a collection with a slash at the end.\<close>

definition entry_path :: "string list \<Rightarrow> dav_kind \<Rightarrow> string" where
  "entry_path cs k = (if k = Collection \<and> cs \<noteq> [] then abs_path cs @ ''/'' else abs_path cs)"

definition describes :: "(string \<Rightarrow> go_error + int) \<Rightarrow> dav_response \<Rightarrow> string list \<Rightarrow> dav_kind \<Rightarrow> bool" where
  "describes parse_time resp cs k \<longleftrightarrow>
     rs_status resp = None \<and> (\<exists>h. rs_hrefs resp = [h] \<and> url_path h = entry_path cs k)
     \<and> (\<exists>rt. Response_DecodeProp resp ResourceType = Inr rt \<and> ResourceType_Is rt CollectionName = (k = Collection))
     \<and> (\<forall>n. k = Resource n \<longrightarrow> Response_DecodeProp resp GetContentLength = Inr n
          \<and> (case Response_DecodeProp resp (GetLastModified parse_time) of Inl e \<Rightarrow> IsNotFound e | Inr _ \<Rightarrow> True))"

definition shows_kind :: "file_info \<Rightarrow> dav_kind \<Rightarrow> bool" where
  "shows_kind fi k \<longleftrightarrow> (case k of Collection \<Rightarrow> fi_is_dir fi | Resource n \<Rightarrow> \<not> fi_is_dir fi \<and> fi_size fi = n)"

lemma prefix_select:
  "rs_prop_stats (resp\<lparr>rs_prefix := p\<rparr>) = rs_prop_stats resp" "rs_error (resp\<lparr>rs_prefix := p\<rparr>) = rs_error resp"
  "rs_description (resp\<lparr>rs_prefix := p\<rparr>) = rs_description resp" "rs_status (resp\<lparr>rs_prefix := p\<rparr>) = rs_status resp"
  by simp_all

lemma Response_Err_prefix [simp]: "Response_Err (resp\<lparr>rs_prefix := p\<rparr>) = Response_Err resp"
  unfolding Response_Err_def prefix_select by (rule refl)

lemma DecodeProp_prefix [simp]: "Response_DecodeProp (resp\<lparr>rs_prefix := p\<rparr>) v = Response_DecodeProp resp v"
  unfolding Response_DecodeProp_def Response_Err_prefix prefix_select by (rule refl)

lemma abs_path_under: "bs \<noteq> [] \<Longrightarrow> abs_path (bs @ cs) = abs_path bs @ (if cs = [] then [] else abs_path cs)"
  by (cases "cs = []") (simp_all add: abs_path_def join_with_append)

lemma trim_entry_path:
  assumes "base \<noteq> []" "cs \<noteq> [] \<or> k = Collection"
  shows "trim_prefix (entry_path (base @ cs) k) (abs_path base) = entry_path cs k"
proof -
  have "entry_path (base @ cs) k = abs_path base @ entry_path cs k"
  proof (cases "cs = []")
    case True
    then have "k = Collection" using assms(2) by simp
    then show ?thesis using True assms(1) by (simp add: entry_path_def) (simp add: abs_path_def)
  next
    case False
    then show ?thesis using assms(1) by (simp add: entry_path_def abs_path_under)
  qed
  then show ?thesis by simp
qed

lemma describes_path:
  assumes "describes parse_time resp (base @ cs) k" "cs \<noteq> [] \<or> k = Collection" "list_all name_ok base"
  shows "Response_Path (resp\<lparr>rs_prefix := abs_path base\<rparr>) = (entry_path cs k, None)"
proof -
  obtain h where h: "rs_status resp = None" "rs_hrefs resp = [h]" "url_path h = entry_path (base @ cs) k"
    using assms(1) by (auto simp: describes_def)
  have err: "Response_Err resp = None" using h(1) by (simp add: Response_Err_def)
  have ne: "entry_path (base @ cs) k \<noteq> []" "abs_path base \<noteq> []" by (simp_all add: entry_path_def abs_path_def)
  show ?thesis
  proof (cases "base = []")
    case True
    then show ?thesis using h err by (simp add: Response_Path_def abs_path_def)
  next
    case False
    then have "abs_path base \<noteq> ''/''" using abs_path_inject [OF assms(3), of "[]"] by (auto simp: abs_path_def)
    then show ?thesis
      using h err ne trim_entry_path [OF False assms(2)] by (simp add: Response_Path_def)
  qed
qed

lemma path_base_entry: "list_all name_ok cs \<Longrightarrow> cs \<noteq> [] \<Longrightarrow> path_base (entry_path cs k) = last cs"
proof (induction cs rule: rev_induct)
  case (snoc c cs)
  have "path_base (abs_path (cs @ [c]) @ ''/'') = path_base (abs_path (cs @ [c]))"
    by (simp add: path_base_def) (simp add: abs_path_def)
  then show ?case using snoc path_base_abs [of c cs] by (simp add: entry_path_def)
qed simp

lemma describes_info:
  assumes "describes parse_time resp (base @ cs) k" "list_all name_ok base" "cs \<noteq> [] \<or> k = Collection"
  shows "\<exists>fi. Response_FileInfo parse_time (resp\<lparr>rs_prefix := abs_path base\<rparr>) = Inr fi
    \<and> shows_kind fi k \<and> fi_name fi = path_base (entry_path cs k)"
proof -
  let ?r = "resp\<lparr>rs_prefix := abs_path base\<rparr>"
  note path = describes_path [OF assms(1,3,2)]
  obtain rt where rt: "Response_DecodeProp resp ResourceType = Inr rt" "ResourceType_Is rt CollectionName = (k = Collection)"
    using assms(1) by (auto simp: describes_def)
  show ?thesis
  proof (cases k)
    case Collection
    then show ?thesis using path rt by (simp add: Response_FileInfo_def shows_kind_def)
  next
    case (Resource n)
    then have "Response_DecodeProp resp GetContentLength = Inr n"
      "case Response_DecodeProp resp (GetLastModified parse_time) of Inl e \<Rightarrow> IsNotFound e | Inr _ \<Rightarrow> True"
      using assms(1) by (auto simp: describes_def)
    then show ?thesis
      using path rt Resource by (auto simp: Response_FileInfo_def shows_kind_def split: sum.splits)
  qed
qed

end
