(* ===== verification/Dav_Server.thy ===== *)
theory Dav_Server
  imports Dav_Facts
begin

text \<open>
  The WebDAV server the file system relies on, as a locale, with the operations of the file system
  computed on it; then a reference server, a tree of byte strings behind HTTP requests and XML
  tokens, on which the locale is interpreted.

  \<open>kind s\<close> is the tree in the state \<open>s\<close>, below the path of the endpoint. Looking changes nothing; a
  missing entry is answered with 404, one that exists with a multi-status that describes it, with
  depth one followed by its children; \<open>MKCOL\<close> that does not fail makes a collection, and takes none away.
\<close>

locale dav_server =
  fixes c :: "('b, 's) dav_client"
    and ep :: Endpoint
    and base :: "string list"
    and kind :: "'s \<Rightarrow> string list \<Rightarrow> dav_kind option"
  assumes endpoint: "dc_endpoint c = Endpoint_url ep" "wf_endpoint ep" "Path ep = abs_path base" "list_all name_ok base"
    and close_pure: "snd (dc_close c b s) = s"
    and xml_pure: "snd (dc_xml c b s) = s"
    and propfind_pure: "rq_method r = ''PROPFIND'' \<Longrightarrow> snd (dc_do c r s) = s"
    and root_collection: "kind s [] = Some Collection"
    and propfind_missing: "rq_method r = ''PROPFIND'' \<Longrightarrow> list_all name_ok cs \<Longrightarrow> url_path (rq_url r) = abs_path (base @ cs) \<Longrightarrow>
      kind s cs = None \<Longrightarrow> \<exists>b. fst (dc_do c r s) = Inr (404, b)"
    and propfind_found: "rq_method r = ''PROPFIND'' \<Longrightarrow> list_all name_ok cs \<Longrightarrow> url_path (rq_url r) = abs_path (base @ cs) \<Longrightarrow>
      kind s cs = Some k \<Longrightarrow> header_get ''Depth'' r = Some ''0'' \<Longrightarrow>
      \<exists>b tokens eof resp ms. fst (dc_do c r s) = Inr (207, b) \<and> fst (dc_xml c b s) = (tokens, eof)
        \<and> decode_body (decode_multi_status (dc_ip_literal c)) eof tokens = Inr ms \<and> ms_responses ms = [resp]
        \<and> describes (dc_parse_time c) resp (base @ cs) k"
    and propfind_children: "rq_method r = ''PROPFIND'' \<Longrightarrow> list_all name_ok cs \<Longrightarrow> url_path (rq_url r) = abs_path (base @ cs) \<Longrightarrow>
      kind s cs = Some Collection \<Longrightarrow> header_get ''Depth'' r = Some ''1'' \<Longrightarrow>
      \<exists>b tokens eof self resps xs ms. fst (dc_do c r s) = Inr (207, b) \<and> fst (dc_xml c b s) = (tokens, eof)
        \<and> decode_body (decode_multi_status (dc_ip_literal c)) eof tokens = Inr ms \<and> ms_responses ms = self # resps
        \<and> describes (dc_parse_time c) self (base @ cs) Collection
        \<and> set xs = {x. name_ok x \<and> kind s (cs @ [x]) \<noteq> None}
        \<and> list_all2 (\<lambda>resp x. describes (dc_parse_time c) resp (base @ cs @ [x]) (the (kind s (cs @ [x])))) resps xs"
    and mkcol_makes: "rq_method r = ''MKCOL'' \<Longrightarrow> list_all name_ok cs \<Longrightarrow> url_path (rq_url r) = abs_path (base @ cs) \<Longrightarrow>
      dc_do c r s = (Inr (code, b), s') \<Longrightarrow> code < 400 \<Longrightarrow> kind s' cs = Some Collection"
    and mkcol_keeps: "rq_method r = ''MKCOL'' \<Longrightarrow> kind s ds = Some Collection \<Longrightarrow> kind (snd (dc_do c r s)) ds = Some Collection"
begin

lemma req: "client_req c m p body = Inr \<lparr>rq_method = m,
      rq_url = Endpoint_url (ep\<lparr>Path := path_join [abs_path base, trim_left slash p]\<rparr>), rq_header = [], rq_body = body\<rparr>"
  using client_req_url endpoint by blast

definition dav_req :: "string \<Rightarrow> string list \<Rightarrow> (string \<times> string) list \<Rightarrow> dav_body \<Rightarrow> dav_request" where
  "dav_req m cs hs body = \<lparr>rq_method = m, rq_url = Endpoint_url (ep\<lparr>Path := abs_path (base @ cs)\<rparr>), rq_header = hs, rq_body = body\<rparr>"

lemma dav_req_simps [simp]:
  "rq_method (dav_req m cs hs body) = m" "url_path (rq_url (dav_req m cs hs body)) = abs_path (base @ cs)"
  "header_add k v (dav_req m cs hs body) = dav_req m cs (hs @ [(k, v)]) body"
  "rq_header (dav_req m cs hs body) = hs" "rq_body (dav_req m cs hs body) = body"
  by (simp_all add: dav_req_def Endpoint_url_def header_add_def)

lemma req_names: "names_path p cs \<Longrightarrow> client_req c m p body = Inr (dav_req m cs [] body)"
  by (simp add: req join_names endpoint dav_req_def)

lemma info_tokens: "\<exists>tokens. PropFind_tokens FileInfoPropFind = Inr tokens"
  by (simp add: PropFind_tokens_def FileInfoPropFind_def NewPropNamePropFind_def xmlNamesToRaw_def
      NewRawXMLElement_def collect_def)

abbreviation find_req :: "string list \<Rightarrow> string \<Rightarrow> dav_request" where
  "find_req cs d \<equiv> dav_req ''PROPFIND'' cs [(''Content-Type'', ''text/xml; charset=utf-8''), (''Depth'', d)]
     (XmlBody (case PropFind_tokens FileInfoPropFind of Inr t \<Rightarrow> t | Inl _ \<Rightarrow> []))"

lemma PropFind_names:
  assumes "names_path p cs" "Depth_String d = Inr ds"
  shows "client_PropFind c p d (Some FileInfoPropFind) s = client_doMultiStatus c (find_req cs ds) s"
  using info_tokens assms by (auto simp: client_PropFind_def client_reqXML_def req_names)

lemma do_find: "dc_do c (find_req cs d) s = (fst (dc_do c (find_req cs d) s), s)"
  using propfind_pure [of "find_req cs d" s] by (cases "dc_do c (find_req cs d) s") simp

lemma find_missing:
  assumes "names_path p cs" "list_all name_ok cs" "kind s cs = None" "Depth_String d = Inr ds"
  shows "client_PropFind c p d (Some FileInfoPropFind) s
    = (Inr (NewMultiStatus [NewErrorResponse (abs_path (base @ cs)) (HTTPError 404 None) (HTTPError_Error 404 None)]), s)"
proof -
  obtain b where "fst (dc_do c (find_req cs ds) s) = Inr (404, b)"
    using propfind_missing [of "find_req cs ds" cs s] assms by auto
  then show ?thesis
    using do_find [of cs ds s] close_pure [of b s] PropFind_names [OF assms(1,4), of s]
    by (simp add: client_doMultiStatus_def client_do_def)
qed

lemma find_found:
  assumes "names_path p cs" "list_all name_ok cs" "kind s cs = Some k"
  shows "\<exists>resp ms. client_PropFind c p 0 (Some FileInfoPropFind) s = (Inr ms, s)
    \<and> ms_responses ms = [resp\<lparr>rs_prefix := abs_path base\<rparr>] \<and> describes (dc_parse_time c) resp (base @ cs) k"
proof -
  have hd: "header_get ''Depth'' (find_req cs ''0'') = Some ''0''" by (simp add: header_get_def)
  obtain b tokens eof resp ms where b: "fst (dc_do c (find_req cs ''0'') s) = Inr (207, b)" "fst (dc_xml c b s) = (tokens, eof)"
    "decode_body (decode_multi_status (dc_ip_literal c)) eof tokens = Inr ms" "ms_responses ms = [resp]"
    "describes (dc_parse_time c) resp (base @ cs) k"
    using propfind_found [OF _ assms(2) _ assms(3) hd] by auto
  have pre: "url_path (dc_endpoint c) = abs_path base" using endpoint by (simp add: Endpoint_url_def empty_url_def)
  have "Depth_String 0 = Inr ''0''" by (simp add: Depth_String_def DepthZero_def)
  then show ?thesis
    using do_find [of cs "''0''" s] close_pure [of b s] xml_pure [of b s] PropFind_names [OF assms(1), of 0 "''0''" s] b pre
    by (cases "dc_xml c b s") (auto simp: client_doMultiStatus_def client_do_def)
qed

lemma missing_info: "Response_FileInfo pt (NewErrorResponse p (HTTPError 404 None) text) = Inl (HTTPError 404 (Some
    (if text \<noteq> [] then WrapError text (DavError None) else DavError None)))"
  by (simp add: Response_FileInfo_def Response_Path_def NewErrorResponse_def Response_Err_def empty_response_def)

text \<open>\<open>Stat\<close> and \<open>Open\<close> on every kind of entry.\<close>

lemma Stat_kind:
  assumes "names_path p cs" "list_all name_ok cs"
  shows "case kind s cs of
      None \<Rightarrow> dav_Stat c p s = (Inl (PathError ''stat'' p ErrNotExist), s)
    | Some k \<Rightarrow> \<exists>fi. dav_Stat c p s = (Inr fi, s) \<and> shows_kind fi k \<and> fi_name fi = path_base (entry_path cs k)"
proof (cases "kind s cs")
  case None
  have "Depth_String 0 = Inr ''0''" by (simp add: Depth_String_def DepthZero_def)
  from find_missing [OF assms None this] None show ?thesis
    by (simp add: dav_Stat_def NewMultiStatus_def missing_info IsNotFound_def)
next
  case (Some k)
  then obtain resp ms where ms: "client_PropFind c p 0 (Some FileInfoPropFind) s = (Inr ms, s)"
    "ms_responses ms = [resp\<lparr>rs_prefix := abs_path base\<rparr>]" "describes (dc_parse_time c) resp (base @ cs) k"
    using find_found [OF assms] by blast
  have "cs \<noteq> [] \<or> k = Collection" using Some root_collection [of s] by auto
  then show ?thesis
    using ms Some describes_info [OF ms(3) endpoint(4)] by (auto simp: dav_Stat_def)
qed

lemma Stat_pure:
  "snd (dav_Stat c p s) = s"
proof -
  have "snd (client_doMultiStatus c r s) = s" if "rq_method r = ''PROPFIND''" for r
    using propfind_pure [OF that, of s] close_pure xml_pure
    by (auto simp: client_doMultiStatus_def client_do_def split: prod.splits sum.splits) (metis snd_conv)+
  then have "snd (client_PropFind c p 0 (Some FileInfoPropFind) s) = s"
    by (auto simp: client_PropFind_def client_reqXML_def req header_add_def split: sum.splits)
  then show ?thesis
    by (auto simp: dav_Stat_def split: prod.splits sum.splits list.splits)
qed

lemma Stat_missing: "names_path p cs \<Longrightarrow> list_all name_ok cs \<Longrightarrow> kind s cs = None \<Longrightarrow>
    dav_Stat c p s = (Inl (PathError ''stat'' p ErrNotExist), s)"
  using Stat_kind [of p cs s] by simp

lemma Stat_found: "names_path p cs \<Longrightarrow> list_all name_ok cs \<Longrightarrow> kind s cs = Some k \<Longrightarrow>
    \<exists>fi. dav_Stat c p s = (Inr fi, s) \<and> shows_kind fi k \<and> fi_name fi = path_base (entry_path cs k)"
  using Stat_kind [of p cs s] by simp

lemma check_parent:
  assumes "list_all name_ok ds" "name_ok d" "name = abs_path (ds @ [d]) \<or> name = abs_path (ds @ [d]) @ ''/''"
  shows "dav_check_parent c name s =
    (if kind s ds = None then Some (PathError ''stat'' (abs_path ds) ErrNotExist) else None, s)"
proof -
  have "trim_right slash (abs_path (ds @ [d])) = abs_path (ds @ [d])"
    using assms(2) by (intro trim_right_id abs_path_last) (simp_all add: abs_path_def)
  then have dir: "path_dir (trim_right slash name) = abs_path ds"
    using assms path_dir_abs [of ds d] by auto
  show ?thesis
  proof (cases "ds = []")
    case True
    then show ?thesis using root_collection [of s] unfolding dav_check_parent_def Let_def dir by (simp add: abs_path_def)
  next
    case False
    then have "abs_path ds \<noteq> ''/''" using abs_path_inject [OF assms(1), of "[]"] by (auto simp: abs_path_def)
    then show ?thesis
      using Stat_kind [OF names_path_abs [OF assms(1)] assms(1), of s] unfolding dav_check_parent_def Let_def dir
      by (auto split: option.splits)
  qed
qed

text \<open>\<open>Mkdir\<close>, branch by branch.\<close>

lemma Mkdir_exists:
  assumes "list_all name_ok cs" "kind s cs = Some k"
  shows "dav_Mkdir c (abs_path cs) m s = (Some (PathError ''mkdir'' (abs_path cs) ErrExist), s)"
  using Stat_found [OF names_path_abs [OF assms(1)] assms] by (auto simp: dav_Mkdir_def)

lemma O_CREATE_only: "has_flag O_CREATE O_CREATE" "\<not> has_flag O_CREATE O_APPEND"
  by (simp_all add: has_flag_def open_flags)

lemma Mkdir_new:
  assumes "list_all name_ok ds" "name_ok d" "kind s (ds @ [d]) = None"
  shows "dav_Mkdir c (abs_path (ds @ [d])) m s =
    (if kind s ds = None then (Some (PathError ''stat'' (abs_path ds) ErrNotExist), s)
     else
       (case client_doSimple c (dav_req ''MKCOL'' (ds @ [d]) [] NoBody) s of
          (Some err, s1) \<Rightarrow> (Some err, s1)
        | (None, s1) \<Rightarrow>
            (case dav_Stat c (abs_path (ds @ [d]) @ ''/'') s1 of (Inl err, s2) \<Rightarrow> (Some err, s2) | (Inr _, s2) \<Rightarrow> (None, s2))))"
proof -
  let ?cs = "ds @ [d]"
  have cs: "list_all name_ok ?cs" using assms by simp
  have "dav_openDir c (abs_path ?cs @ ''/'') s =
    (if kind s ds = None then (Inl (PathError ''stat'' (abs_path ds) ErrNotExist), s)
     else
       (case client_doSimple c (dav_req ''MKCOL'' ?cs [] NoBody) s of
          (Some err, s1) \<Rightarrow> (Inl err, s1)
        | (None, s1) \<Rightarrow>
            (case dav_Stat c (abs_path ?cs @ ''/'') s1 of
               (Inl err, s2) \<Rightarrow> (Inl err, s2) | (Inr fi, s2) \<Rightarrow> (Inr (dav_dir_file fi), s2))))"
    using Stat_missing [OF names_path_slash [OF cs] cs assms(3)] check_parent [OF assms(1,2), of _ s]
      req_names [OF names_path_slash [OF cs]]
    by (simp add: dav_openDir_def client_MkCol_def os_is_not_exist_def underlying_error_is_def)
  then show ?thesis
    using Stat_missing [OF names_path_abs [OF cs] cs assms(3)] cs O_CREATE_only
    by (auto simp: dav_Mkdir_def dav_OpenFile_def path_clean_abs dav_dir_file_def davfile_Close_def
        split: prod.splits option.splits sum.splits)
qed

lemma doSimple_mkcol:
  assumes "client_doSimple c (dav_req ''MKCOL'' cs [] NoBody) s = (err, s1)" "list_all name_ok cs"
  shows "(err = None \<longrightarrow> kind s1 cs = Some Collection) \<and> (kind s ds = Some Collection \<longrightarrow> kind s1 ds = Some Collection)"
proof (cases "dc_do c (dav_req ''MKCOL'' cs [] NoBody) s")
  case (Pair res s')
  then show ?thesis
    using assms mkcol_makes [of "dav_req ''MKCOL'' cs [] NoBody" cs s _ _ s'] close_pure
      mkcol_keeps [of "dav_req ''MKCOL'' cs [] NoBody" s ds]
    by (cases res) (auto simp: client_doSimple_def client_do_def not_le split: if_splits)
qed

lemma dir_at_kind:
  assumes "list_all name_ok cs"
  shows "is_dir_at (Dav_NewFS c) s (abs_path cs) \<longleftrightarrow> kind s cs = Some Collection"
proof (cases "kind s cs")
  case None
  then show ?thesis using Stat_missing [OF names_path_abs [OF assms] assms None] by (simp add: is_dir_at_def Dav_NewFS_def)
next
  case (Some k)
  then obtain fi where "dav_Stat c (abs_path cs) s = (Inr fi, s)" "shows_kind fi k"
    using Stat_found [OF names_path_abs [OF assms] assms Some] by blast
  then show ?thesis using Some by (cases k) (auto simp: is_dir_at_def Dav_NewFS_def shows_kind_def)
qed

lemma Mkdir_makes:
  assumes "list_all name_ok cs" "cs \<noteq> []" "dav_Mkdir c (abs_path cs) m s = (r, s')"
  shows "(r = None \<longrightarrow> kind s' cs = Some Collection) \<and> (kind s xs = Some Collection \<longrightarrow> kind s' xs = Some Collection)"
proof (cases "kind s cs")
  case (Some k)
  then show ?thesis using assms(3) Mkdir_exists [OF assms(1) Some, of m] by auto
next
  case None
  obtain ds d where cs: "cs = ds @ [d]" "list_all name_ok ds" "name_ok d"
    using assms(1,2) by (cases cs rule: rev_cases) auto
  show ?thesis
  proof (cases "kind s ds")
    case None
    then show ?thesis using Mkdir_new [OF cs(2,3), of s m] assms(3) \<open>kind s cs = None\<close> cs(1) by simp
  next
    case (Some k)
    obtain err s1 where s1: "client_doSimple c (dav_req ''MKCOL'' cs [] NoBody) s = (err, s1)" by force
    have "s' = s1" "err \<noteq> None \<Longrightarrow> r \<noteq> None"
      using Mkdir_new [OF cs(2,3), of s m] assms(3) \<open>kind s cs = None\<close> cs(1) Some s1 Stat_pure
      by (auto split: option.splits sum.splits prod.splits) (metis snd_conv)+
    then show ?thesis using doSimple_mkcol [OF s1 assms(1), of xs] by blast
  qed
qed

lemma dir_maker_here: "dir_maker (Dav_NewFS c) (list_all name_ok)"
proof (unfold_locales, goal_cases)
  case (1 name s)
  then show ?case using Stat_pure by (simp add: Dav_NewFS_def)
next
  case (4 cs m s s')
  then show ?case using Mkdir_makes [of cs m s None s'] dir_at_kind [of cs s'] by (simp add: Dav_NewFS_def)
next
  case (5 cs ds s m)
  then show ?case
    using Mkdir_makes [of cs m s _ _ ds] dir_at_kind [of ds]
    by (cases "dav_Mkdir c (abs_path cs) m s") (simp add: Dav_NewFS_def)
qed auto

text \<open>\<open>Readdir\<close>: the children, with the file information of each.\<close>

lemma list_name_path:
  assumes "list_all name_ok cs"
  shows "names_path (dav_list_name (abs_path cs)) cs"
proof (cases "cs = []")
  case True
  then show ?thesis using names_path_root by (simp add: dav_list_name_def abs_path_def trim_prefix_def)
next
  case False
  then obtain y ys where y: "join_with ''/'' cs = y # ys" "y \<noteq> slash" using join_names_start assms by blast
  have "\<not> has_suffix (join_with ''/'' cs) ''/''"
  proof -
    obtain ds d where cs: "cs = ds @ [d]" using False by (cases cs rule: rev_cases) auto
    have "last (abs_path (ds @ [d])) \<noteq> slash" using assms cs by (intro abs_path_last) simp
    then have "last (y # ys) \<noteq> slash" using cs y by (simp add: abs_path_def)
    then show ?thesis unfolding y(1) has_suffix_iff by (metis last_snoc)
  qed
  then have "dav_list_name (abs_path cs) = join_with ''/'' cs @ ''/''"
    using y by (simp add: dav_list_name_def abs_path_def trim_prefix_def)
  moreover have "trim_left slash (join_with ''/'' cs @ ''/'') = trim_left slash (abs_path cs @ ''/'')"
    using y by (simp add: trim_left_def abs_path_def)
  ultimately show ?thesis using names_path_slash [OF assms] by (simp add: names_path_def)
qed

lemma child_entry_path:
  assumes "name_ok x"
  shows "entry_path (cs @ [x]) k \<noteq> abs_path cs" "entry_path (cs @ [x]) k \<noteq> abs_path cs @ ''/''"
proof -
  have x: "x \<noteq> []" "slash \<notin> set x" using assms by (auto dest: name_okD)
  have e: "entry_path (cs @ [x]) k = (if cs = [] then [] else abs_path cs) @ slash # x @ (if k = Collection then ''/'' else [])"
    by (simp add: entry_path_def abs_path_snoc)
  have "entry_path (cs @ [x]) k \<noteq> abs_path cs \<and> entry_path (cs @ [x]) k \<noteq> abs_path cs @ ''/''"
  proof (cases "cs = []")
    case True
    then have "entry_path (cs @ [x]) k = slash # x @ (if k = Collection then ''/'' else [])" using e by simp
    then show ?thesis using x True by (cases x) (auto simp: abs_path_def)
  next
    case False
    then show ?thesis using x by (auto simp: e)
  qed
  then show "entry_path (cs @ [x]) k \<noteq> abs_path cs" "entry_path (cs @ [x]) k \<noteq> abs_path cs @ ''/''" by auto
qed

lemma readdir_children:
  assumes "list_all2 (\<lambda>resp x. describes (dc_parse_time c) resp (base @ cs @ [x]) (kd x)) resps xs"
    and "list_all name_ok cs" "list_all name_ok xs" "0 < n \<longrightarrow> i \<le> n"
  shows "\<exists>infos. dav_readdir_loop (dc_parse_time c) (abs_path cs) n i (map (\<lambda>r. r\<lparr>rs_prefix := abs_path base\<rparr>) resps)
      = Inr (if 0 < n then take (nat (n + 1 - i)) infos else infos)
    \<and> list_all2 (\<lambda>fi x. fi_name fi = x \<and> shows_kind fi (kd x)) infos xs"
  using assms(1,3,4)
proof (induction resps xs arbitrary: i rule: list_all2_induct)
  case Nil
  then show ?case by auto
next
  case (Cons resp resps x xs)
  let ?r = "resp\<lparr>rs_prefix := abs_path base\<rparr>"
  have d: "describes (dc_parse_time c) resp (base @ (cs @ [x])) (kd x)" using Cons.hyps(1) by simp
  have x: "list_all name_ok (cs @ [x])" "name_ok x" using assms(2) Cons.prems by simp_all
  have path: "Response_Path ?r = (entry_path (cs @ [x]) (kd x), None)"
    using describes_path [OF d _ endpoint(4)] by simp
  obtain fi where fi: "Response_FileInfo (dc_parse_time c) ?r = Inr fi" "shows_kind fi (kd x)" "fi_name fi = x"
    using describes_info [OF d endpoint(4)] path_base_entry [OF x(1), of "kd x"] by auto
  note other = child_entry_path [OF x(2), of cs "kd x"]
  show ?case
  proof (cases "0 < n \<and> n < i + 1")
    case True
    then have "i = n" "nat (n + 1 - i) = 1" using Cons.prems by auto
    obtain infos where "list_all2 (\<lambda>fi x. fi_name fi = x \<and> shows_kind fi (kd x)) infos xs"
      using Cons.IH [of 0] Cons.prems by auto
    then show ?thesis
      using path fi other True \<open>nat (n + 1 - i) = 1\<close> by (intro exI [of _ "fi # infos"]) simp
  next
    case False
    then obtain infos where infos: "dav_readdir_loop (dc_parse_time c) (abs_path cs) n (i + 1)
          (map (\<lambda>r. r\<lparr>rs_prefix := abs_path base\<rparr>) resps)
        = Inr (if 0 < n then take (nat (n + 1 - (i + 1))) infos else infos)"
        "list_all2 (\<lambda>fi x. fi_name fi = x \<and> shows_kind fi (kd x)) infos xs"
      using Cons.IH [of "i + 1"] Cons.prems by auto
    have "0 < n \<Longrightarrow> nat (n + 1 - i) = Suc (nat (n + 1 - (i + 1)))" using False by auto
    then show ?thesis
      using path fi other False infos by (intro exI [of _ "fi # infos"]) simp
  qed
qed

lemma Readdir_collection:
  assumes "list_all name_ok cs" "kind s cs = Some Collection" "davfile_Name f = abs_path cs"
  shows "\<exists>infos xs. davfile_Readdir c f n s = (Inr (if 0 < n then take (nat (n + 1)) infos else infos), f, s)
    \<and> set xs = {x. name_ok x \<and> kind s (cs @ [x]) \<noteq> None}
    \<and> list_all2 (\<lambda>fi x. fi_name fi = x \<and> shows_kind fi (the (kind s (cs @ [x])))) infos xs"
proof -
  have hd: "header_get ''Depth'' (find_req cs ''1'') = Some ''1''" by (simp add: header_get_def)
  obtain b tokens eof self resps xs ms where b: "fst (dc_do c (find_req cs ''1'') s) = Inr (207, b)"
    "fst (dc_xml c b s) = (tokens, eof)" "decode_body (decode_multi_status (dc_ip_literal c)) eof tokens = Inr ms"
    "ms_responses ms = self # resps" "describes (dc_parse_time c) self (base @ cs) Collection"
    "set xs = {x. name_ok x \<and> kind s (cs @ [x]) \<noteq> None}"
    "list_all2 (\<lambda>resp x. describes (dc_parse_time c) resp (base @ cs @ [x]) (the (kind s (cs @ [x])))) resps xs"
    using propfind_children [OF _ assms(1) _ assms(2) hd] by auto
  have pre: "url_path (dc_endpoint c) = abs_path base" using endpoint by (simp add: Endpoint_url_def empty_url_def)
  have "Depth_String 1 = Inr ''1''" by (simp add: Depth_String_def DepthZero_def DepthOne_def)
  then have find: "client_PropFind c (dav_list_name (abs_path cs)) 1 (Some FileInfoPropFind) s
      = (Inr (ms\<lparr>ms_responses := map (\<lambda>r. r\<lparr>rs_prefix := abs_path base\<rparr>) (self # resps)\<rparr>), s)"
    using do_find [of cs "''1''" s] close_pure [of b s] xml_pure [of b s] b pre
      PropFind_names [OF list_name_path [OF assms(1)], of 1 "''1''" s]
    by (cases "dc_xml c b s") (simp add: client_doMultiStatus_def client_do_def)
  have "list_all name_ok xs" using b(6) by (auto simp: list_all_iff)
  then obtain infos where infos: "dav_readdir_loop (dc_parse_time c) (abs_path cs) n 0 (map (\<lambda>r. r\<lparr>rs_prefix := abs_path base\<rparr>) resps)
      = Inr (if 0 < n then take (nat (n + 1 - 0)) infos else infos)"
      "list_all2 (\<lambda>fi x. fi_name fi = x \<and> shows_kind fi (the (kind s (cs @ [x])))) infos xs"
    using readdir_children [OF b(7) assms(1), of n 0] by auto
  have "Response_Path (self\<lparr>rs_prefix := abs_path base\<rparr>) = (entry_path cs Collection, None)"
    using describes_path [OF b(5) _ endpoint(4)] by simp
  moreover have "entry_path cs Collection = abs_path cs \<or> entry_path cs Collection = abs_path cs @ ''/''"
    by (simp add: entry_path_def)
  ultimately have "dav_readdir_loop (dc_parse_time c) (abs_path cs) n 0 (map (\<lambda>r. r\<lparr>rs_prefix := abs_path base\<rparr>) (self # resps))
      = dav_readdir_loop (dc_parse_time c) (abs_path cs) n 0 (map (\<lambda>r. r\<lparr>rs_prefix := abs_path base\<rparr>) resps)"
    by auto
  then show ?thesis
    using find infos b(6) assms(3) by (auto simp: davfile_Readdir_def intro!: exI [of _ infos] exI [of _ xs])
qed

end

sublocale dav_server \<subseteq> dirs: dir_maker "Dav_NewFS c" "list_all name_ok"
  by (rule dir_maker_here)

section \<open>A reference server\<close>

text \<open>
  Its state is an association list from paths to byte strings, or to nothing for a collection; the
  root is always there. It reports sizes as 63-bit numbers. It serves below \<open>/dav\<close>. A body is a list of XML tokens, or bytes.
\<close>

type_synonym dav_tree = "(string list \<times> bytes option) list"

datatype ref_body = TokenBody "xml_token list" | DataBody bytes

definition ref_kind :: "dav_tree \<Rightarrow> string list \<Rightarrow> dav_kind option" where
  "ref_kind t cs =
     (if cs = [] then Some Collection
      else map_option (\<lambda>d. case d of None \<Rightarrow> Collection | Some data \<Rightarrow> Resource (int (length data) mod 2 ^ 63)) (map_of t cs))"

definition ref_base :: "string list" where
  "ref_base = [''dav'']"

definition ref_names :: "dav_tree \<Rightarrow> string list \<Rightarrow> string list" where
  "ref_names t cs =
     map last (filter (\<lambda>k. k \<noteq> [] \<and> butlast k = cs \<and> name_ok (last k)) (remdups (map fst t)))"

definition text_element :: "string \<Rightarrow> string \<Rightarrow> raw_xml" where
  "text_element local text = NewRawXMLElement (dav_name local) [] [RawXml (CharData text) []]"

definition entry_xml :: "string list \<Rightarrow> dav_kind \<Rightarrow> raw_xml" where
  "entry_xml cs k =
     NewRawXMLElement (dav_name ''response'') []
       [text_element ''href'' (escape EncPath (entry_path (ref_base @ cs) k)),
        NewRawXMLElement (dav_name ''propstat'') []
          [NewRawXMLElement (dav_name ''prop'') []
             (case k of
                Collection \<Rightarrow> [NewRawXMLElement ResourceTypeName [] [NewRawXMLElement CollectionName [] []]]
              | Resource n \<Rightarrow>
                  [NewRawXMLElement ResourceTypeName [] [], text_element ''getcontentlength'' (format_int n)]),
           text_element ''status'' ''HTTP/1.1 200 OK'']]"

definition answer_xml :: "(string list \<times> dav_kind) list \<Rightarrow> xml_token list" where
  "answer_xml entries =
     raw_tokens (NewRawXMLElement (dav_name ''multistatus'') [] (map (\<lambda>(cs, k). entry_xml cs k) entries))"

definition ref_find :: "dav_tree \<Rightarrow> string list \<Rightarrow> bool \<Rightarrow> int \<times> ref_body" where
  "ref_find t cs deep =
     (case ref_kind t cs of
        None \<Rightarrow> (404, DataBody [])
      | Some k \<Rightarrow>
          (207, TokenBody (answer_xml ((cs, k) #
             (if deep \<and> k = Collection then map (\<lambda>x. (cs @ [x], the (ref_kind t (cs @ [x])))) (ref_names t cs) else [])))))"

definition ref_do :: "dav_request \<Rightarrow> dav_tree \<Rightarrow> (go_error + int \<times> ref_body) \<times> dav_tree" where
  "ref_do r t =
     (let cs = drop 1 (path_elems (url_path (rq_url r))) in
      if rq_method r = ''PROPFIND'' then (Inr (ref_find t cs (header_get ''Depth'' r = Some ''1'')), t)
      else if rq_method r = ''MKCOL'' then
        (if ref_kind t cs \<noteq> None then (Inr (405, DataBody []), t)
         else if ref_kind t (butlast cs) \<noteq> Some Collection then (Inr (409, DataBody []), t)
         else (Inr (201, DataBody []), (cs, None) # t))
      else if rq_method r = ''GET'' then
        (case map_of t cs of
           Some (Some data) \<Rightarrow>
             (case header_get ''Range'' r of
                None \<Rightarrow> (Inr (200, DataBody data), t)
              | Some rg \<Rightarrow>
                  (case split_on CHR ''-'' (drop 6 rg) of
                     [lo, hi] \<Rightarrow>
                       (if length data \<le> digits_val lo then (Inr (416, DataBody []), t)
                        else
                          (Inr (206, DataBody (drop (digits_val lo)
                             (if hi = [] then data else take (Suc (digits_val hi)) data))), t))
                   | _ \<Rightarrow> (Inr (416, DataBody []), t)))
         | _ \<Rightarrow> (Inr (404, DataBody []), t))
      else (Inr (501, DataBody []), t))"

definition ref_endpoint :: Endpoint where
  "ref_endpoint =
     \<lparr>Scheme = ''http'', Hostname = ''h'', Port = 0, Path = ''/dav'', Username = [], Password = [], Extra = []\<rparr>"

definition dav_ref :: "(ref_body, dav_tree) dav_client" where
  "dav_ref =
     \<lparr>dc_endpoint = Endpoint_url ref_endpoint, dc_ip_literal = Inr, dc_parse_time = (\<lambda>_. Inr 0),
      dc_do = ref_do,
      dc_read = (\<lambda>b n s.
        case b of
          DataBody d \<Rightarrow> ((int (length (take n d)), take n d, if d = [] then Some EOF else None), DataBody (drop n d), s)
        | TokenBody ts \<Rightarrow> ((0, [], Some EOF), b, s)),
      dc_close = (\<lambda>b s. (None, s)),
      dc_xml = (\<lambda>b s. ((case b of TokenBody ts \<Rightarrow> ts | DataBody d \<Rightarrow> [], EOF), s)),
      dc_feed = (\<lambda>r buf p s. (None, s)),
      dc_finish = (\<lambda>r data s. (drop 1 (path_elems (url_path (rq_url r))), Some data) # s)\<rparr>"

text \<open>Its answers decode to responses that describe the entries.\<close>

lemma url_parse_path:
  assumes "is_rooted p" "\<not> has_prefix p ''//''"
  shows "url_parse ip (escape EncPath p) = Inr (empty_url\<lparr>url_path := p\<rparr>)"
proof -
  obtain q where p: "p = slash # q" using assms(1) by (cases p) auto
  have e: "escape EncPath p = slash # escape EncPath q"
    unfolding p by (simp add: escape_def escape_char_def should_escape_def is_alnum_def is_digit_def class_defs)
  have noslash: "\<not> has_prefix (escape EncPath q) ''/''"
  proof
    assume "has_prefix (escape EncPath q) ''/''"
    then obtain t where t: "escape EncPath q = slash # t" by (auto simp: has_prefix_iff)
    have "unescape EncPath (escape EncPath q) = Some q" by (simp add: unescape_escape)
    then have "has_prefix q ''/''" using t by (auto simp: has_prefix_iff)
    then show False using assms(2) p by (simp add: has_prefix_iff)
  qed
  have sq: "split_query (slash # escape EncPath q) = (slash # escape EncPath q, [], False)"
    using split_query_append [of "slash # escape EncPath q" "[]"] by simp
  have un: "unescape EncPath (slash # escape EncPath q) = Some p"
    using unescape_escape [of EncPath p] e by simp
  show ?thesis
    unfolding e using escape_no_ctl [of EncPath p] e noslash sq un escape_hash_free [of EncPath p]
    by (simp add: url_parse_def cut_none parse_url_raw_def get_scheme_def is_digit_def less_eq_char_def parse_hier_def
        set_path_def empty_url_def to_lower_def del: unescape.simps)
qed

lemma dav_name_inject [simp]: "dav_name a = dav_name b \<longleftrightarrow> a = b"
  by (simp add: dav_name_def)

lemma digits_no_space:
  assumes "list_all is_digit s"
  shows "trim_space s = s"
proof -
  have sp: "\<not> is_space x" if "x \<in> set s" for x
    using assms that by (auto simp: list_all_iff is_digit_def is_space_def less_eq_char_def)
  have "dropWhile is_space xs = xs" if "set xs \<subseteq> set s" for xs
    using that sp by (cases xs) auto
  then show ?thesis by (simp add: trim_space_def)
qed

lemma decode_length:
  assumes "0 \<le> n" "n < 2 ^ 63"
  shows "decode_int64 (format_int n) = Inr n"
proof -
  let ?s = "format_uint (nat n)"
  have s: "?s \<noteq> []" "list_all is_digit ?s" "digits_val ?s = nat n"
    using format_uint_facts by blast+
  then obtain d ds where d: "?s = d # ds" "is_digit d" by (cases ?s) auto
  then have "d \<noteq> CHR ''-''" "d \<noteq> CHR ''+''" by (auto simp: is_digit_def less_eq_char_def)
  then show ?thesis
    using s d assms digits_no_space [OF s(2)] by (simp add: decode_int64_def format_int_def parse_int_def)
qed

definition ok_status :: dav_status where
  "ok_status = \<lparr>st_code = 200, st_text = ''OK''\<rparr>"

lemma decode_ok_status: "Status_UnmarshalText st ''HTTP/1.1 200 OK'' = Inr ok_status"
  by (simp add: Status_UnmarshalText_def cut_def parse_int_def digits_val_def digit_val_def is_digit_def less_eq_char_def
      ok_status_def has_prefix_def)

definition entry_props :: "dav_kind \<Rightarrow> raw_xml list" where
  "entry_props k =
     (case k of
        Collection \<Rightarrow> [NewRawXMLElement ResourceTypeName [] [NewRawXMLElement CollectionName [] []]]
      | Resource n \<Rightarrow> [NewRawXMLElement ResourceTypeName [] [], text_element ''getcontentlength'' (format_int n)])"

definition entry_response :: "string list \<Rightarrow> dav_kind \<Rightarrow> dav_response" where
  "entry_response cs k =
     empty_response\<lparr>rs_hrefs := [empty_url\<lparr>url_path := entry_path (ref_base @ cs) k\<rparr>],
       rs_prop_stats := [\<lparr>ps_prop = entry_props k, ps_status = ok_status, ps_description = [], ps_error = None\<rparr>]\<rparr>"

lemma entry_href: "Href_UnmarshalText ip (escape EncPath (entry_path (ref_base @ cs) k))
    = Inr (empty_url\<lparr>url_path := entry_path (ref_base @ cs) k\<rparr>)"
  unfolding Href_UnmarshalText_def
  by (rule url_parse_path; cases cs) (simp_all add: entry_path_def ref_base_def abs_path_def)

lemma decode_entry: "decode_response ip (entry_xml cs k) = Inr (entry_response cs k)"
proof -
  have props: "decode_any (entry_props k) = entry_props k"
    by (cases k) (simp_all add: decode_any_def entry_props_def NewRawXMLElement_def text_element_def)
  have ps: "decode_prop_stat (NewRawXMLElement (dav_name ''propstat'') []
        [NewRawXMLElement (dav_name ''prop'') [] (entry_props k), text_element ''status'' ''HTTP/1.1 200 OK''])
      = Inr \<lparr>ps_prop = entry_props k, ps_status = ok_status, ps_description = [], ps_error = None\<rparr>"
    by (simp add: decode_prop_stat_def NewRawXMLElement_def text_element_def props decode_ok_status)
  show ?thesis
    unfolding decode_response_def entry_xml_def entry_props_def [symmetric]
    using ps by (simp add: text_element_def entry_href NewRawXMLElement_def entry_response_def empty_response_def)
qed

lemma decode_answer:
  "\<exists>ms. decode_body (decode_multi_status ip) eof (answer_xml es) = Inr ms
    \<and> ms_responses ms = map (\<lambda>(cs, k). entry_response cs k) es"
proof -
  let ?field = "\<lambda>name v r.
     if name = dav_name ''response'' then
       map_sum id (\<lambda>resp. r\<lparr>ms_responses := ms_responses r @ [resp]\<rparr>) (decode_response ip v)
     else if name = dav_name ''responsedescription'' then Inr (r\<lparr>ms_description := raw_text (raw_children v)\<rparr>)
     else if name = dav_name ''sync-token'' then Inr (r\<lparr>ms_sync_token := raw_text (raw_children v)\<rparr>)
     else Inr r"
  have name: "XMLName (entry_xml cs k) = Some (dav_name ''response'')" for cs k
    by (simp add: entry_xml_def NewRawXMLElement_def)
  have "\<exists>ms. decode_fields ?field (map (\<lambda>(cs, k). entry_xml cs k) es) m = Inr ms
      \<and> ms_responses ms = ms_responses m @ map (\<lambda>(cs, k). entry_response cs k) es" for m
  proof (induction es arbitrary: m)
    case (Cons e es)
    obtain cs k where e: "e = (cs, k)" by (cases e)
    show ?case
      using Cons [of "m\<lparr>ms_responses := ms_responses m @ [entry_response cs k]\<rparr>"]
      by (simp add: e name decode_entry)
  qed simp
  then obtain ms where ms: "decode_fields ?field (map (\<lambda>(cs, k). entry_xml cs k) es) (NewMultiStatus []) = Inr ms"
      "ms_responses ms = map (\<lambda>(cs, k). entry_response cs k) es"
    by (fastforce simp: NewMultiStatus_def)
  have dec: "decoded_raw (entry_xml cs k)" for cs k
    by (cases k) (simp_all add: entry_xml_def NewRawXMLElement_def text_element_def)
  have "unmarshal_children eof (concat (map raw_tokens (map (\<lambda>(cs, k). entry_xml cs k) es)) @ [EndElement (dav_name ''multistatus'')])
      = (Inr (map (\<lambda>(cs, k). entry_xml cs k) es), [])"
    by (rule unmarshal_children_tokens) (auto simp: list_all_iff dec)
  then have "decode_body (decode_multi_status ip) eof (answer_xml es) = Inr ms"
    using ms(1) by (simp add: answer_xml_def NewRawXMLElement_def UnmarshalXML_def decode_multi_status_def)
  then show ?thesis using ms(2) by blast
qed

lemma struct_name:
  assumes "CHR '','' \<notin> set l" "CHR '' '' \<notin> set l"
  shows "valueXMLName (xml_struct (''DAV: '' @ l)) = Inr (dav_name l)"
proof -
  have "split_on CHR '','' (''DAV: '' @ l) = [''DAV: '' @ l]" using assms(1) by (intro split_on_id) simp
  moreover have "split_on CHR '' '' (''DAV: '' @ l) = [''DAV:'', l]"
    using split_on_append [of "CHR '' ''" "''DAV:''" l] split_on_id [OF assms(2)] by simp
  ultimately show ?thesis by (simp add: xml_struct_def dav_name_def)
qed

lemma struct_names:
  "valueXMLName (xml_struct ''DAV: resourcetype'') = Inr ResourceTypeName"
  "valueXMLName (xml_struct ''DAV: getcontentlength'') = Inr GetContentLengthName"
  "valueXMLName (xml_struct ''DAV: getlastmodified'') = Inr GetLastModifiedName"
  using struct_name [of "''resourcetype''"] struct_name [of "''getcontentlength''"] struct_name [of "''getlastmodified''"]
  by (simp_all add: ResourceTypeName_def GetContentLengthName_def GetLastModifiedName_def del: valueXMLName.simps)

lemma prop_names:
  "GetContentLengthName \<noteq> ResourceTypeName" "GetLastModifiedName \<noteq> ResourceTypeName"
  "GetLastModifiedName \<noteq> GetContentLengthName" "dav_name ''getcontentlength'' = GetContentLengthName"
  by (simp_all add: ResourceTypeName_def GetContentLengthName_def GetLastModifiedName_def)

lemma entry_prop:
  assumes "valueXMLName (dv_type v) = Inr name"
  shows "Response_DecodeProp (entry_response cs k) v =
    (case Prop_Get (entry_props k) name of
       None \<Rightarrow> Inl (newPropError name (HTTPError 404 (Some (ErrorString ''missing property''))))
     | Some raw \<Rightarrow> (case dv_decode v raw of Inl err \<Rightarrow> Inl (newPropError name err) | Inr x \<Rightarrow> Inr x))"
  using assms
  by (simp add: Response_DecodeProp_def Response_Err_def entry_response_def empty_response_def ok_status_def
      Status_Err_def split: option.split)

lemma entry_props_get:
  "Prop_Get (entry_props k) ResourceTypeName = Some (NewRawXMLElement ResourceTypeName []
        (if k = Collection then [NewRawXMLElement CollectionName [] []] else []))"
  "Prop_Get (entry_props k) GetLastModifiedName = None"
  using prop_names
    by (cases k; simp add: Prop_Get_def entry_props_def NewRawXMLElement_def text_element_def)+

lemma entry_describes:
  assumes "\<forall>n. k = Resource n \<longrightarrow> 0 \<le> n \<and> n < 2 ^ 63"
  shows "describes (dc_parse_time dav_ref) (entry_response cs k) (ref_base @ cs) k"
proof -
  have types: "valueXMLName (dv_type ResourceType) = Inr ResourceTypeName"
    "valueXMLName (dv_type GetContentLength) = Inr GetContentLengthName"
    "valueXMLName (dv_type (GetLastModified pt)) = Inr GetLastModifiedName" for pt
    by (simp_all only: ResourceType_def GetContentLength_def GetLastModified_def dav_value.simps struct_names)
  note props = entry_props_get [of k]
  have "Response_DecodeProp (entry_response cs k) ResourceType
      = Inr (if k = Collection then [NewRawXMLElement CollectionName [] []] else [])"
    unfolding entry_prop [OF types(1)] props(1) by (simp add: ResourceType_def NewRawXMLElement_def decode_any_def)
  moreover have "k = Resource n \<Longrightarrow> Response_DecodeProp (entry_response cs k) GetContentLength = Inr n" for n
    unfolding entry_prop [OF types(2)] using assms decode_length [of n]
    by (simp add: Prop_Get_def entry_props_def NewRawXMLElement_def text_element_def prop_names prop_names(1) [symmetric]
        GetContentLength_def)
  moreover have "case Response_DecodeProp (entry_response cs k) (GetLastModified pt) of Inl e \<Rightarrow> IsNotFound e | Inr _ \<Rightarrow> True" for pt
    unfolding entry_prop [OF types(3)] props(2) by (simp add: IsNotFound_def newPropError_def)
  ultimately show ?thesis
    by (auto simp: describes_def ResourceType_Is_def NewRawXMLElement_def)
      (simp_all add: entry_response_def empty_response_def)
qed

lemma ref_kind_size: "ref_kind t cs = Some k \<Longrightarrow> \<forall>n. k = Resource n \<longrightarrow> 0 \<le> n \<and> n < 2 ^ 63"
  by (auto simp: ref_kind_def split: if_splits option.splits)

lemma ref_endpoint_ok:
  "wf_endpoint ref_endpoint" "Path ref_endpoint = abs_path ref_base" "list_all name_ok ref_base"
  by code_simp+

lemma ref_path: "list_all name_ok cs \<Longrightarrow> drop (Suc 0) (path_elems (abs_path (ref_base @ cs))) = cs"
  using ref_endpoint_ok(3) path_elems_abs [of "ref_base @ cs"] by (simp add: ref_base_def)

lemma ref_names_set: "set (ref_names t cs) = {x. name_ok x \<and> ref_kind t (cs @ [x]) \<noteq> None}"
proof -
  have "x \<in> set (ref_names t cs) \<longleftrightarrow> name_ok x \<and> cs @ [x] \<in> set (map fst t)" for x
  proof
    assume "x \<in> set (ref_names t cs)"
    then obtain k where "k \<in> set (map fst t)" "k \<noteq> []" "butlast k = cs" "name_ok (last k)" "x = last k"
      by (auto simp: ref_names_def)
    then show "name_ok x \<and> cs @ [x] \<in> set (map fst t)" by (metis append_butlast_last_id)
  next
    assume x: "name_ok x \<and> cs @ [x] \<in> set (map fst t)"
    then show "x \<in> set (ref_names t cs)" 
      unfolding ref_names_def set_map set_filter set_remdups by (intro image_eqI [of _ _ "cs @ [x]"]) auto
  qed
  moreover have "ref_kind t (cs @ [x]) \<noteq> None \<longleftrightarrow> cs @ [x] \<in> set (map fst t)" for x
    by (simp add: ref_kind_def map_of_eq_None_iff)
  ultimately show ?thesis by blast
qed
interpretation dref: dav_server dav_ref ref_endpoint ref_base ref_kind
proof (unfold_locales, goal_cases)
  case 1
  then show ?case by (simp add: dav_ref_def)
next
  case (7 r s)
  then show ?case by (simp add: dav_ref_def ref_do_def Let_def)
next
  case (9 r cs s)
  then show ?case using ref_path [of cs] by (simp add: dav_ref_def ref_do_def ref_find_def Let_def)
next
  case (10 r cs s k)
  obtain ms where ms: "decode_body (decode_multi_status Inr) EOF (answer_xml [(cs, k)]) = Inr ms"
      "ms_responses ms = [entry_response cs k]"
    using decode_answer [of Inr EOF "[(cs, k)]"] by auto
  have "fst (dc_do dav_ref r s) = Inr (207, TokenBody (answer_xml [(cs, k)]))"
    using 10 ref_path [of cs] by (simp add: dav_ref_def ref_do_def ref_find_def Let_def)
  moreover have "fst (dc_xml dav_ref (TokenBody ts) s) = (ts, EOF)" "dc_ip_literal dav_ref = Inr" for ts
    by (simp_all add: dav_ref_def)
  ultimately show ?case using ms entry_describes [OF ref_kind_size [OF 10(4)], of cs] by auto
next
  case (11 r cs s)
  let ?es = "map (\<lambda>x. (cs @ [x], the (ref_kind s (cs @ [x])))) (ref_names s cs)"
  obtain ms where ms: "decode_body (decode_multi_status Inr) EOF (answer_xml ((cs, Collection) # ?es)) = Inr ms"
      "ms_responses ms = entry_response cs Collection # map (\<lambda>x. entry_response (cs @ [x]) (the (ref_kind s (cs @ [x])))) (ref_names s cs)"
    using decode_answer [of Inr EOF "(cs, Collection) # ?es"] by (auto simp: comp_def)
  have "fst (dc_do dav_ref r s) = Inr (207, TokenBody (answer_xml ((cs, Collection) # ?es)))"
    using 11 ref_path [of cs] by (simp add: dav_ref_def ref_do_def ref_find_def Let_def)
  moreover have "fst (dc_xml dav_ref (TokenBody ts) s) = (ts, EOF)" "dc_ip_literal dav_ref = Inr" for ts
    by (simp_all add: dav_ref_def)
  moreover have "list_all2 (\<lambda>resp x. describes (dc_parse_time dav_ref) resp (ref_base @ cs @ [x]) (the (ref_kind s (cs @ [x]))))
      (map (\<lambda>x. entry_response (cs @ [x]) (the (ref_kind s (cs @ [x])))) xs) xs"
    if "set xs \<subseteq> set (ref_names s cs)" for xs
    using that
  proof (induction xs)
    case (Cons x xs)
    then obtain k where "ref_kind s (cs @ [x]) = Some k" using ref_names_set by auto
    then show ?case using Cons entry_describes [OF ref_kind_size, of s "cs @ [x]" k "cs @ [x]"] by simp
  qed simp
  ultimately show ?case
    using ms entry_describes [of Collection cs] ref_names_set [of s cs]
    by (intro exI conjI) auto
next
  case (12 r cs s code b s')
  then show ?case
    using ref_path [of cs] by (auto simp: dav_ref_def ref_do_def Let_def ref_kind_def split: if_splits)
next
  case (13 r s ds)
  then show ?case by (auto simp: dav_ref_def ref_do_def Let_def ref_kind_def split: if_splits option.splits)
qed (use ref_endpoint_ok in \<open>simp_all add: dav_ref_def ref_kind_def\<close>)

end
