(* ===== verification/Dav_Reads.thy ===== *)
theory Dav_Reads
  imports Dav_Server
begin

text \<open>
  Downloads: what HTTP promises of a \<open>GET\<close>, whole or with a range, and of reading its body, as a locale;
  the loop of a reader (\<open>io.ReadAll\<close>) over a file of the client, computed inside it; and the
  interpretation on the reference server.
\<close>

text \<open>A reader that reads until the first error, with a buffer of \<open>n\<close> bytes and at most so many calls.\<close>

fun read_loop ::
  "('b, 's) dav_client \<Rightarrow> nat \<Rightarrow> nat \<Rightarrow> 'b client_file \<Rightarrow> 's \<Rightarrow> (bytes \<times> go_error) option" where
  "read_loop c 0 n f s = None"
| "read_loop c (Suc m) n f s =
     (case client_file_Read c f n s of
        ((k, p, None), f', s') \<Rightarrow> map_option (\<lambda>(q, e). (p @ q, e)) (read_loop c m n f' s')
      | ((k, p, Some e), f', s') \<Rightarrow> Some (p, e))"

definition slice :: "nat \<Rightarrow> nat \<Rightarrow> bytes \<Rightarrow> bytes" where
  "slice a b d = drop a (take (Suc b) d)"

locale dav_download =
  fixes c :: "('b, 's) dav_client"
    and ep :: Endpoint
    and base :: "string list"
    and stored :: "'s \<Rightarrow> string list \<Rightarrow> bytes option"
    and content :: "'b \<Rightarrow> bytes"
  assumes endpoint: "dc_endpoint c = Endpoint_url ep" "wf_endpoint ep" "Path ep = abs_path base" "list_all name_ok base"
    and body_read: "dc_read c b n s = ((k, p, err), b', s') \<Longrightarrow>
      k = int (length p) \<and> length p \<le> n \<and> content b = p @ content b' \<and> (0 < n \<and> content b \<noteq> [] \<longrightarrow> p \<noteq> [])"
    and get_all: "rq_method r = ''GET'' \<Longrightarrow> list_all name_ok cs \<Longrightarrow> url_path (rq_url r) = abs_path (base @ cs) \<Longrightarrow>
      stored s cs = Some d \<Longrightarrow> header_get ''Range'' r = None \<Longrightarrow>
      \<exists>code b s'. dc_do c r s = (Inr (code, b), s') \<and> code \<noteq> 416 \<and> content b = d"
    and get_from: "rq_method r = ''GET'' \<Longrightarrow> list_all name_ok cs \<Longrightarrow> url_path (rq_url r) = abs_path (base @ cs) \<Longrightarrow>
      stored s cs = Some d \<Longrightarrow> header_get ''Range'' r = Some (''bytes='' @ format_uint i @ ''-'') \<Longrightarrow> i < length d \<Longrightarrow>
      \<exists>code b s'. dc_do c r s = (Inr (code, b), s') \<and> code \<noteq> 416 \<and> content b = drop i d"
    and get_slice: "rq_method r = ''GET'' \<Longrightarrow> list_all name_ok cs \<Longrightarrow> url_path (rq_url r) = abs_path (base @ cs) \<Longrightarrow>
      stored s cs = Some d \<Longrightarrow> header_get ''Range'' r = Some (''bytes='' @ format_uint i @ ''-'' @ format_uint j) \<Longrightarrow>
      i \<le> j \<Longrightarrow> i < length d \<Longrightarrow>
      \<exists>code b s'. dc_do c r s = (Inr (code, b), s') \<and> code \<noteq> 416 \<and> content b = slice i j d"
begin

lemma get_req: "list_all name_ok cs \<Longrightarrow>
    \<exists>u. url_path u = abs_path (base @ cs) \<and>
      client_req c ''GET'' (abs_path cs) NoBody = Inr \<lparr>rq_method = ''GET'', rq_url = u, rq_header = [], rq_body = NoBody\<rparr>"
  using client_req_url [OF endpoint(1-3), of "''GET''" "abs_path cs" NoBody] join_names [OF endpoint(4) names_path_abs [of cs]]
  by (simp add: Endpoint_url_def)

lemma request_all:
  assumes "list_all name_ok cs" "stored s cs = Some d"
  shows "\<exists>b s'. doRequest c (abs_path cs) (-1) 0 s = (Inr b, s') \<and> content b = d"
proof -
  obtain u where u: "url_path u = abs_path (base @ cs)"
    "client_req c ''GET'' (abs_path cs) NoBody = Inr \<lparr>rq_method = ''GET'', rq_url = u, rq_header = [], rq_body = NoBody\<rparr>"
    using get_req [OF assms(1)] by blast
  let ?r = "\<lparr>rq_method = ''GET'', rq_url = u, rq_header = [], rq_body = NoBody\<rparr>"
  have "setRange (-1) 0 ?r = ?r" by (simp add: setRange_def)
  then show ?thesis
    using get_all [of ?r cs s d] assms u by (auto simp: doRequest_def client_do_def header_get_def)
qed

lemma request_from:
  assumes "list_all name_ok cs" "stored s cs = Some d" "0 < i" "i < length d"
  shows "\<exists>b s'. doRequest c (abs_path cs) (int i) 0 s = (Inr b, s') \<and> content b = drop i d"
proof -
  obtain u where u: "url_path u = abs_path (base @ cs)"
    "client_req c ''GET'' (abs_path cs) NoBody = Inr \<lparr>rq_method = ''GET'', rq_url = u, rq_header = [], rq_body = NoBody\<rparr>"
    using get_req [OF assms(1)] by blast
  let ?r = "\<lparr>rq_method = ''GET'', rq_url = u, rq_header = [], rq_body = NoBody\<rparr>"
  let ?q = "?r\<lparr>rq_header := [(''Range'', ''bytes='' @ format_uint i @ ''-'')]\<rparr>"
  have "setRange (int i) 0 ?r = ?q" using assms(3) by (simp add: setRange_def header_set_def format_int_def)
  then show ?thesis
    using get_from [of ?q cs s d i] assms u by (auto simp: doRequest_def client_do_def header_get_def)
qed

lemma request_zero:
  assumes "list_all name_ok cs" "stored s cs = Some d" "d \<noteq> []"
  shows "\<exists>b s'. doRequest c (abs_path cs) 0 0 s = (Inr b, s') \<and> content b = take 1 d"
proof -
  obtain u where u: "url_path u = abs_path (base @ cs)"
    "client_req c ''GET'' (abs_path cs) NoBody = Inr \<lparr>rq_method = ''GET'', rq_url = u, rq_header = [], rq_body = NoBody\<rparr>"
    using get_req [OF assms(1)] by blast
  let ?r = "\<lparr>rq_method = ''GET'', rq_url = u, rq_header = [], rq_body = NoBody\<rparr>"
  let ?q = "?r\<lparr>rq_header := [(''Range'', ''bytes='' @ format_uint 0 @ ''-'' @ format_uint 0)]\<rparr>"
  have "setRange 0 0 ?r = ?q" by (simp add: setRange_def header_set_def format_int_def)
  then show ?thesis
    using get_slice [of ?q cs s d 0 0] assms u
    by (auto simp: doRequest_def client_do_def header_get_def slice_def)
qed

text \<open>Reading on an open body: all of it when its end is the end of the file, and for ever when the body
  ends before.\<close>

lemma sint_nat: "m < 2 ^ 63 \<Longrightarrow> sint (of_nat m :: 64 word) = int m"
  by transfer (simp add: signed_take_bit_int_eq_self)

lemma Read_body:
  assumes "cf_body f = Some b" "cf_pos f = of_nat m" "0 < n" "m + length (content b) < 2 ^ 63"
  shows "\<exists>p b' s'. content b = p @ content b' \<and> (content b \<noteq> [] \<longrightarrow> p \<noteq> []) \<and>
    client_file_Read c f n s =
      ((int (length p), p, if fi_size (cf_info f) \<le> int (m + length p) then Some EOF else None),
       f\<lparr>cf_body := Some b', cf_pos := of_nat (m + length p)\<rparr>, s')"
proof -
  obtain k p err b' s' where r: "dc_read c b n s = ((k, p, err), b', s')" by (metis surj_pair)
  then have p: "k = int (length p) \<and> length p \<le> n \<and> content b = p @ content b' \<and> (0 < n \<and> content b \<noteq> [] \<longrightarrow> p \<noteq> [])"
    by (rule body_read)
  then have "length p \<le> length (content b)" by simp
  then have "sint (of_nat (m + length p) :: 64 word) = int (m + length p)"
    using assms(4) by (intro sint_nat) simp
  then have "client_file_Read c f n s =
      ((int (length p), p, if fi_size (cf_info f) \<le> int (m + length p) then Some EOF else None),
       f\<lparr>cf_body := Some b', cf_pos := of_nat (m + length p)\<rparr>, s')"
    using p r assms(1,2) by (simp add: client_file_Read_def Let_def)
  then show ?thesis using p assms(3) by blast
qed

text \<open>Wherever the file's position is, an open body gives its next bytes.\<close>

lemma Read_next:
  assumes "cf_body f = Some b"
  obtains p e b' s' where
    "client_file_Read c f n s = ((int (length p), p, e), f\<lparr>cf_body := Some b', cf_pos := cf_pos f + of_nat (length p)\<rparr>, s')"
    "e = None \<or> e = Some EOF" "length p \<le> n" "content b = p @ content b'" "0 < n \<and> content b \<noteq> [] \<longrightarrow> p \<noteq> []"
proof -
  obtain k p err b' s' where r: "dc_read c b n s = ((k, p, err), b', s')" by (metis surj_pair)
  note p = body_read [OF r]
  let ?f = "f\<lparr>cf_body := Some b', cf_pos := cf_pos f + of_nat (length p)\<rparr>"
  let ?e = "if fi_size (cf_info f) \<le> sint (cf_pos ?f) then Some EOF else None"
  have k: "k = int (length p)" using p by blast
  have run: "client_file_Read c f n s = ((int (length p), p, ?e), ?f, s')"
    by (simp add: client_file_Read_def Let_def assms r k)
  show thesis
  proof (rule that [OF run])
    show "?e = None \<or> ?e = Some EOF" by simp
  qed (use p in blast)+
qed

lemma read_loop_ends:
  assumes "cf_body f = Some b" "cf_pos f = of_nat m" "0 < n" "fi_size (cf_info f) = int (m + length (content b))"
    "m + length (content b) < 2 ^ 63" "length (content b) < fuel"
  shows "read_loop c fuel n f s = Some (content b, EOF)"
  using assms
proof (induction fuel arbitrary: f b m s)
  case (Suc fuel)
  obtain p b' s' where p: "content b = p @ content b'" "content b \<noteq> [] \<longrightarrow> p \<noteq> []"
    "client_file_Read c f n s =
      ((int (length p), p, if fi_size (cf_info f) \<le> int (m + length p) then Some EOF else None),
       f\<lparr>cf_body := Some b', cf_pos := of_nat (m + length p)\<rparr>, s')"
    using Read_body [OF Suc.prems(1,2,3,5), of s] by (elim exE conjE)
  show ?case
  proof (cases "content b' = []")
    case True
    then show ?thesis using p Suc.prems(4) by simp
  next
    case False
    then have "read_loop c fuel n (f\<lparr>cf_body := Some b', cf_pos := of_nat (m + length p)\<rparr>) s' = Some (content b', EOF)"
    proof (intro Suc.IH [of _ b' "m + length p"])
      show "length (content b') < fuel" using Suc.prems(6) p(1,2) False by (cases p) auto
    qed (use Suc.prems p(1) in auto)
    then show ?thesis using p False Suc.prems(4) by simp
  qed
qed simp

lemma read_loop_stuck:
  assumes "cf_body f = Some b" "cf_pos f = of_nat m" "0 < n" "int (m + length (content b)) < fi_size (cf_info f)"
    "fi_size (cf_info f) < 2 ^ 63"
  shows "read_loop c fuel n f s = None"
  using assms
proof (induction fuel arbitrary: f b m s)
  case (Suc fuel)
  have len: "m + length (content b) < 2 ^ 63" using Suc.prems(4,5) by simp
  obtain p b' s' where p: "content b = p @ content b'" "content b \<noteq> [] \<longrightarrow> p \<noteq> []"
    "client_file_Read c f n s =
      ((int (length p), p, if fi_size (cf_info f) \<le> int (m + length p) then Some EOF else None),
       f\<lparr>cf_body := Some b', cf_pos := of_nat (m + length p)\<rparr>, s')"
    using Read_body [OF Suc.prems(1,2,3) len, of s] by (elim exE conjE)
  have "read_loop c fuel n (f\<lparr>cf_body := Some b', cf_pos := of_nat (m + length p)\<rparr>) s' = None"
    using Suc.prems p(1) by (intro Suc.IH [of _ b' "m + length p"]) auto
  then show ?case using p(1,3) Suc.prems(4) by simp
qed simp

lemma first_read:
  assumes "cf_body f = None" "doRequest c (cf_name f) (if cf_seeked f then sint (cf_pos f) else - 1) 0 s = (Inr b, s1)"
  shows "read_loop c fuel n f s = read_loop c fuel n (f\<lparr>cf_body := Some b\<rparr>) s1"
  using assms by (cases fuel) (simp_all add: client_file_Read_def Let_def split: prod.splits)

end

section \<open>The reference server\<close>

definition ref_stored :: "dav_tree \<Rightarrow> string list \<Rightarrow> bytes option" where
  "ref_stored t cs = (case map_of t cs of Some (Some d) \<Rightarrow> Some d | _ \<Rightarrow> None)"

fun body_content :: "ref_body \<Rightarrow> bytes" where
  "body_content (DataBody d) = d"
| "body_content (TokenBody ts) = []"

lemma ref_range_split: "split_on CHR ''-'' (format_uint i @ CHR ''-'' # format_uint j) = [format_uint i, format_uint j]"
  "split_on CHR ''-'' (format_uint i @ ''-'') = [format_uint i, []]"
proof -
  have "CHR ''-'' \<notin> set (format_uint n)" for n
    by (rule format_uint_free) (simp add: is_digit_def less_eq_char_def)
  then show "split_on CHR ''-'' (format_uint i @ CHR ''-'' # format_uint j) = [format_uint i, format_uint j]"
    "split_on CHR ''-'' (format_uint i @ ''-'') = [format_uint i, []]"
    using split_on_append [of "CHR ''-''" "format_uint i" "[]"]
    by (simp_all add: split_on_append split_on_id)
qed

interpretation dref: dav_download dav_ref ref_endpoint ref_base ref_stored body_content
proof (unfold_locales, goal_cases)
  case (5 b n s k p err b' s')
  then show ?case by (cases b) (auto simp: dav_ref_def)
next
  case (6 r cs s d)
  then show ?case using ref_path [of cs]
    by (auto simp: dav_ref_def ref_do_def ref_stored_def Let_def split: option.splits)
next
  case (7 r cs s d i)
  then show ?case using ref_path [of cs] format_uint_facts [of i] ref_range_split(2) [of i]
    by (auto simp: dav_ref_def ref_do_def ref_stored_def Let_def split: option.splits)
next
  case (8 r cs s d i j)
  then show ?case using ref_path [of cs] format_uint_facts ref_range_split(1) [of i j]
    by (auto simp: dav_ref_def ref_do_def ref_stored_def Let_def slice_def split: option.splits)
qed (use ref_endpoint_ok in \<open>simp_all add: dav_ref_def\<close>)

end
