(* ===== verification/Dav_Props.thy ===== *)
theory Dav_Props
  imports Dav_Reads
begin

text \<open>
  The properties of the WebDAV file system, over any server with the interfaces of the previous
  theories, each with a run on the reference server.
\<close>

section \<open>Looking\<close>

text \<open>C22: \<open>Stat\<close> of a path shows what the server has there: a collection as a directory, a resource as a file
  with its size, under its last element as name; a path with nothing is reported in a way that
  \<open>os.IsNotExist\<close> recognises. The path may be written with a slash at its end.\<close>

theorem Dav_Stat_result:
  assumes "dav_server c ep base kind" "list_all name_ok cs" "p = abs_path cs \<or> p = abs_path cs @ ''/''"
  shows "case kind s cs of
      None \<Rightarrow> dav_Stat c p s = (Inl (PathError ''stat'' p ErrNotExist), s)
    | Some k \<Rightarrow> \<exists>fi. dav_Stat c p s = (Inr fi, s) \<and> fi_is_dir fi = (k = Collection)
        \<and> (cs \<noteq> [] \<longrightarrow> fi_name fi = last cs) \<and> (\<forall>n. k = Resource n \<longrightarrow> fi_size fi = n)"
proof -
  have "names_path p cs" using assms(2,3) names_path_abs names_path_slash by blast
  note kinds = dav_server.Stat_kind [OF assms(1) this assms(2), of s]
  show ?thesis
  proof (cases "kind s cs")
    case None
    then show ?thesis using kinds by simp
  next
    case (Some k)
    then show ?thesis
      using kinds path_base_entry [OF assms(2), of k] by (cases k) (auto simp: shows_kind_def)
  qed
qed

lemma ref_tree_kinds:
  "ref_kind [([''a''], None), ([''a'', ''b''], Some ''xyz'')] [''a'', ''b''] = Some (Resource 3)"
  "ref_kind [([''a''], None), ([''a'', ''b''], Some ''xyz'')] [''a''] = Some Collection"
  "ref_kind [([''a''], None), ([''a'', ''b''], Some ''xyz'')] [''b''] = None"
  by code_simp+

lemma dav_names [simp]: "name_ok ''a''" "name_ok ''b''" "name_ok ''c''"
  by (simp_all add: name_ok_def good_elem_def)

lemma dav_abs: "abs_path [a] = ''/'' @ a" "abs_path [a, b] = ''/'' @ a @ ''/'' @ b"
  by (simp_all add: abs_path_def)

theorem Dav_Stat_result_witness:
  "\<exists>fi. dav_Stat dav_ref ''/a/b'' [([''a''], None), ([''a'', ''b''], Some ''xyz'')]
      = (Inr fi, [([''a''], None), ([''a'', ''b''], Some ''xyz'')])
    \<and> \<not> fi_is_dir fi \<and> fi_name fi = ''b'' \<and> fi_size fi = 3"
  using Dav_Stat_result [OF dref.dav_server_axioms, of "[''a'', ''b'']" "''/a/b''"
      "[([''a''], None), ([''a'', ''b''], Some ''xyz'')]"]
  by (simp add: ref_tree_kinds dav_abs)

text \<open>A server that answers \<open>PROPFIND\<close> with a status other than 207 makes \<open>Stat\<close> fail: with the status in the
  error, except that 404 becomes \<open>ErrNotExist\<close>; and so does every status of success, for instance the
  200 of a server that knows no WebDAV: the path is reported as missing.\<close>

theorem Dav_Stat_status:
  assumes "dc_endpoint c = Endpoint_url ep" "wf_endpoint ep" "Path ep = abs_path base"
    and "\<forall>r. \<exists>b. fst (dc_do c r s) = Inr (code, b)" "code \<noteq> 207"
  shows "\<exists>err. fst (dav_Stat c p s) = Inl err
    \<and> (if code = 404 \<or> 200 \<le> code \<and> code < 300 then err = PathError ''stat'' p ErrNotExist
       else as_http err = Some code \<and> \<not> errors_is err ErrNotExist)"
proof -
  obtain tokens where tokens: "PropFind_tokens FileInfoPropFind = Inr tokens"
    by (simp add: PropFind_tokens_def FileInfoPropFind_def NewPropNamePropFind_def xmlNamesToRaw_def
        NewRawXMLElement_def collect_def)
  have "Depth_String 0 = Inr ''0''" by (simp add: Depth_String_def DepthZero_def)
  then obtain r where r: "client_PropFind c p 0 (Some FileInfoPropFind) s = client_doMultiStatus c r s"
    using tokens client_req_url [OF assms(1-3)] by (simp add: client_PropFind_def client_reqXML_def)
  obtain b where b: "fst (dc_do c r s) = Inr (code, b)" using assms(4) by blast
  then have ms: "fst (client_PropFind c p 0 (Some FileInfoPropFind) s) = Inr (NewMultiStatus
      [NewErrorResponse (url_path (rq_url r)) (HTTPError code None) (HTTPError_Error code None)])"
    using assms(5) r by (cases "dc_do c r s") (simp add: client_doMultiStatus_def client_do_def)
  let ?resp = "NewErrorResponse (url_path (rq_url r)) (HTTPError code None) (HTTPError_Error code None)"
  have ok: "Response_Err ?resp = (if 200 \<le> code \<and> code < 300 then None else
      Some (HTTPError code (Some (WrapError (HTTPError_Error code None) (DavError None)))))"
    by (simp add: Response_Err_def NewErrorResponse_def empty_response_def HTTPError_Error_def)
  have "\<exists>pe. Response_FileInfo (dc_parse_time c) ?resp = Inl pe \<and> as_http pe = Some (if 200 \<le> code \<and> code < 300 then 404 else code)
      \<and> \<not> errors_is pe ErrNotExist"
  proof (cases "200 \<le> code \<and> code < 300")
    case True
    have "valueXMLName (dv_type ResourceType) = Inr ResourceTypeName"
      by (simp only: ResourceType_def dav_value.simps struct_names)
    moreover have "rs_prop_stats ?resp = []" by (simp add: NewErrorResponse_def empty_response_def)
    ultimately have "Response_DecodeProp ?resp ResourceType
        = Inl (newPropError ResourceTypeName (HTTPError 404 (Some (ErrorString ''missing property''))))"
      using True ok by (simp add: Response_DecodeProp_def)
    moreover have "snd (Response_Path ?resp) = None"
      using True ok by (simp add: Response_Path_def Let_def) (simp add: NewErrorResponse_def empty_response_def)
    ultimately show ?thesis
      using True by (cases "Response_Path ?resp") (simp add: Response_FileInfo_def newPropError_def)
  next
    case False
    let ?e = "HTTPError code (Some (WrapError (HTTPError_Error code None) (DavError None)))"
    have "Response_Err ?resp = Some ?e" using ok False by (simp only: if_False)
    then have "snd (Response_Path ?resp) = Some ?e"
      by (simp add: Response_Path_def Let_def) (simp add: NewErrorResponse_def empty_response_def)
    then show ?thesis
      using False by (cases "Response_Path ?resp") (auto simp add: Response_FileInfo_def)
  qed
  then show ?thesis
    using ms by (cases "client_PropFind c p 0 (Some FileInfoPropFind) s")
      (auto simp: dav_Stat_def NewMultiStatus_def IsNotFound_def)
qed

definition dav_refusing :: "int \<Rightarrow> (ref_body, dav_tree) dav_client" where
  "dav_refusing code = dav_ref\<lparr>dc_do := (\<lambda>r s. (Inr (code, DataBody []), s))\<rparr>"

theorem Dav_Stat_status_witness:
  "fst (dav_Stat (dav_refusing 200) ''/a'' []) = Inl (PathError ''stat'' ''/a'' ErrNotExist)
   \<and> (\<exists>err. fst (dav_Stat (dav_refusing 401) ''/a'' []) = Inl err \<and> as_http err = Some 401)"
  using Dav_Stat_status [of "dav_refusing 200" ref_endpoint ref_base "[]" 200 "''/a''"]
    Dav_Stat_status [of "dav_refusing 401" ref_endpoint ref_base "[]" 401 "''/a''"] ref_endpoint_ok
  by (auto simp: dav_refusing_def dav_ref_def)

text \<open>C23: \<open>Readdir\<close> of a collection lists its children, each with its name, kind and size, and not the collection
  itself; with a limit \<open>n\<close> it returns one entry more than asked when there are as many.\<close>

theorem Dav_Readdir_result:
  assumes "dav_server c ep base kind" "list_all name_ok cs" "kind s cs = Some Collection" "davfile_Name f = abs_path cs"
  shows "\<exists>infos xs. davfile_Readdir c f n s = (Inr (if 0 < n then take (nat (n + 1)) infos else infos), f, s)
    \<and> set xs = {x. name_ok x \<and> kind s (cs @ [x]) \<noteq> None} \<and> map fi_name infos = xs
    \<and> (\<forall>fi \<in> set infos. case kind s (cs @ [fi_name fi]) of
         Some (Resource k) \<Rightarrow> \<not> fi_is_dir fi \<and> fi_size fi = k | _ \<Rightarrow> fi_is_dir fi)"
proof -
  obtain infos xs where r: "davfile_Readdir c f n s = (Inr (if 0 < n then take (nat (n + 1)) infos else infos), f, s)"
    "set xs = {x. name_ok x \<and> kind s (cs @ [x]) \<noteq> None}"
    "list_all2 (\<lambda>fi x. fi_name fi = x \<and> shows_kind fi (the (kind s (cs @ [x])))) infos xs"
    using dav_server.Readdir_collection [OF assms, of n] by blast
  have names: "map fi_name infos = xs" using r(3) by (induction infos xs rule: list_all2_induct) auto
  have "shows_kind fi (the (kind s (cs @ [fi_name fi]))) \<and> kind s (cs @ [fi_name fi]) \<noteq> None" if "fi \<in> set infos" for fi
  proof -
    have "shows_kind fi (the (kind s (cs @ [fi_name fi])))"
      using r(3) that by (induction infos xs rule: list_all2_induct) auto
    moreover have "fi_name fi \<in> set xs" using that names by auto
    ultimately show ?thesis using r(2) by auto
  qed
  then have "\<forall>fi \<in> set infos. case kind s (cs @ [fi_name fi]) of
      Some (Resource k) \<Rightarrow> \<not> fi_is_dir fi \<and> fi_size fi = k | _ \<Rightarrow> fi_is_dir fi"
    by (fastforce simp: shows_kind_def split: option.splits dav_kind.splits)
  then show ?thesis using r(1,2) names by blast
qed

definition dir_file :: "string \<Rightarrow> ref_body dav_file" where
  "dir_file name =
     \<lparr>df_node = \<lparr>nd_name = name, nd_size = 0, nd_mode = 0, nd_mod_time = 0\<rparr>, df_writer = None, df_file = None\<rparr>"

theorem Dav_Readdir_result_witness:
  "\<exists>infos. davfile_Readdir dav_ref (dir_file ''/a'') 0 [([''a''], None), ([''a'', ''b''], Some ''xyz'')]
      = (Inr infos, dir_file ''/a'', [([''a''], None), ([''a'', ''b''], Some ''xyz'')])
    \<and> fi_name ` set infos = {''b''}"
proof -
  let ?t = "[([''a''], None), ([''a'', ''b''], Some ''xyz'')]"
  have children: "{x. name_ok x \<and> ref_kind ?t ([''a''] @ [x]) \<noteq> None} = {''b''}"
    by (auto simp: ref_kind_def)
  have name: "davfile_Name (dir_file p) = p" for p by (simp add: davfile_Name_def dir_file_def)
  have a: "list_all name_ok [''a'']" "davfile_Name (dir_file ''/a'') = abs_path [''a'']"
    by (simp_all add: name dav_abs)
  have run: "\<exists>infos. davfile_Readdir c f 0 s = (Inr infos, f, s) \<and> fi_name ` set infos = {x. name_ok x \<and> kind s (cs @ [x]) \<noteq> None}"
    if "dav_server c ep base kind" "list_all name_ok cs" "kind s cs = Some Collection" "davfile_Name f = abs_path cs"
    for c :: "(ref_body, dav_tree) dav_client" and ep base kind cs s f
    using Dav_Readdir_result [OF that, of 0] by (auto simp flip: set_map)
  show ?thesis
    using run [OF dref.dav_server_axioms a(1) ref_tree_kinds(2) a(2)] unfolding children .
qed

text \<open>A directory opened by a name with a slash at its end knows itself only by its last element: below another
  directory, its \<open>Readdir\<close> asks for an entry of that name in the root, and fails when there is none.\<close>

theorem Dav_slash_dir_forgets_path:
  assumes "dav_server c ep base kind" "list_all name_ok (ds @ [d])" "kind s (ds @ [d]) = Some Collection" "kind s [d] = None"
  shows "\<exists>f err. dav_OpenFile c (abs_path (ds @ [d]) @ ''/'') O_RDONLY m s = (Inr f, s)
    \<and> davfile_Name f = d \<and> davfile_Readdir c f n s = (Inl err, f, s) \<and> as_http err = Some 404"
proof -
  let ?p = "abs_path (ds @ [d]) @ ''/''"
  obtain fi where fi: "dav_Stat c ?p s = (Inr fi, s)" "shows_kind fi Collection" "fi_name fi = d"
    using dav_server.Stat_found [OF assms(1) names_path_slash [OF assms(2)] assms(2,3)] path_base_entry [OF assms(2)]
    by auto
  have open_dir: "dav_OpenFile c ?p O_RDONLY m s = (Inr (dav_dir_file fi), s)"
    using fi by (simp add: dav_OpenFile_def dav_openDir_def has_flag_def open_flags shows_kind_def)
  have d: "list_all name_ok [d]" "d \<noteq> []" using assms(2) by (auto dest: name_okD)
  have sl: "slash \<notin> set d" using assms(2) by (auto dest: name_okD)
  then obtain y ys where y: "d = y # ys" "y \<noteq> slash" using d(2) by (cases d) auto
  have nosuf: "\<not> has_suffix d ''/''" using sl by (auto simp: has_suffix_iff)
  then have ln: "dav_list_name d = d @ ''/''" using y sl by (simp add: dav_list_name_def trim_prefix_def)
  have tl: "trim_left slash (abs_path [d] @ ''/'') = trim_left slash (d @ ''/'')"
    using y by (simp add: trim_left_def abs_path_def)
  have "names_path (dav_list_name d) [d]"
    using names_path_slash [OF d(1)] unfolding ln names_path_def tl .
  moreover have "Depth_String 1 = Inr ''1''" by (simp add: Depth_String_def DepthZero_def DepthOne_def)
  ultimately have "client_PropFind c (dav_list_name d) 1 (Some FileInfoPropFind) s
    = (Inr (NewMultiStatus [NewErrorResponse (abs_path (base @ [d])) (HTTPError 404 None) (HTTPError_Error 404 None)]), s)"
    using dav_server.find_missing [OF assms(1) _ d(1) assms(4)] by blast
  then have "\<exists>err. davfile_Readdir c (dav_dir_file fi) n s = (Inl err, dav_dir_file fi, s) \<and> as_http err = Some 404"
    using fi(3) by (simp add: davfile_Readdir_def davfile_Name_def dav_dir_file_def dav_addNode_def NewMultiStatus_def
        Response_Path_def Response_Err_def NewErrorResponse_def empty_response_def)
  then show ?thesis
    using open_dir fi(3) by (auto simp: davfile_Name_def dav_dir_file_def dav_addNode_def)
qed

theorem Dav_slash_dir_forgets_path_witness:
  "\<exists>f err. dav_OpenFile dav_ref ''/a/b/'' O_RDONLY 0 [([''a'', ''b''], None)] = (Inr f, [([''a'', ''b''], None)])
    \<and> davfile_Name f = ''b'' \<and> davfile_Readdir dav_ref f 0 [([''a'', ''b''], None)] = (Inl err, f, [([''a'', ''b''], None)])
    \<and> as_http err = Some 404"
proof -
  have "ref_kind [([''a'', ''b''], None)] [''a'', ''b''] = Some Collection" "ref_kind [([''a'', ''b''], None)] [''b''] = None"
    by code_simp+
  then show ?thesis
    using Dav_slash_dir_forgets_path [OF dref.dav_server_axioms, of "[''a'']" "''b''" "[([''a'', ''b''], None)]" 0 0]
    by (simp add: dav_abs)
qed

section \<open>Making\<close>

text \<open>C24: \<open>Mkdir\<close>: what is there already is an error, and so is a missing parent, which is reported under the
  parent's name; in both cases nothing is sent that changes the server. Otherwise one \<open>MKCOL\<close> is sent,
  for the path without the slash, and its outcome is the outcome: the error when it cannot be sent or gets no answer,
  a status from 400 on as an error, and no error for any other status, after which the path is a collection.\<close>

theorem Dav_Mkdir_result:
  assumes "dav_server c ep base kind" "list_all name_ok (ds @ [d])"
  shows "(kind s (ds @ [d]) \<noteq> None \<longrightarrow>
        dav_Mkdir c (abs_path (ds @ [d])) m s = (Some (PathError ''mkdir'' (abs_path (ds @ [d])) ErrExist), s))
    \<and> (kind s (ds @ [d]) = None \<and> kind s ds = None \<longrightarrow>
        dav_Mkdir c (abs_path (ds @ [d])) m s = (Some (PathError ''stat'' (abs_path ds) ErrNotExist), s))
    \<and> (kind s (ds @ [d]) = None \<and> kind s ds \<noteq> None \<longrightarrow>
        (\<exists>r. rq_method r = ''MKCOL'' \<and> url_path (rq_url r) = abs_path (base @ ds @ [d]) \<and>
          (case dc_do c r s of
             (Inl err, s1) \<Rightarrow> dav_Mkdir c (abs_path (ds @ [d])) m s = (Some err, s1)
           | (Inr (code, b), s1) \<Rightarrow>
               dav_Mkdir c (abs_path (ds @ [d])) m s = (if 400 \<le> code then Some (HTTPError code None) else None, s1)
               \<and> (code < 400 \<longrightarrow> kind s1 (ds @ [d]) = Some Collection))))"
proof (intro conjI impI, goal_cases)
  case 1
  then show ?case using dav_server.Mkdir_exists [OF assms] by blast
next
  case 2
  then show ?case using dav_server.Mkdir_new [OF assms(1), of ds d s m] assms(2) by simp
next
  case 3
  let ?cs = "ds @ [d]" and ?r = "dav_server.dav_req ep base ''MKCOL'' (ds @ [d]) [] NoBody"
  have r: "rq_method ?r = ''MKCOL''" "url_path (rq_url ?r) = abs_path (base @ ds @ [d])"
    using dav_server.dav_req_simps [OF assms(1)] by simp_all
  have new: "dav_Mkdir c (abs_path ?cs) m s =
      (case client_doSimple c ?r s of
         (Some err, s1) \<Rightarrow> (Some err, s1)
       | (None, s1) \<Rightarrow>
           (case dav_Stat c (abs_path ?cs @ ''/'') s1 of (Inl err, s2) \<Rightarrow> (Some err, s2) | (Inr _, s2) \<Rightarrow> (None, s2)))"
    using dav_server.Mkdir_new [OF assms(1), of ds d s m] assms(2) 3 by simp
  have "dav_Mkdir c (abs_path ?cs) m s = (if 400 \<le> code then Some (HTTPError code None) else None, s1)
      \<and> (code < 400 \<longrightarrow> kind s1 ?cs = Some Collection)" if do: "dc_do c ?r s = (Inr (code, b), s1)" for code b s1
  proof -
    have simple: "client_doSimple c ?r s = (if 400 \<le> code then Some (HTTPError code None) else None, s1)"
      using do dav_server.close_pure [OF assms(1), of b s1] by (simp add: client_doSimple_def client_do_def)
    have made: "kind s1 ?cs = Some Collection" if "code < 400"
      using dav_server.mkcol_makes [OF assms(1) r(1) assms(2) _ do that] r(2) by simp
    have "\<exists>fi. dav_Stat c (abs_path ?cs @ ''/'') s1 = (Inr fi, s1)" if "code < 400"
      using dav_server.Stat_found [OF assms(1) names_path_slash [OF assms(2)] assms(2) made [OF that]] by blast
    then show ?thesis using new simple made by (cases "400 \<le> code") auto
  qed
  moreover have "dav_Mkdir c (abs_path ?cs) m s = (Some err, s1)" if "dc_do c ?r s = (Inl err, s1)" for err s1
    using new that by (simp add: client_doSimple_def client_do_def)
  ultimately show ?case using r by (intro exI [of _ ?r]) (auto split: prod.split sum.split)
qed

text \<open>A server that cannot be reached with \<open>MKCOL\<close> keeps the laws.\<close>

lemma dav_server_unreachable:
  assumes "dav_server c ep base kind"
  shows "dav_server (c\<lparr>dc_do := \<lambda>r s. if rq_method r = ''MKCOL'' then (Inl e, s) else dc_do c r s\<rparr>) ep base kind"
  using assms unfolding dav_server_def by simp

theorem Dav_Mkdir_result_witness:
  "dav_Mkdir dav_ref ''/a'' 0 [([''a''], None)] = (Some (PathError ''mkdir'' ''/a'' ErrExist), [([''a''], None)])
   \<and> dav_Mkdir dav_ref ''/a/b'' 0 [] = (Some (PathError ''stat'' ''/a'' ErrNotExist), [])
   \<and> (\<exists>t. dav_Mkdir dav_ref ''/a'' 0 [] = (None, t) \<and> ref_kind t [''a''] = Some Collection)
   \<and> dav_Mkdir (dav_ref\<lparr>dc_do := \<lambda>r s. if rq_method r = ''MKCOL'' then (Inl ErrTimeout, s) else dc_do dav_ref r s\<rparr>) ''/a'' 0 []
       = (Some ErrTimeout, [])"
proof (intro conjI)
  show "dav_Mkdir dav_ref ''/a'' 0 [([''a''], None)] = (Some (PathError ''mkdir'' ''/a'' ErrExist), [([''a''], None)])"
    using Dav_Mkdir_result [OF dref.dav_server_axioms, of "[]" "''a''" "[([''a''], None)]" 0]
    by (simp add: dav_abs ref_kind_def)
  show "dav_Mkdir dav_ref ''/a/b'' 0 [] = (Some (PathError ''stat'' ''/a'' ErrNotExist), [])"
    using Dav_Mkdir_result [OF dref.dav_server_axioms, of "[''a'']" "''b''" "[]" 0]
    by (simp add: dav_abs ref_kind_def)
  have new: "ref_kind [] ([] @ [''a'']) = None \<and> ref_kind [] [] \<noteq> None" by (simp add: ref_kind_def)
  have names: "list_all name_ok ([] @ [''a''])" by simp
  have unreachable: "dav_server (dav_ref\<lparr>dc_do := \<lambda>r s. if rq_method r = ''MKCOL'' then (Inl ErrTimeout, s) else dc_do dav_ref r s\<rparr>)
      ref_endpoint ref_base ref_kind" by (rule dav_server_unreachable [OF dref.dav_server_axioms])
  from mp [OF conjunct2 [OF conjunct2 [OF Dav_Mkdir_result [OF dref.dav_server_axioms names, of "[]" 0]]] new]
  show "\<exists>t. dav_Mkdir dav_ref ''/a'' 0 [] = (None, t) \<and> ref_kind t [''a''] = Some Collection"
  proof (elim exE conjE, goal_cases)
    case (1 r)
    then have "dc_do dav_ref r [] = (Inr (201, DataBody []), [([''a''], None)])"
      using ref_path [of "[''a'']"] by (simp add: dav_ref_def ref_do_def ref_kind_def Let_def)
    with 1(3) show ?case by (simp add: dav_abs)
  qed
  show "dav_Mkdir (dav_ref\<lparr>dc_do := \<lambda>r s. if rq_method r = ''MKCOL'' then (Inl ErrTimeout, s) else dc_do dav_ref r s\<rparr>) ''/a'' 0 []
       = (Some ErrTimeout, [])"
    using Dav_Mkdir_result [OF unreachable names, of "[]" 0] new by (auto simp: dav_abs)
qed

text \<open>\<open>MkdirAll\<close> over the WebDAV file system makes the directory when it succeeds and takes no collection away
  in any case.\<close>

theorem Dav_MkdirAll_makes:
  assumes "dav_server c ep base kind" "list_all name_ok cs" "cs \<noteq> []"
    and "MkdirAll (Dav_NewFS c) (abs_path cs) s = (r, s')"
  shows "(r = None \<longrightarrow> kind s' cs = Some Collection)
    \<and> (\<forall>ds. list_all name_ok ds \<and> ds \<noteq> [] \<and> kind s ds = Some Collection \<longrightarrow> kind s' ds = Some Collection)"
  using dir_maker.MkdirAll_makes [OF dav_server.dir_maker_here [OF assms(1)], of cs s s']
    dir_maker.MkdirAll_keeps [OF dav_server.dir_maker_here [OF assms(1)], of cs _ s] assms(2-4)
    dav_server.dir_at_kind [OF assms(1)]
  by auto

theorem Dav_MkdirAll_makes_witness:
  "\<exists>t. MkdirAll (Dav_NewFS dav_ref) ''/a/b'' [([''c''], None)] = (None, t)
    \<and> ref_kind t [''a'', ''b''] = Some Collection \<and> ref_kind t [''c''] = Some Collection"
proof -
  let ?t = "[([''a'', ''b''], None), ([''a''], None), ([''c''], None)]"
  have "MkdirAll (Dav_NewFS dav_ref) ''/a/b'' [([''c''], None)] = (None, ?t)"
    by code_simp
  then show ?thesis
    using Dav_MkdirAll_makes [OF dref.dav_server_axioms, of "[''a'', ''b'']" "[([''c''], None)]" None ?t]
    by (simp add: dav_abs ref_kind_def)
qed

section \<open>Paths\<close>

text \<open>C25: A name without an element \<open>..\<close> is resolved below the path of the endpoint, whatever else it holds, and every
  request for it goes there, to the host of the endpoint.\<close>

theorem Dav_request_confined:
  assumes "dc_endpoint c = Endpoint_url ep" "wf_endpoint ep" "Path ep = abs_path base" "list_all name_ok base"
    and "''..'' \<notin> set (split_on slash (trim_left slash p))"
  shows "\<exists>r cs. client_req c m p body = Inr r \<and> rq_method r = m \<and> list_all name_ok cs
    \<and> url_host (rq_url r) = url_host (dc_endpoint c) \<and> url_path (rq_url r) = abs_path (base @ cs)"
  using client_req_url [OF assms(1-3), of m p body] path_join_elems [OF assms(4,5)] filter_good_split assms(1)
  by (auto simp: Endpoint_url_def empty_url_def Endpoint_Host_def)

theorem Dav_request_confined_witness:
  "\<exists>r cs. client_req dav_ref ''GET'' ''//a/./b'' NoBody = Inr r \<and> rq_method r = ''GET'' \<and> list_all name_ok cs
    \<and> url_host (rq_url r) = url_host (dc_endpoint dav_ref) \<and> url_path (rq_url r) = abs_path (ref_base @ cs)"
  by (rule Dav_request_confined [of dav_ref ref_endpoint])
    (use ref_endpoint_ok in \<open>simp_all add: dav_ref_def trim_left_def\<close>)

text \<open>a name with \<open>..\<close> leaves the directory of the endpoint.\<close>

theorem Dav_request_escapes:
  assumes "dc_endpoint c = Endpoint_url ep" "wf_endpoint ep" "Path ep = abs_path (base @ [b])" "list_all name_ok (base @ [b, x])"
  shows "\<exists>r. client_req c m (''../'' @ x) body = Inr r \<and> url_path (rq_url r) = abs_path (base @ [x])"
proof -
  have x: "split_on slash (''../'' @ x) = [''..'', x]" "good_elem x"
    using assms(4) split_on_append [of slash "''..''" x] by (simp_all add: split_on_id name_ok_def)
  have "abs_path (base @ [b]) \<noteq> []" by (simp add: abs_path_def)
  then have "path_elems (abs_path (base @ [b]) @ slash # ''../'' @ x) = base @ [x]"
    using path_elems_join [of "abs_path (base @ [b])" "''../'' @ x"] path_elems_abs [of "base @ [b]"] assms(4) x
    by (simp add: clean_step_def name_ok_def good_elem_def)
  then show ?thesis
    using client_req_url [OF assms(1-3), of m "''../'' @ x" body]
    by (simp add: Endpoint_url_def empty_url_def trim_left_def path_join_base)
qed

theorem Dav_request_escapes_witness:
  "\<exists>r. client_req dav_ref ''GET'' ''../secret'' NoBody = Inr r \<and> url_path (rq_url r) = ''/secret''"
  using Dav_request_escapes [of dav_ref ref_endpoint "[]" "''dav''" "''secret''" "''GET''" NoBody] ref_endpoint_ok(1,2)
  by (simp add: dav_ref_def ref_base_def abs_path_def name_ok_def good_elem_def)

lemma Open_resource:
  assumes "dav_server c ep base kind" "list_all name_ok cs" "kind s cs = Some (Resource n)"
  shows "\<exists>fi. client_Open c (abs_path cs) s = (Inr \<lparr>cf_name = abs_path cs, cf_info = fi, cf_pos = 0, cf_seeked = False, cf_body = None\<rparr>, s)
    \<and> fi_size fi = n"
proof -
  obtain fi where "dav_Stat c (abs_path cs) s = (Inr fi, s)" "shows_kind fi (Resource n)"
    using dav_server.Stat_found [OF assms(1) names_path_abs [OF assms(2)] assms(2,3)] by blast
  then show ?thesis
    by (auto simp: dav_Stat_def client_Open_def shows_kind_def split: prod.splits sum.splits list.splits)
qed

lemma OpenFile_resource:
  assumes "dav_server c ep base kind" "list_all name_ok cs" "kind s cs = Some (Resource n)"
  shows "\<exists>f cf. dav_OpenFile c (abs_path cs) O_RDONLY m s = (Inr f, s) \<and> df_file f = Some cf \<and> cf_name cf = abs_path cs
    \<and> fi_size (cf_info cf) = n \<and> cf_pos cf = 0 \<and> \<not> cf_seeked cf \<and> cf_body cf = None \<and> df_writer f = None"
proof -
  have "cs \<noteq> []" using dav_server.root_collection [OF assms(1), of s] assms(3) by auto
  then obtain ds d where "cs = ds @ [d]" "name_ok d" using assms(2) by (cases cs rule: rev_cases) auto
  then have "\<not> has_suffix (abs_path cs) ''/''" using abs_path_last [of d ds] by (auto simp: has_suffix_iff)
  then show ?thesis
    using Open_resource [of c ep base kind cs s n, OF assms]
    by (auto simp: dav_OpenFile_def dav_openFile_def has_flag_def open_flags davfile_Name_def)
qed

section \<open>Reading\<close>

text \<open>C20: A file opened for reading and read to the end delivers exactly the bytes the server has stored, and
  then the end of the file, whatever the size of the buffer; after a \<open>Seek\<close> to a later
  position it delivers the bytes from there. One call more than there are bytes is enough.\<close>

theorem Dav_read_all:
  assumes "dav_server c ep base kind" "dav_download c ep base stored content"
    and "list_all name_ok cs" "kind s cs = Some (Resource (int (length d)))" "stored s cs = Some d"
    and "length d < 2 ^ 63" "0 < n"
  shows "\<exists>f cf. dav_OpenFile c (abs_path cs) O_RDONLY m s = (Inr f, s) \<and> df_file f = Some cf
    \<and> read_loop c (Suc (length d)) n cf s = Some (d, EOF)
    \<and> (\<forall>i. 0 < i \<and> i < length d \<longrightarrow>
         (\<exists>cf'. client_file_Seek cf (int i) 0 = ((int i, None), cf') \<and> read_loop c (Suc (length d)) n cf' s = Some (drop i d, EOF)))"
proof -
  obtain f cf where f: "dav_OpenFile c (abs_path cs) O_RDONLY m s = (Inr f, s)" "df_file f = Some cf" "cf_name cf = abs_path cs"
    "fi_size (cf_info cf) = int (length d)" "cf_pos cf = 0" "\<not> cf_seeked cf" "cf_body cf = None"
    using OpenFile_resource [of c ep base kind cs s "int (length d)" m, OF assms(1,3,4)] by blast
  note dl = assms(2)
  obtain b s1 where b: "doRequest c (abs_path cs) (-1) 0 s = (Inr b, s1)" "content b = d"
    using dav_download.request_all [OF dl assms(3,5)] by blast
  have "read_loop c (Suc (length d)) n (cf\<lparr>cf_body := Some b\<rparr>) s1 = Some (content b, EOF)"
    using dav_download.read_loop_ends [OF dl, of "cf\<lparr>cf_body := Some b\<rparr>" b 0 n "Suc (length d)" s1] f b(2) assms(6,7)
    by simp
  then have all: "read_loop c (Suc (length d)) n cf s = Some (d, EOF)"
    using dav_download.first_read [OF dl, of cf s b s1] f b by (simp del: read_loop.simps)
  have later: "\<exists>cf'. client_file_Seek cf (int i) 0 = ((int i, None), cf') \<and> read_loop c (Suc (length d)) n cf' s = Some (drop i d, EOF)"
    if i: "0 < i" "i < length d" for i
  proof -
    let ?cf = "cf\<lparr>cf_pos := of_nat i, cf_seeked := True\<rparr>"
    have pos: "sint (of_nat i :: 64 word) = int i" using i assms(6) by (intro dav_download.sint_nat [OF dl]) simp
    then have seek: "client_file_Seek cf (int i) 0 = ((int i, None), ?cf)" by (simp add: client_file_Seek_def)
    obtain b s1 where b: "doRequest c (abs_path cs) (int i) 0 s = (Inr b, s1)" "content b = drop i d"
      using dav_download.request_from [OF dl assms(3,5) i] by blast
    have "read_loop c (Suc (length d)) n (?cf\<lparr>cf_body := Some b\<rparr>) s1 = Some (content b, EOF)"
      using dav_download.read_loop_ends [OF dl, of "?cf\<lparr>cf_body := Some b\<rparr>" b i n "Suc (length d)" s1] f b(2) i assms(6,7)
      by simp
    then have "read_loop c (Suc (length d)) n ?cf s = Some (drop i d, EOF)"
      using dav_download.first_read [OF dl, of ?cf s b s1] f b pos by (simp del: read_loop.simps)
    then show ?thesis using seek by blast
  qed
  show ?thesis using f(1,2) all later by blast
qed

theorem Dav_read_all_witness:
  "\<exists>f cf. dav_OpenFile dav_ref ''/a'' O_RDONLY 0 [([''a''], Some ''xyz'')] = (Inr f, [([''a''], Some ''xyz'')])
    \<and> df_file f = Some cf \<and> read_loop dav_ref 4 2 cf [([''a''], Some ''xyz'')] = Some (''xyz'', EOF)"
proof -
  have abc: "ref_kind [([''a''], Some ''xyz'')] [''a''] = Some (Resource (int (length ''xyz'')))"
    "ref_stored [([''a''], Some ''xyz'')] [''a''] = Some ''xyz''" "list_all name_ok [''a'']"
    by (simp_all add: ref_kind_def ref_stored_def)
  have "\<exists>f cf. dav_OpenFile dav_ref (abs_path [''a'']) O_RDONLY 0 [([''a''], Some ''xyz'')] = (Inr f, [([''a''], Some ''xyz'')])
    \<and> df_file f = Some cf \<and> read_loop dav_ref (Suc (length ''xyz'')) 2 cf [([''a''], Some ''xyz'')] = Some (''xyz'', EOF)"
    using Dav_read_all [of dav_ref ref_endpoint ref_base ref_kind ref_stored body_content "[''a'']" "[([''a''], Some ''xyz'')]"
        "''xyz''" 2 0, OF dref.dav_server_axioms dref.dav_download_axioms abc(3,1,2)]
    by (simp del: read_loop.simps) blast
  then show ?thesis by (simp add: dav_abs numeral_eq_Suc del: read_loop.simps)
qed

text \<open>C26: A \<open>Seek\<close> back to the start spoils the file: the range that is then asked for is \<open>bytes=0-0\<close>, so one byte
  arrives, the file counts as unfinished, and reading to the end never ends.\<close>

theorem Dav_seek_start_hangs:
  assumes "dav_server c ep base kind" "dav_download c ep base stored content"
    and "list_all name_ok cs" "kind s cs = Some (Resource (int (length d)))" "stored s cs = Some d"
    and "2 \<le> length d" "length d < 2 ^ 63" "0 < n"
  shows "\<exists>f cf cf'. dav_OpenFile c (abs_path cs) O_RDONLY m s = (Inr f, s) \<and> df_file f = Some cf
    \<and> client_file_Seek cf 0 0 = ((0, None), cf') \<and> (\<forall>fuel. read_loop c fuel n cf' s = None)"
proof -
  obtain f cf where f: "dav_OpenFile c (abs_path cs) O_RDONLY m s = (Inr f, s)" "df_file f = Some cf" "cf_name cf = abs_path cs"
    "fi_size (cf_info cf) = int (length d)" "cf_pos cf = 0" "\<not> cf_seeked cf" "cf_body cf = None"
    using OpenFile_resource [of c ep base kind cs s "int (length d)" m, OF assms(1,3,4)] by blast
  note dl = assms(2)
  let ?cf = "cf\<lparr>cf_pos := 0, cf_seeked := True\<rparr>"
  have seek: "client_file_Seek cf 0 0 = ((0, None), ?cf)" by (simp add: client_file_Seek_def)
  have "d \<noteq> []" using assms(6) by auto
  then obtain b s1 where b: "doRequest c (abs_path cs) 0 0 s = (Inr b, s1)" "content b = take 1 d"
    using dav_download.request_zero [OF dl assms(3,5)] by blast
  have "read_loop c fuel n (?cf\<lparr>cf_body := Some b\<rparr>) s1 = None" for fuel
    using dav_download.read_loop_stuck [OF dl, of "?cf\<lparr>cf_body := Some b\<rparr>" b 0 n fuel s1] f b(2) assms(6-8) by simp
  then have "read_loop c fuel n ?cf s = None" for fuel
    using dav_download.first_read [OF dl, of ?cf s b s1 fuel n] f b by (simp del: read_loop.simps)
  then show ?thesis using f(1,2) seek by blast
qed

theorem Dav_seek_start_hangs_witness:
  "\<exists>f cf cf'. dav_OpenFile dav_ref ''/a'' O_RDONLY 0 [([''a''], Some ''xyz'')] = (Inr f, [([''a''], Some ''xyz'')])
    \<and> df_file f = Some cf \<and> client_file_Seek cf 0 0 = ((0, None), cf') \<and> read_loop dav_ref 1000 512 cf' [([''a''], Some ''xyz'')] = None"
proof -
  have abc: "ref_kind [([''a''], Some ''xyz'')] [''a''] = Some (Resource (int (length ''xyz'')))"
    "ref_stored [([''a''], Some ''xyz'')] [''a''] = Some ''xyz''" "list_all name_ok [''a'']"
    by (simp_all add: ref_kind_def ref_stored_def)
  have "\<exists>f cf cf'. dav_OpenFile dav_ref (abs_path [''a'']) O_RDONLY 0 [([''a''], Some ''xyz'')] = (Inr f, [([''a''], Some ''xyz'')])
    \<and> df_file f = Some cf \<and> client_file_Seek cf 0 0 = ((0, None), cf')
    \<and> (\<forall>fuel. read_loop dav_ref fuel 512 cf' [([''a''], Some ''xyz'')] = None)"
    using Dav_seek_start_hangs [of dav_ref ref_endpoint ref_base ref_kind ref_stored body_content "[''a'']" "[([''a''], Some ''xyz'')]"
        "''xyz''" 512 0, OF dref.dav_server_axioms dref.dav_download_axioms abc(3,1,2)]
    by (simp del: read_loop.simps)
  then show ?thesis by (auto simp: dav_abs simp del: read_loop.simps)
qed

section \<open>Writing\<close>

text \<open>C21: Writing a file, in whatever chunks, over a transport that takes every chunk of the pipe, hands the server one
  \<open>PUT\<close> for the path, with the concatenation of the chunks as its body. \<open>Close\<close> only lets go of the
  pipe and returns without an error, whatever the server makes of the request: its answer is never asked.\<close>

theorem Dav_upload_concat:
  assumes "dav_server c ep base kind" "list_all name_ok (ds @ [d])" "kind s ds \<noteq> None"
    and "\<forall>r buf p. dc_feed c r buf p s = (None, s)"
  shows "\<exists>f f' f'' r. dav_OpenFile c (abs_path (ds @ [d])) (O_RDWR OR O_CREATE OR O_TRUNC) m s = (Inr f, s)
    \<and> write_all (Dav_NewFS c) f chunks s = (True, f', s)
    \<and> davfile_Close c f' s = (None, f'', dc_finish c r (concat chunks) s)
    \<and> rq_method r = ''PUT'' \<and> url_path (rq_url r) = abs_path (base @ ds @ [d])"
proof -
  let ?cs = "ds @ [d]" and ?r = "dav_server.dav_req ep base ''PUT'' (ds @ [d]) [] PipeBody"
  let ?f = "\<lambda>buf. \<lparr>df_node = \<lparr>nd_name = abs_path ?cs, nd_size = 0, nd_mode = 0, nd_mod_time = 0\<rparr>,
      df_writer = Some (Uploading ?r buf), df_file = None\<rparr>"
  have d: "name_ok d" "list_all name_ok ds" using assms(2) by simp_all
  then have nosuf: "\<not> has_suffix (abs_path ?cs) ''/''" using abs_path_last [of d ds] by (auto simp: has_suffix_iff)
  have flags: "\<not> has_flag (O_RDWR OR O_CREATE OR O_TRUNC) O_APPEND" "has_flag (O_RDWR OR O_CREATE OR O_TRUNC) O_CREATE"
    "has_flag ((O_RDWR OR O_CREATE OR O_TRUNC) OR O_WRONLY) O_CREATE" "has_flag ((O_RDWR OR O_CREATE OR O_TRUNC) OR O_WRONLY) O_WRONLY"
    by (simp_all add: has_flag_def open_flags)
  have put: "client_req c ''PUT'' (abs_path ?cs) PipeBody = Inr ?r"
    using dav_server.req_names [OF assms(1) names_path_abs [OF assms(2)]] .
  have opened: "dav_OpenFile c (abs_path ?cs) (O_RDWR OR O_CREATE OR O_TRUNC) m s = (Inr (?f []), s)"
    using nosuf flags dav_server.check_parent [OF assms(1) d(2,1), of "abs_path ?cs" s] assms(3) put
    by (simp add: dav_OpenFile_def dav_openFile_def client_OpenWrite_def davfile_Name_def)
  have "write_all (Dav_NewFS c) (?f buf) chunks s = (True, ?f (buf @ concat chunks), s)" for buf
    using assms(4) by (induction chunks arbitrary: buf) (simp_all add: Dav_NewFS_def davfile_Write_def pipe_Write_def)
  then have written: "write_all (Dav_NewFS c) (?f []) chunks s = (True, ?f (concat chunks), s)" by simp
  have "davfile_Close c (?f (concat chunks)) s =
      (None, (?f (concat chunks))\<lparr>df_writer := Some WriterClosed\<rparr>, dc_finish c ?r (concat chunks) s)"
    by (simp add: davfile_Close_def pipe_Close_def)
  moreover have "rq_method ?r = ''PUT''" "url_path (rq_url ?r) = abs_path (base @ ds @ [d])"
    using dav_server.dav_req_simps [OF assms(1)] by simp_all
  ultimately show ?thesis using opened written by blast
qed

theorem Dav_upload_concat_witness:
  "\<exists>f f' f''. dav_OpenFile dav_ref ''/a'' (O_RDWR OR O_CREATE OR O_TRUNC) 0 [] = (Inr f, [])
    \<and> write_all (Dav_NewFS dav_ref) f [''x'', ''yz''] [] = (True, f', [])
    \<and> davfile_Close dav_ref f' [] = (None, f'', [([''a''], Some ''xyz'')])"
proof -
  have "\<forall>r buf p. dc_feed dav_ref r buf p [] = (None, [])" by (simp add: dav_ref_def)
  then obtain f f' f'' r where "dav_OpenFile dav_ref (abs_path [''a'']) (O_RDWR OR O_CREATE OR O_TRUNC) 0 [] = (Inr f, [])"
    "write_all (Dav_NewFS dav_ref) f [''x'', ''yz''] [] = (True, f', [])"
    "davfile_Close dav_ref f' [] = (None, f'', dc_finish dav_ref r (concat [''x'', ''yz'']) [])"
    "url_path (rq_url r) = abs_path (ref_base @ [''a''])"
    using Dav_upload_concat [OF dref.dav_server_axioms, of "[]" "''a''" "[]" 0 "[''x'', ''yz'']"] by (auto simp: ref_kind_def)
  then show ?thesis using ref_path [of "[''a'']"] by (simp add: dav_ref_def dav_abs)
qed

section \<open>Values\<close>

text \<open>A status line written by \<open>MarshalText\<close> is read back by \<open>UnmarshalText\<close> with its code, whatever the text is, and
  with the text; where the status has none, with the standard text of the code.\<close>

lemma parse_format_int: "- (2 ^ 63) \<le> i \<Longrightarrow> i < 2 ^ 63 \<Longrightarrow> parse_int 64 (format_int i) = Some i"
proof -
  assume i: "- (2 ^ 63) \<le> i" "i < 2 ^ 63"
  have s: "format_uint n \<noteq> []" "list_all is_digit (format_uint n)" "digits_val (format_uint n) = n" for n
    using format_uint_facts by blast+
  show ?thesis
  proof (cases "i < 0")
    case True
    then show ?thesis using i s [of "nat (- i)"] by (simp add: parse_int_def format_int_def)
  next
    case False
    obtain d ds where d: "format_uint (nat i) = d # ds" using s(1) [of "nat i"] by (cases "format_uint (nat i)") auto
    then have "is_digit d" using s(2) [of "nat i"] by simp
    then have "d \<noteq> CHR ''-''" "d \<noteq> CHR ''+''" by (auto simp: is_digit_def less_eq_char_def)
    then show ?thesis using False i s [of "nat i"] d by (simp add: parse_int_def format_int_def)
  qed
qed

theorem Status_roundtrip:
  assumes "- (2 ^ 63) \<le> st_code st" "st_code st < 2 ^ 63"
  shows "Status_UnmarshalText st0 (Status_MarshalText st)
    = Inr (st\<lparr>st_text := (if st_text st = [] then status_text (st_code st) else st_text st)\<rparr>)"
proof -
  have "CHR '' '' \<notin> set (format_uint n)" for n
    by (rule format_uint_free) (simp add: is_digit_def less_eq_char_def)
  then have free: "CHR '' '' \<notin> set (format_int i)" for i by (simp add: format_int_def)
  let ?t = "if st_text st = [] then status_text (st_code st) else st_text st"
  have cut1: "cut CHR '' '' (Status_MarshalText st) = (''HTTP/1.1'', format_int (st_code st) @ CHR '' '' # ?t, True)"
    using cut_append [of "CHR '' ''" "''HTTP/1.1''" "format_int (st_code st) @ CHR '' '' # ?t"] by (simp add: Status_MarshalText_def)
  have "Status_MarshalText st \<noteq> []" by (simp add: Status_MarshalText_def)
  then show ?thesis
    using parse_format_int [OF assms] unfolding Status_UnmarshalText_def cut1 Let_def prod.case cut_append [OF free]
    by simp
qed

theorem Status_roundtrip_witness:
  "Status_UnmarshalText \<lparr>st_code = 0, st_text = []\<rparr> (Status_MarshalText \<lparr>st_code = 404, st_text = []\<rparr>)
   = Inr \<lparr>st_code = 404, st_text = ''Not Found''\<rparr>"
  using Status_roundtrip [of "\<lparr>st_code = 404, st_text = []\<rparr>" "\<lparr>st_code = 0, st_text = []\<rparr>"]
  by (simp add: status_text_def status_texts_def)

end
