(* ===== verification/Csi_Props.thy ===== *)
theory Csi_Props
  imports Csi
begin

text \<open>
  The properties of the CSI driver: how long it waits for a mount, its volume identifiers, what its servers
  answer, and that the process that mounts gets the backend that was asked for.
\<close>

section \<open>Waiting for the mount\<close>

text \<open>The state before the look of number \<open>n\<close>, and the mount seen at that look for the first time.\<close>

fun after_polls :: "'s os_env \<Rightarrow> nat \<Rightarrow> 's \<Rightarrow> 's" where
  "after_polls os 0 s = s"
| "after_polls os (Suc n) s = after_polls os n (os_Sleep os wait_interval s)"

fun first_seen :: "'s os_env \<Rightarrow> string \<Rightarrow> nat \<Rightarrow> 's \<Rightarrow> bool" where
  "first_seen os path 0 s = (os_NotMountPoint os path s = Inr False)"
| "first_seen os path (Suc k) s =
     (os_NotMountPoint os path s = Inr True \<and> first_seen os path k (os_Sleep os wait_interval s))"

lemma first_seen_iff:
  "first_seen os path k s \<longleftrightarrow>
     (\<forall>j<k. os_NotMountPoint os path (after_polls os j s) = Inr True) \<and> os_NotMountPoint os path (after_polls os k s) = Inr False"
  by (induction k arbitrary: s) (auto simp: less_Suc_eq_0_disj)

lemma wait_from_polls:
  assumes "timeout = elapsed + int n * wait_interval" "0 < n"
  shows "case wait_from os path timeout elapsed s of
      (None, s') \<Rightarrow> \<exists>k<n. first_seen os path k s \<and> s' = after_polls os k s
    | (Some err, s') \<Rightarrow> (\<forall>k<n. \<not> first_seen os path k s)
        \<and> ((\<forall>k<n. os_NotMountPoint os path (after_polls os k s) = Inr True) \<longrightarrow>
            err = ErrorString ''Timeout waiting for mount'' \<and> s' = after_polls os n s)"
  using assms
proof (induction n arbitrary: elapsed s)
  case (Suc n)
  let ?s1 = "os_Sleep os wait_interval s"
  have t: "timeout = elapsed + wait_interval + int n * wait_interval" "timeout \<le> elapsed + wait_interval \<longleftrightarrow> n = 0"
    using Suc.prems by (auto simp: wait_interval_def)
  show ?case
  proof (cases "os_NotMountPoint os path s = Inr True \<and> n \<noteq> 0")
    case True
    then have step: "wait_from os path timeout elapsed s = wait_from os path timeout (elapsed + wait_interval) ?s1"
      using t(2) by (subst wait_from.simps) (simp add: Let_def)
    from True Suc.IH [OF t(1), of ?s1] show ?thesis
      unfolding step by (auto simp: Ex_less_Suc2 All_less_Suc2 split: option.splits)
  next
    case False
    show ?thesis
    proof (cases "os_NotMountPoint os path s")
      case (Inl err)
      then show ?thesis
        by (subst wait_from.simps) (simp add: All_less_Suc2)
    next
      case (Inr b)
      then show ?thesis
        using False t(2) by (subst wait_from.simps) (cases b; simp add: All_less_Suc2 Ex_less_Suc2 Let_def)
    qed
  qed
qed simp

text \<open>C31: Waiting for a mount ends after at most 1000 looks, ten milliseconds apart: it succeeds exactly when one of
  these sees the mount before any fails, right at that look, and it times out when none does and
  none fails.\<close>

theorem waitForMount_result:
  "case waitForMount os path mount_timeout s of
      (None, s') \<Rightarrow> \<exists>k<1000. first_seen os path k s \<and> s' = after_polls os k s
    | (Some err, s') \<Rightarrow> (\<forall>k<1000. \<not> first_seen os path k s)
        \<and> ((\<forall>k<1000. os_NotMountPoint os path (after_polls os k s) = Inr True) \<longrightarrow>
            err = ErrorString ''Timeout waiting for mount'' \<and> s' = after_polls os 1000 s)"
  using wait_from_polls [of mount_timeout 0 1000 os path s]
  by (simp add: waitForMount_def mount_timeout_def wait_interval_def)

text \<open>A system whose state is a clock and whether the mount command has run: the mount is up 25 milliseconds
  after it.\<close>

definition tick_os :: "(int \<times> int option) os_env" where
  "tick_os =
     \<lparr>os_MkdirAll = (\<lambda>p s. (None, s)), os_Executable = (\<lambda>s. Inr ''/bin/unifs''),
      os_Run = (\<lambda>p args s. (None, (fst s, Some (fst s + 25000000)))),
      os_Stat = (\<lambda>p s. None),
      os_NotMountPoint = (\<lambda>p s. Inr (case snd s of None \<Rightarrow> True | Some t \<Rightarrow> fst s < t)),
      os_Unmount = (\<lambda>p s. (None, (fst s, None))),
      os_Sleep = (\<lambda>d s. (fst s + d, snd s)),
      os_Processes = (\<lambda>s. Inr []), os_ReadFile = (\<lambda>p s. Inl ErrNotExist), os_FindProcess = (\<lambda>p s. Inr p)\<rparr>"

theorem waitForMount_result_witness:
  "waitForMount tick_os ''/m'' mount_timeout (0, Some 25000000) = (None, (30000000, Some 25000000))
   \<and> (\<exists>k. first_seen tick_os ''/m'' k (0, Some 25000000) \<and> after_polls tick_os k (0, Some 25000000) = (30000000, Some 25000000))"
proof -
  have run: "waitForMount tick_os ''/m'' mount_timeout (0, Some 25000000) = (None, (30000000, Some 25000000))"
    by code_simp
  then show ?thesis
    using waitForMount_result [of tick_os "''/m''" "(0, Some 25000000)"] by auto
qed

section \<open>Properties\<close>

text \<open>The identifier of a volume can be read back exactly when no part of it holds the separator \<open>#\<close>; then scheme,
  host, path and name are those of the volume. The name comes from the request, and nothing checks it.\<close>

theorem volume_id_roundtrip:
  assumes "newVolume ip name sz secrets = Inr v"
  shows "(\<forall>x \<in> {vol_scheme v, vol_host v, vol_base v, name}. CHR ''#'' \<notin> set x) \<longleftrightarrow>
    volumeFromID (vol_id v) = Inr (v\<lparr>vol_size := 0\<rparr>)"
proof -
  let ?parts = "[vol_scheme v, vol_host v, vol_base v, name]"
  have v: "vol_uuid v = name" "vol_id v = join_with ''#'' ?parts"
    using assms by (auto simp: newVolume_def volume_id_def Let_def split: option.splits sum.splits)
  show ?thesis
  proof
    assume "\<forall>x \<in> {vol_scheme v, vol_host v, vol_base v, name}. CHR ''#'' \<notin> set x"
    then have "split_on CHR ''#'' (vol_id v) = ?parts"
      unfolding v(2) by (intro split_join) auto
    then show "volumeFromID (vol_id v) = Inr (v\<lparr>vol_size := 0\<rparr>)"
      using v(1) by (cases v) (simp add: volumeFromID_def)
  next
    assume ok: "volumeFromID (vol_id v) = Inr (v\<lparr>vol_size := 0\<rparr>)"
    then obtain a b c d where s: "split_on CHR ''#'' (vol_id v) = [a, b, c, d]"
      by (auto simp: volumeFromID_def split: list.splits)
    then have "[a, b, c, d] = [vol_scheme v, vol_host v, vol_base v, vol_uuid v]"
      using ok by (cases v) (simp add: volumeFromID_def)
    then show "\<forall>x \<in> {vol_scheme v, vol_host v, vol_base v, name}. CHR ''#'' \<notin> set x"
      using split_on_free [of _ "CHR ''#''" "vol_id v"] s v(1) by auto
  qed
qed

definition sample_secrets :: "string \<rightharpoonup> string" where
  "sample_secrets = [''backend'' \<mapsto> ''file://./srv/data'']"

lemma sample_volume:
  "newVolume Inr name 5 sample_secrets = Inr \<lparr>vol_id = ''file#.#srv/data#'' @ name, vol_uuid = name, vol_scheme = ''file'',
     vol_host = ''.'', vol_base = ''srv/data'', vol_size = 5\<rparr>"
proof -
  have "ParseEndpoint Inr ''file://./srv/data'' = Inr \<lparr>Scheme = ''file'', Hostname = ''.'', Port = 0, Path = ''/srv/data'',
      Username = [], Password = [], Extra = []\<rparr>"
    by code_simp
  moreover have "trim_both slash ''/srv/data'' = ''srv/data''" by code_simp
  ultimately show ?thesis by (simp add: newVolume_def sample_secrets_def Endpoint_Host_def volume_id_def)
qed

theorem volume_id_roundtrip_witness:
  "map_sum id vol_uuid (volumeFromID ''file#.#srv/data#pvc-1'') = Inr ''pvc-1''
   \<and> volumeFromID ''file#.#srv/data#a#b''
     \<noteq> Inr \<lparr>vol_id = ''file#.#srv/data#a#b'', vol_uuid = ''a#b'', vol_scheme = ''file'', vol_host = ''.'', vol_base = ''srv/data'', vol_size = 0\<rparr>"
  using volume_id_roundtrip [OF sample_volume [of "''pvc-1''"]] volume_id_roundtrip [OF sample_volume [of "''a#b''"]]
  by simp

text \<open>\<open>CreateVolume\<close> on every branch: no name, no capability and a block capability are invalid arguments; a secret
  that is no endpoint is the parser's error, which carries no status; otherwise a volume comes
  back with the requested size and context.\<close>

theorem CreateVolume_result:
  "(cr_name req = [] \<longrightarrow> CreateVolume ip req = Inl (StatusError InvalidArgument ''CreateVolume name must be provided''))
   \<and> (cr_name req \<noteq> [] \<and> cr_caps req = [] \<longrightarrow>
        CreateVolume ip req = Inl (StatusError InvalidArgument ''volume capabilities missing in request''))
   \<and> (cr_name req \<noteq> [] \<and> AccessBlock \<in> set (cr_caps req) \<longrightarrow>
        CreateVolume ip req = Inl (StatusError InvalidArgument ''block volume capability not supported''))
   \<and> (cr_name req \<noteq> [] \<and> cr_caps req \<noteq> [] \<and> AccessBlock \<notin> set (cr_caps req) \<longrightarrow>
        (case map_or_empty (cr_secrets req) ''backend'' of
           None \<Rightarrow> CreateVolume ip req = Inr \<lparr>cv_id = ''###'' @ cr_name req,
             cv_capacity = (case cr_required_bytes req of Some n \<Rightarrow> n | None \<Rightarrow> 0), cv_context = cr_parameters req\<rparr>
         | Some b \<Rightarrow>
             (case ParseEndpoint ip b of
                Inl err \<Rightarrow> CreateVolume ip req = Inl err
              | Inr e \<Rightarrow> CreateVolume ip req = Inr
                  \<lparr>cv_id = Scheme e @ ''#'' @ Endpoint_Host e @ ''#'' @ trim_both slash (Path e) @ ''#'' @ cr_name req,
                   cv_capacity = (case cr_required_bytes req of Some n \<Rightarrow> n | None \<Rightarrow> 0), cv_context = cr_parameters req\<rparr>)))"
  by (auto simp: CreateVolume_def isValidVolumeCapabilities_def newVolume_def volume_id_def Let_def
      split: option.split sum.split)

definition sample_create :: create_request where
  "sample_create =
     \<lparr>cr_name = ''pvc-1'', cr_caps = [AccessMount], cr_parameters = None, cr_required_bytes = Some 7, cr_secrets = None\<rparr>"

theorem CreateVolume_result_witness:
  "CreateVolume Inr sample_create = Inr \<lparr>cv_id = ''###pvc-1'', cv_capacity = 7, cv_context = None\<rparr>"
  using CreateVolume_result [of sample_create Inr]
  by (simp add: sample_create_def map_or_empty_def)

lemma wait_from_seen: "wait_from os path t el s = (None, s') \<Longrightarrow> os_NotMountPoint os path s' = Inr False"
proof (induction os path t el s rule: wait_from.induct)
  case (1 os path t el s)
  then show ?case
    by (subst (asm) (2) wait_from.simps) (auto simp: Let_def split: sum.splits if_splits)
qed

text \<open>What a successful call of \<open>NodePublishVolume\<close> has done.\<close>

lemma published_mounted:
  assumes "NodePublishVolume err_text env os req s = (None, s')"
  shows "\<exists>b e s1 s2 s3 p. map_or_empty (pr_secrets req) ''backend'' = Some b \<and> NewMounter env b s = (Inr e, s1)
    \<and> os_MkdirAll os (pr_target_path req) s1 = (None, s2) \<and> os_Executable os s2 = Inr p
    \<and> os_Run os p [''mount'', ''--backend'', Endpoint_String e, pr_target_path req] s2 = (None, s3)
    \<and> os_NotMountPoint os (pr_target_path req) s' = Inr False"
  using assms
  by (auto simp: NodePublishVolume_def mounter_Mount_def mount_args_def waitForMount_def dest!: wait_from_seen
      split: if_splits option.splits sum.splits prod.splits)

lemma Backend_Init_endpoint: "Backend_Init env m s = (r, m', s') \<Longrightarrow> be_endpoint m' = be_endpoint m"
  by (auto simp: Backend_Init_def split: if_splits sum.splits prod.splits)

text \<open>\<open>NodePublishVolume\<close> succeeds only with the target mounted: a request without a capability, an identifier, a
  target or a backend is refused before anything is done; every later failure is an internal error; and
  success means that the child process was run with the printed backend, and that a look at the
  target saw the mount.\<close>

theorem NodePublishVolume_result:
  assumes "NodePublishVolume err_text env os req s = (r, s')"
  shows "(case r of
      Some err \<Rightarrow>
        (pr_capability req = None \<or> pr_volume_id req = [] \<or> pr_target_path req = [] \<or> map_or_empty (pr_secrets req) ''backend'' = None)
          \<and> s' = s \<and> (\<exists>msg. err = StatusError InvalidArgument msg)
        \<or> (\<exists>e. err = StatusError Internal (err_text e))
    | None \<Rightarrow>
        \<exists>b e s1 s2 s3 p. map_or_empty (pr_secrets req) ''backend'' = Some b \<and> NewMounter env b s = (Inr e, s1)
          \<and> os_MkdirAll os (pr_target_path req) s1 = (None, s2) \<and> os_Executable os s2 = Inr p
          \<and> os_Run os p [''mount'', ''--backend'', Endpoint_String e, pr_target_path req] s2 = (None, s3)
          \<and> os_NotMountPoint os (pr_target_path req) s' = Inr False)"
proof (cases r)
  case None
  then show ?thesis using published_mounted [of err_text env os req s s'] assms by simp
next
  case (Some err)
  then show ?thesis using assms
    by (auto simp: NodePublishVolume_def split: if_splits option.splits sum.splits prod.splits)
qed

definition sample_publish :: publish_request where
  "sample_publish =
     \<lparr>pr_capability = Some AccessMount, pr_volume_id = ''v'', pr_target_path = ''/m'', pr_secrets = Some sample_secrets\<rparr>"

theorem NodePublishVolume_result_witness:
  "NodePublishVolume (\<lambda>_. ''error'') offline_env tick_os sample_publish (0, None) = (None, (30000000, Some 25000000))
   \<and> (\<exists>b. map_or_empty (pr_secrets sample_publish) ''backend'' = Some b)
   \<and> os_NotMountPoint tick_os ''/m'' (30000000, Some 25000000) = Inr False"
proof -
  have "NodePublishVolume (\<lambda>_. ''error'') offline_env tick_os sample_publish (0, None) = (None, (30000000, Some 25000000))"
    by code_simp
  then show ?thesis
    using NodePublishVolume_result [of "\<lambda>_. ''error''" offline_env tick_os sample_publish "(0, None)" None "(30000000, Some 25000000)"]
    by (auto simp: sample_publish_def)
qed

section \<open>From the volume to the mount\<close>

lemma no_hash_scheme: "wf_scheme s \<Longrightarrow> CHR ''#'' \<notin> set s"
  by (auto simp: wf_scheme_def list_all_iff scheme_char_def is_digit_def less_eq_char_def)

lemma no_hash_host: "wf_hostname (Hostname e) \<Longrightarrow> CHR ''#'' \<notin> set (Endpoint_Host e)"
proof -
  have "\<not> host_char_ok CHR ''#''" by code_simp
  moreover have "CHR ''#'' \<notin> set (format_uint n)" for n
    using format_uint_facts [of n] by (auto simp: list_all_iff is_digit_def less_eq_char_def)
  ultimately show "wf_hostname (Hostname e) \<Longrightarrow> CHR ''#'' \<notin> set (Endpoint_Host e)"
    by (auto simp: wf_hostname_def list_all_iff Endpoint_Host_def)
qed

lemma set_trim_left: "set (trim_left c s) \<subseteq> set s"
  by (auto simp: trim_left_def dest: set_dropWhileD)

lemma set_trim_both: "set (trim_both c s) \<subseteq> set s"
  using set_trim_left [of c s] by (auto simp: trim_both_def trim_right_def dest!: set_dropWhileD)

text \<open>C32: From the volume to the mount: when a volume is created for a well-formed backend, with a path and a name without
  \<open>#\<close>, its identifier tells scheme, host, path and name; and when publishing it with the same backend succeeds, the child
  process was run with an argument that parses to that very backend, for every scheme, and a last look at the
  target saw the mount.\<close>

theorem Csi_volume_lifecycle:
  assumes "wf_endpoint e" "CHR ''#'' \<notin> set (Path e) \<union> set (cr_name req)"
    and "map_or_empty (cr_secrets req) ''backend'' = Some (Endpoint_String e)" "CreateVolume ip req = Inr v"
    and "pr_volume_id pub = cv_id v" "map_or_empty (pr_secrets pub) ''backend'' = Some (Endpoint_String e)"
    and "NodePublishVolume err_text env os pub s = (None, s')"
  shows "volumeFromID (pr_volume_id pub) = Inr \<lparr>vol_id = cv_id v, vol_uuid = cr_name req, vol_scheme = Scheme e,
        vol_host = Endpoint_Host e, vol_base = trim_both slash (Path e), vol_size = 0\<rparr>
    \<and> (\<exists>p arg s2 s3. os_Run os p [''mount'', ''--backend'', arg, pr_target_path pub] s2 = (None, s3)
          \<and> ParseEndpoint (env_ip_literal env) arg = Inr e)
    \<and> os_NotMountPoint os (pr_target_path pub) s' = Inr False"
proof -
  note parse = parse_printed_endpoint [OF assms(1)]
  have v: "cv_id v = join_with ''#'' [Scheme e, Endpoint_Host e, trim_both slash (Path e), cr_name req]"
    using assms(3,4) parse [of ip] by (auto simp: CreateVolume_def newVolume_def volume_id_def Let_def split: if_splits option.splits)
  have "\<forall>x \<in> set [Scheme e, Endpoint_Host e, trim_both slash (Path e), cr_name req]. CHR ''#'' \<notin> set x"
    using assms(1,2) set_trim_both [of slash "Path e"] no_hash_scheme no_hash_host by (auto simp: wf_endpoint_def)
  then have "split_on CHR ''#'' (cv_id v) = [Scheme e, Endpoint_Host e, trim_both slash (Path e), cr_name req]"
    unfolding v by (intro split_join) auto
  then have id: "volumeFromID (pr_volume_id pub) = Inr \<lparr>vol_id = cv_id v, vol_uuid = cr_name req, vol_scheme = Scheme e,
        vol_host = Endpoint_Host e, vol_base = trim_both slash (Path e), vol_size = 0\<rparr>"
    by (simp add: volumeFromID_def assms(5))
  obtain e' s1 s2 s3 p where m: "NewMounter env (Endpoint_String e) s = (Inr e', s1)"
    "os_Run os p [''mount'', ''--backend'', Endpoint_String e', pr_target_path pub] s2 = (None, s3)"
    "os_NotMountPoint os (pr_target_path pub) s' = Inr False"
    using published_mounted [OF assms(7)] assms(6) by fastforce
  have "e' = e" using m(1) parse [of "env_ip_literal env"]
    by (auto simp: NewMounter_def dest!: Backend_Init_endpoint split: prod.splits option.splits)
  then show ?thesis using id m(2,3) parse by blast
qed

definition sample_file_endpoint :: Endpoint where
  "sample_file_endpoint =
     \<lparr>Scheme = ''file'', Hostname = ''.'', Port = 0, Path = ''/srv/data'', Username = [], Password = [], Extra = []\<rparr>"

definition sample_lifecycle :: publish_request where
  "sample_lifecycle = sample_publish\<lparr>pr_volume_id := ''file#.#srv/data#pvc-1''\<rparr>"

theorem Csi_volume_lifecycle_witness:
  "map_sum id vol_base (volumeFromID ''file#.#srv/data#pvc-1'') = Inr ''srv/data''
   \<and> NodePublishVolume (\<lambda>_. ''error'') offline_env tick_os sample_lifecycle (0, None) = (None, (30000000, Some 25000000))
   \<and> (\<exists>p arg s2 s3. os_Run tick_os p [''mount'', ''--backend'', arg, ''/m''] s2 = (None, s3)
        \<and> ParseEndpoint Inr arg = Inr sample_file_endpoint)"
proof -
  let ?req = "sample_create\<lparr>cr_secrets := Some sample_secrets, cr_required_bytes := Some 5\<rparr>"
  have run: "NodePublishVolume (\<lambda>_. ''error'') offline_env tick_os sample_lifecycle (0, None) = (None, (30000000, Some 25000000))"
    by code_simp
  have wf: "wf_endpoint sample_file_endpoint" by code_simp
  have printed: "Endpoint_String sample_file_endpoint = ''file://./srv/data''" by code_simp
  have created: "CreateVolume Inr ?req = Inr \<lparr>cv_id = ''file#.#srv/data#pvc-1'', cv_capacity = 5, cv_context = None\<rparr>"
    by (simp add: CreateVolume_def isValidVolumeCapabilities_def sample_create_def map_or_empty_def sample_volume)
  have base: "trim_both slash (Path sample_file_endpoint) = ''srv/data''" by code_simp
  have ip: "env_ip_literal offline_env = Inr" by (simp add: offline_env_def)
  have pub: "pr_volume_id sample_lifecycle = ''file#.#srv/data#pvc-1''" "pr_target_path sample_lifecycle = ''/m''"
    "map_or_empty (pr_secrets sample_lifecycle) ''backend'' = Some (Endpoint_String sample_file_endpoint)"
    by (simp_all add: sample_lifecycle_def sample_publish_def sample_secrets_def map_or_empty_def printed)
  have req: "CHR ''#'' \<notin> set (Path sample_file_endpoint) \<union> set (cr_name ?req)"
    "map_or_empty (cr_secrets ?req) ''backend'' = Some (Endpoint_String sample_file_endpoint)"
    by (simp_all add: sample_file_endpoint_def sample_create_def)
      (simp add: sample_file_endpoint_def [symmetric] sample_secrets_def map_or_empty_def printed)
  show ?thesis
    using Csi_volume_lifecycle [OF wf req created _ pub(3) run] run by (simp add: pub base ip)
qed

text \<open>Delegating a mount hands the child process the same backend: the endpoint is printed for the check and printed
  again for the child, and both times it parses back to itself. So for a well-formed endpoint of
  these schemes delegating is mounting it.\<close>

theorem mount_delegate:
  assumes "wf_endpoint (mc_backend m)" "mc_delegate m" "Scheme (mc_backend m) \<in> {''ftp'', ''ftps'', ''file''}"
  shows "mount_Run env os dm m s = mounter_Mount os (mc_backend m) (mc_mount_point m) s
    \<and> ParseEndpoint (env_ip_literal env) (mount_args (mc_backend m) (mc_mount_point m) ! 2) = Inr (mc_backend m)"
proof -
  note parse = parse_printed_endpoint [OF assms(1), of "env_ip_literal env"]
  have "NewMounter env (Endpoint_String (mc_backend m)) s = (Inr (mc_backend m), s)"
    using parse assms(3) by (auto simp: NewMounter_def Backend_Init_def Backend_Disabled_def Endpoint_IsZero_def overwritten_endpoint_def)
  then show ?thesis using parse assms(2) by (simp add: mount_Run_def mount_args_def)
qed

lemma lower_char: "(if is_upper c then char_of (of_char c + 32 :: nat) else c) = d \<Longrightarrow> \<not> is_lower d \<Longrightarrow> c = d"
proof (cases "is_upper c")
  case True
  then have "is_lower (char_of (of_char c + 32 :: nat))"
    by (simp add: less_eq_char_def)
  then show "(if is_upper c then char_of (of_char c + 32 :: nat) else c) = d \<Longrightarrow> \<not> is_lower d \<Longrightarrow> c = d"
    using True by auto
qed simp

lemma lower_ascii_letters:
  "lower_ascii (CHR 0xC4 # CHR 0xB0 # s) = CHR ''i'' # lower_ascii s"
  "lower_ascii (CHR 0xE2 # CHR 0x84 # CHR 0xAA # s) = CHR ''k'' # lower_ascii s"
  by (simp_all add: has_prefix_def)

definition lower_itself :: "string \<Rightarrow> bool" where
  "lower_itself s \<longleftrightarrow> \<not> has_prefix s [CHR 0xC4, CHR 0xB0] \<and> \<not> has_prefix s [CHR 0xE2, CHR 0x84, CHR 0xAA]"

lemma lower_ascii_itself: "lower_itself (c # s) \<Longrightarrow> lower_ascii (c # s) = hd (to_lower [c]) # lower_ascii s"
  unfolding lower_itself_def lower_ascii.simps by (simp only: if_False conj_absorb de_Morgan_disj simp_thms)

lemma lower_itself_append: "lower_itself (x @ y) \<Longrightarrow> lower_itself x"
  by (auto simp: lower_itself_def has_prefix_iff)

lemma lower_ascii_induct [case_names Nil dotted kelvin itself]:
  assumes "P []" "\<And>s. P s \<Longrightarrow> P (CHR 0xC4 # CHR 0xB0 # s)" "\<And>s. P s \<Longrightarrow> P (CHR 0xE2 # CHR 0x84 # CHR 0xAA # s)"
    and "\<And>c s. lower_itself (c # s) \<Longrightarrow> P s \<Longrightarrow> P (c # s)"
  shows "P s"
proof (induction "length s" arbitrary: s rule: less_induct)
  case less
  consider "s = []" | u where "s = CHR 0xC4 # CHR 0xB0 # u" | u where "s = CHR 0xE2 # CHR 0x84 # CHR 0xAA # u"
    | c u where "s = c # u" "lower_itself (c # u)"
    by (cases s) (auto simp: lower_itself_def has_prefix_iff)
  then show ?case by cases (use less assms in \<open>auto\<close>)
qed

lemma lower_ascii_append_eq:
  "lower_ascii s = a @ b \<Longrightarrow> \<exists>x y. s = x @ y \<and> lower_ascii x = a \<and> lower_ascii y = b"
proof (induction s arbitrary: a rule: lower_ascii_induct)
  case (dotted s)
  show ?case
  proof (cases a)
    case (Cons e a')
    with dotted(2) have "e = CHR ''i''" "lower_ascii s = a' @ b"
      by (simp_all only: lower_ascii_letters append_Cons list.inject)
    with dotted.IH [of a'] obtain x y where "s = x @ y" "lower_ascii x = a'" "lower_ascii y = b" "e = CHR ''i''" by blast
    then show ?thesis using Cons lower_ascii_letters(1) [of x] by (metis append_Cons)
  qed (use dotted in fastforce)
next
  case (kelvin s)
  show ?case
  proof (cases a)
    case (Cons e a')
    with kelvin(2) have "e = CHR ''k''" "lower_ascii s = a' @ b"
      by (simp_all only: lower_ascii_letters append_Cons list.inject)
    with kelvin.IH [of a'] obtain x y where "s = x @ y" "lower_ascii x = a'" "lower_ascii y = b" "e = CHR ''k''" by blast
    then show ?thesis using Cons lower_ascii_letters(2) [of x] by (metis append_Cons)
  qed (use kelvin in fastforce)
next
  case (itself c s)
  show ?case
  proof (cases a)
    case (Cons e a')
    with itself(3) have "e = hd (to_lower [c])" "lower_ascii s = a' @ b"
      by (simp_all only: lower_ascii_itself [OF itself(1)] append_Cons list.inject)
    with itself.IH [of a'] obtain x y where "s = x @ y" "lower_ascii x = a'" "lower_ascii y = b" "e = hd (to_lower [c])" by blast
    then show ?thesis
      using Cons itself(1) lower_itself_append [of "c # x" y] lower_ascii_itself [of c x] by (metis append_Cons)
  qed (use itself in fastforce)
qed simp

text \<open>The characters of the separator stand for themselves.\<close>

lemma lower_char_sign:
  assumes "hd (to_lower [a]) = c" "c \<in> {CHR '':'', CHR ''/''}"
  shows "a = c"
  using lower_char [of a c] assms by (auto simp: to_lower_def less_eq_char_def)

lemma lower_ascii_sign:
  "lower_ascii s = c # t \<Longrightarrow> c \<in> {CHR '':'', CHR ''/''} \<Longrightarrow> \<exists>y. s = c # y \<and> lower_ascii y = t"
  using lower_char_sign by (cases s) (auto split: if_splits)

lemma lower_itself_join: "lower_itself (c # x) \<Longrightarrow> lower_itself (c # x @ CHR '':'' # y)"
  by (cases x; cases "tl x") (auto simp: lower_itself_def has_prefix_def)

lemma lower_ascii_join: "lower_ascii (x @ CHR '':'' # y) = lower_ascii x @ CHR '':'' # lower_ascii y"
proof (induction x rule: lower_ascii_induct)
  case Nil
  show ?case by (simp add: has_prefix_def to_lower_def less_eq_char_def)
next
  case (itself c x)
  then show ?case using lower_itself_join [of c x y] by (simp only: lower_ascii_itself append_Cons)
qed (simp_all only: lower_ascii_letters append_Cons)

lemma lower_ascii_colon: "CHR '':'' \<in> set x \<Longrightarrow> CHR '':'' \<in> set (lower_ascii x)"
  by (drule split_list) (auto simp only: lower_ascii_join set_append list.set)

lemma cut_at_scheme:
  assumes "CHR '':'' \<notin> set x"
  shows "cut_at ''://'' (x @ ''://'' @ addr) = Some (x, addr)"
  using assms by (induction x) auto

lemma scheme_no_colon: "lower_ascii x \<in> {''unix'', ''tcp''} \<Longrightarrow> CHR '':'' \<notin> set x"
  using lower_ascii_colon by fastforce

text \<open>The address to listen on is parsed exactly from \<open>scheme://address\<close> with a scheme that is \<open>unix\<close> or \<open>tcp\<close> in any
  case and an address that is not empty; the scheme comes back as it was written, so \<open>UNIX://\<close> is
  accepted and hands the network name \<open>UNIX\<close> to the listener (and so is a dotted capital I of Turkish).\<close>

theorem csi_ParseEndpoint_result:
  "csi_ParseEndpoint ep = Inr (scheme, addr) \<longleftrightarrow>
     ep = scheme @ ''://'' @ addr \<and> addr \<noteq> [] \<and> lower_ascii scheme \<in> {''unix'', ''tcp''}"
proof -
  have pre: "(\<exists>x y. ep = x @ ''://'' @ y \<and> lower_ascii x = l) \<longleftrightarrow> has_prefix (lower_ascii ep) (l @ ''://'')" for l
  proof
    assume "has_prefix (lower_ascii ep) (l @ ''://'')"
    then obtain t where "lower_ascii ep = l @ (''://'' @ t)" by (auto simp: has_prefix_iff)
    then obtain x r where x: "ep = x @ r" "lower_ascii x = l" "lower_ascii r = ''://'' @ t"
      using lower_ascii_append_eq by blast
    from x(3) lower_ascii_sign [of r] obtain r1 where r1: "r = CHR '':'' # r1" "lower_ascii r1 = ''//'' @ t" by auto
    from r1(2) lower_ascii_sign [of r1] obtain r2 where r2: "r1 = CHR ''/'' # r2" "lower_ascii r2 = ''/'' @ t" by auto
    from r2(2) lower_ascii_sign [of r2] obtain y where "r2 = CHR ''/'' # y" by auto
    then show "\<exists>x y. ep = x @ ''://'' @ y \<and> lower_ascii x = l" using x r1 r2 by auto
  next
    assume "\<exists>x y. ep = x @ ''://'' @ y \<and> lower_ascii x = l"
    then obtain x y where "ep = x @ ''://'' @ y" "lower_ascii x = l" by blast
    then have "lower_ascii ep = (l @ ''://'') @ lower_ascii y"
      by (simp add: lower_ascii_join has_prefix_def to_lower_def less_eq_char_def)
    then show "has_prefix (lower_ascii ep) (l @ ''://'')" by (simp only: has_prefix_append)
  qed
  have dom: "has_prefix (lower_ascii ep) ''unix://'' \<or> has_prefix (lower_ascii ep) ''tcp://'' \<longleftrightarrow>
      (\<exists>x y. ep = x @ ''://'' @ y \<and> lower_ascii x \<in> {''unix'', ''tcp''})"
    using pre [of "''unix''"] pre [of "''tcp''"] by auto
  have val: "csi_ParseEndpoint (x @ ''://'' @ y) = (if y \<noteq> [] then Inr (x, y) else Inl (ErrorString (''Invalid endpoint: '' @ x @ ''://'' @ y)))"
    if "ep = x @ ''://'' @ y" "lower_ascii x \<in> {''unix'', ''tcp''}" for x y
    using dom that cut_at_scheme [OF scheme_no_colon [OF that(2)], of y] by (auto simp: csi_ParseEndpoint_def)
  show ?thesis
  proof (cases "\<exists>x y. ep = x @ ''://'' @ y \<and> lower_ascii x \<in> {''unix'', ''tcp''}")
    case True
    then obtain x y where xy: "ep = x @ ''://'' @ y" "lower_ascii x \<in> {''unix'', ''tcp''}" by blast
    have "x = scheme \<and> y = addr" if "lower_ascii scheme \<in> {''unix'', ''tcp''}" "ep = scheme @ ''://'' @ addr"
      using cut_at_scheme [OF scheme_no_colon [OF xy(2)], of y] cut_at_scheme [OF scheme_no_colon [OF that(1)], of addr] xy that
      by simp
    then show ?thesis using val [OF xy] xy by (auto split: if_splits)
  next
    case False
    then show ?thesis using dom by (auto simp: csi_ParseEndpoint_def)
  qed
qed

definition sample_mount :: mount_cmd where
  "sample_mount =
     \<lparr>mc_mount_point = ''/m'', mc_backend = sample_endpoint\<lparr>Scheme := ''ftp''\<rparr>, mc_foreground = False, mc_delegate = True\<rparr>"

definition idle_daemon :: "(unit, unit, int \<times> int option) daemon_env" where
  "idle_daemon =
     \<lparr>dm_Reborn = (\<lambda>s. (Inr True, s)), dm_Release = (\<lambda>s. s), dm_NewServer = (\<lambda>f n p s. (None, s)), dm_Serve = (\<lambda>s. s),
      dm_ServeSignals = (\<lambda>s. (None, s))\<rparr>"

theorem mount_delegate_witness:
  "mount_Run offline_env tick_os idle_daemon sample_mount (0, None)
     = mounter_Mount tick_os (sample_endpoint\<lparr>Scheme := ''ftp''\<rparr>) ''/m'' (0, None)
   \<and> ParseEndpoint Inr (mount_args (sample_endpoint\<lparr>Scheme := ''ftp''\<rparr>) ''/m'' ! 2) = Inr (sample_endpoint\<lparr>Scheme := ''ftp''\<rparr>)"
proof -
  have "wf_endpoint (sample_endpoint\<lparr>Scheme := ''ftp''\<rparr>)"
    using sample_endpoint_wf by (simp add: wf_endpoint_def sample_endpoint_def wf_scheme_def scheme_char_def less_eq_char_def)
  then show ?thesis
    using mount_delegate [of sample_mount offline_env tick_os idle_daemon "(0, None)"]
    by (simp add: sample_mount_def sample_endpoint_def offline_env_def)
qed

end
