(* ===== verification/Fuse.thy ===== *)
theory Fuse
  imports Filesystem
begin

unbundle bit_operations_syntax

text \<open>
  The FUSE view of a file system (\<open>pkg/fuse\<close>): the nodes (\<open>node.go\<close>, \<open>root.go\<close>) and the open
  files (\<open>file.go\<close>), over any file system of the interface.

  The library go-fuse keeps the tree of inodes. What the code asks of it are parameters: the path
  of an inode from the root (a field of the node), and \<open>fs.ToErrno\<close>. A handler returns an error
  number or its results; an inode that a handler hands over to the library is the pair of the
  attributes it fills in and of the mode that identifies the inode.
\<close>

record fuse_attr =
  at_mode :: "32 word"
  at_size :: "64 word"
  at_mtime :: "64 word"

record fuse_env =
  fe_to_errno :: "go_error \<Rightarrow> errno"
  fe_now :: int

definition S_IFDIR :: "32 word" where "S_IFDIR = 0x4000"

section \<open>The root\<close>

record ('h, 's) fuse_root =
  rt_base :: string
  rt_fsi :: "('h, 's) filesystem"

definition root_path :: "('h, 's) fuse_root \<Rightarrow> string \<Rightarrow> string list \<Rightarrow> string" where
  "root_path r base names =
     (if names \<noteq> [] then path_join ([rt_base r, base] @ names) else path_join [rt_base r, base])"

definition setAttrFromFileInfo :: "file_info \<Rightarrow> fuse_attr \<Rightarrow> fuse_attr" where
  "setAttrFromFileInfo fi out =
     (if fi_is_dir fi then out\<lparr>at_mode := S_IFDIR\<rparr>
      else out\<lparr>at_mode := fi_mode fi, at_size := word_of_int (fi_size fi)\<rparr>)
     \<lparr>at_mtime := word_of_int (fi_mod_time fi)\<rparr>"

text \<open>The file information of a file that \<open>Create\<close> makes up: \<open>IsDir\<close> tests the bit of \<open>stat\<close>, not
  the one of \<open>os.FileMode\<close>.\<close>

definition newFileInfo :: "fuse_env \<Rightarrow> string \<Rightarrow> file_mode \<Rightarrow> file_info" where
  "newFileInfo env name mode =
     \<lparr>fi_name = name, fi_size = 0, fi_mode = mode, fi_mod_time = fe_now env,
      fi_is_dir = (mode AND S_IFDIR \<noteq> 0)\<rparr>"

section \<open>Nodes\<close>

record ('h, 's) fuse_node =
  nd_path :: string
  nd_root :: "('h, 's) fuse_root"

definition fuse_FS :: "('h, 's) filesystem \<Rightarrow> ('h, 's) fuse_node" where
  "fuse_FS fsi = \<lparr>nd_path = [], nd_root = \<lparr>rt_base = ''/'', rt_fsi = fsi\<rparr>\<rparr>"

definition node_path :: "('h, 's) fuse_node \<Rightarrow> string list \<Rightarrow> string" where
  "node_path n names = root_path (nd_root n) (nd_path n) names"

definition node_fsi :: "('h, 's) fuse_node \<Rightarrow> ('h, 's) filesystem" where
  "node_fsi n = rt_fsi (nd_root n)"

definition node_Setattr :: "('h, 's) fuse_node \<Rightarrow> fuse_attr \<Rightarrow> 's \<Rightarrow> errno option \<times> 's" where
  "node_Setattr n attr s = (None, s)"

definition node_Lookup ::
  "fuse_env \<Rightarrow> ('h, 's) fuse_node \<Rightarrow> string \<Rightarrow> fuse_attr \<Rightarrow> 's \<Rightarrow> (errno + fuse_attr \<times> 32 word) \<times> 's" where
  "node_Lookup env n name out s =
     (case fs_stat (node_fsi n) (node_path n [name]) s of
        (Inl err, s1) \<Rightarrow> (Inl (fe_to_errno env err), s1)
      | (Inr fi, s1) \<Rightarrow> (let attr = setAttrFromFileInfo fi out in (Inr (attr, at_mode attr), s1)))"

definition node_Getattr :: "fuse_env \<Rightarrow> ('h, 's) fuse_node \<Rightarrow> fuse_attr \<Rightarrow> 's \<Rightarrow> (errno + fuse_attr) \<times> 's" where
  "node_Getattr env n out s =
     (case fs_stat (node_fsi n) (node_path n []) s of
        (Inl err, s1) \<Rightarrow> (Inl (fe_to_errno env err), s1)
      | (Inr fi, s1) \<Rightarrow> (Inr (setAttrFromFileInfo fi out), s1))"

definition node_Mkdir ::
  "fuse_env \<Rightarrow> ('h, 's) fuse_node \<Rightarrow> string \<Rightarrow> 32 word \<Rightarrow> fuse_attr \<Rightarrow> 's \<Rightarrow> (errno + fuse_attr \<times> 32 word) \<times> 's" where
  "node_Mkdir env n name mode out s =
     (let fullname = node_path n [name] in
      case fs_mkdir (node_fsi n) fullname mode s of
        (Some err, s1) \<Rightarrow> (Inl (fe_to_errno env err), s1)
      | (None, s1) \<Rightarrow>
          (case fs_stat (node_fsi n) fullname s1 of
             (Inl err, s2) \<Rightarrow> (Inl (fe_to_errno env err), s2)
           | (Inr fi, s2) \<Rightarrow> (let attr = setAttrFromFileInfo fi out in (Inr (attr, at_mode attr), s2))))"

record 'h fuse_file =
  ff_f :: 'h

definition node_Create ::
  "fuse_env \<Rightarrow> ('h, 's) fuse_node \<Rightarrow> string \<Rightarrow> 32 word \<Rightarrow> 32 word \<Rightarrow> fuse_attr \<Rightarrow> 's
     \<Rightarrow> (errno + (fuse_attr \<times> 32 word) \<times> 'h fuse_file) \<times> 's" where
  "node_Create env n name flags mode out s =
     (case fs_open_file (node_fsi n) (node_path n [name]) (uint flags) mode s of
        (Inl err, s1) \<Rightarrow> (Inl (fe_to_errno env err), s1)
      | (Inr f, s1) \<Rightarrow>
          (let attr = setAttrFromFileInfo (newFileInfo env name mode) out in
           (Inr ((attr, at_mode attr), \<lparr>ff_f = f\<rparr>), s1)))"

definition node_Open ::
  "fuse_env \<Rightarrow> ('h, 's) fuse_node \<Rightarrow> 32 word \<Rightarrow> 's \<Rightarrow> (errno + 'h fuse_file) \<times> 's" where
  "node_Open env n flags s =
     (case fs_open_file (node_fsi n) (node_path n []) (uint flags) ModePerm s of
        (Inl err, s1) \<Rightarrow> (Inl (fe_to_errno env err), s1)
      | (Inr f, s1) \<Rightarrow> (Inr \<lparr>ff_f = f\<rparr>, s1))"

definition node_Unlink :: "fuse_env \<Rightarrow> ('h, 's) fuse_node \<Rightarrow> string \<Rightarrow> 's \<Rightarrow> errno option \<times> 's" where
  "node_Unlink env n name s =
     (case fs_remove_all (node_fsi n) (node_path n [name]) s of
        (Some err, s1) \<Rightarrow> (Some (fe_to_errno env err), s1)
      | (None, s1) \<Rightarrow> (None, s1))"

definition node_Rmdir :: "fuse_env \<Rightarrow> ('h, 's) fuse_node \<Rightarrow> string \<Rightarrow> 's \<Rightarrow> errno option \<times> 's" where
  "node_Rmdir env n name s =
     (case fs_remove_all (node_fsi n) (node_path n [name]) s of
        (Some err, s1) \<Rightarrow> (Some (fe_to_errno env err), s1)
      | (None, s1) \<Rightarrow> (None, s1))"

text \<open>The path of the new parent is taken from its inode under the root of this node.\<close>

definition node_Rename ::
  "fuse_env \<Rightarrow> ('h, 's) fuse_node \<Rightarrow> string \<Rightarrow> string \<Rightarrow> string \<Rightarrow> 's \<Rightarrow> errno option \<times> 's" where
  "node_Rename env n name newParent newName s =
     (let newFullname = root_path (nd_root n) newParent [newName] in
      case fs_rename (node_fsi n) (node_path n [name]) newFullname s of
        (Some err, s1) \<Rightarrow> (Some (fe_to_errno env err), s1)
      | (None, s1) \<Rightarrow> (None, s1))"

record fuse_dirent =
  dn_name :: string
  dn_mode :: "32 word"

definition fuse_entry :: "file_info \<Rightarrow> fuse_dirent" where
  "fuse_entry fi =
     (let entry = \<lparr>dn_name = fi_name fi, dn_mode = fi_mode fi\<rparr> in
      if fi_is_dir fi then entry\<lparr>dn_mode := S_IFDIR\<rparr> else entry)"

text \<open>The directory that is opened to be listed is not closed.\<close>

definition node_Readdir ::
  "fuse_env \<Rightarrow> ('h, 's) fuse_node \<Rightarrow> 's \<Rightarrow> (errno + fuse_dirent list) \<times> 's" where
  "node_Readdir env n s =
     (case fs_open_file (node_fsi n) (node_path n []) O_RDONLY ModeDir s of
        (Inl err, s1) \<Rightarrow> (Inl (fe_to_errno env err), s1)
      | (Inr f, s1) \<Rightarrow>
          (case f_readdir (node_fsi n) f (-1) s1 of
             (Inl err, _, s2) \<Rightarrow> (Inl (fe_to_errno env err), s2)
           | (Inr list, _, s2) \<Rightarrow> (Inr (map fuse_entry list), s2)))"

section \<open>Open files\<close>

datatype fuse_read = ReadData bytes | ReadErrno errno | ReadPanics

text \<open>
  \<open>Read\<close> into the buffer \<open>dest\<close>. A read at offset 0 does not seek. What the file puts into the buffer
  are its first bytes; slicing panics for a count that is negative or beyond the buffer (which
  the library cuts to its capacity).
\<close>

definition fuse_Read ::
  "('h, 's) filesystem \<Rightarrow> 'h fuse_file \<Rightarrow> bytes \<Rightarrow> 64 word \<Rightarrow> 's \<Rightarrow> fuse_read \<times> 'h fuse_file \<times> 's" where
  "fuse_Read fsys f dest off s =
     (case (if 0 < sint off then f_seek fsys (ff_f f) (sint off) 0 s else ((0, None), ff_f f, s)) of
        ((_, Some _), h1, s1) \<Rightarrow> (ReadErrno ENOENT, f\<lparr>ff_f := h1\<rparr>, s1)
      | ((_, None), h1, s1) \<Rightarrow>
          (case f_read fsys h1 (length dest) s1 of
             ((n, data, err), h2, s2) \<Rightarrow>
               (if err \<noteq> None \<and> err \<noteq> Some EOF then ReadErrno ENOENT
                else if n < 0 \<or> int (length dest) < n then ReadPanics
                else ReadData (take (nat n) (data @ drop (length data) dest)),
                f\<lparr>ff_f := h2\<rparr>, s2)))"

definition maxInt :: int where "maxInt = uint (drop_bit 1 (NOT 0) :: 64 word)"

definition fuse_Write ::
  "fuse_env \<Rightarrow> ('h, 's) filesystem \<Rightarrow> 'h fuse_file \<Rightarrow> bytes \<Rightarrow> 64 word \<Rightarrow> 's
     \<Rightarrow> (errno + 32 word) \<times> 'h fuse_file \<times> 's" where
  "fuse_Write env fsys f data off s =
     (if length data = 0 then (Inr 0, f, s)
      else
        (let newLen = off + of_nat (length data) in
         if maxInt < sint newLen then (Inl EFBIG, f, s)
         else
           (case f_write fsys (ff_f f) data s of
              ((_, Some err), h1, s1) \<Rightarrow> (Inl (fe_to_errno env err), f\<lparr>ff_f := h1\<rparr>, s1)
            | ((n, None), h1, s1) \<Rightarrow> (Inr (word_of_int n), f\<lparr>ff_f := h1\<rparr>, s1))))"

definition fuse_Release ::
  "fuse_env \<Rightarrow> ('h, 's) filesystem \<Rightarrow> 'h fuse_file \<Rightarrow> 's \<Rightarrow> errno option \<times> 'h fuse_file \<times> 's" where
  "fuse_Release env fsys f s =
     (case f_close fsys (ff_f f) s of
        (Some err, h1, s1) \<Rightarrow> (Some (fe_to_errno env err), f\<lparr>ff_f := h1\<rparr>, s1)
      | (None, h1, s1) \<Rightarrow> (None, f\<lparr>ff_f := h1\<rparr>, s1))"

definition fuse_Fsync :: "'h fuse_file \<Rightarrow> 's \<Rightarrow> errno option \<times> 's" where
  "fuse_Fsync f s = (None, s)"

section \<open>What the kernel does with an open file\<close>

text \<open>Reading a file from its start, each request at the end of the one before, until one answers nothing.\<close>

fun fuse_cat :: "nat \<Rightarrow> ('h, 's) filesystem \<Rightarrow> 'h fuse_file \<Rightarrow> bytes \<Rightarrow> nat \<Rightarrow> 's \<Rightarrow> bytes option" where
  "fuse_cat 0 fsys f dest off s = None"
| "fuse_cat (Suc m) fsys f dest off s =
     (case fuse_Read fsys f dest (of_nat off) s of
        (ReadData p, f', s') \<Rightarrow>
          if p = [] then Some [] else map_option ((@) p) (fuse_cat m fsys f' dest (off + length p) s')
      | (_, f', s') \<Rightarrow> None)"

text \<open>A sequence of write requests, up to the first error.\<close>

fun fuse_writes ::
  "fuse_env \<Rightarrow> ('h, 's) filesystem \<Rightarrow> 'h fuse_file \<Rightarrow> (64 word \<times> bytes) list \<Rightarrow> 's \<Rightarrow> bool \<times> 'h fuse_file \<times> 's" where
  "fuse_writes env fsys f [] s = (True, f, s)"
| "fuse_writes env fsys f ((off, data) # reqs) s =
     (case fuse_Write env fsys f data off s of
        (Inr _, f', s') \<Rightarrow> fuse_writes env fsys f' reqs s'
      | (Inl _, f', s') \<Rightarrow> (False, f', s'))"

section \<open>Lemmas\<close>

text \<open>The guard against files that are too long compares with the largest value there is.\<close>

lemma maxInt_eq: "maxInt = 2 ^ 63 - 1"
  by (simp add: maxInt_def mask_eq_exp_minus_1)

lemma newLen_fits: "\<not> maxInt < sint (w :: 64 word)"
  using sint_less [of w] by (simp add: maxInt_eq)

lemma fuse_Write_eq:
  "fuse_Write env fsys f data off s =
     (if data = [] then (Inr 0, f, s)
      else (case f_write fsys (ff_f f) data s of
              ((_, Some err), h1, s1) \<Rightarrow> (Inl (fe_to_errno env err), f\<lparr>ff_f := h1\<rparr>, s1)
            | ((n, None), h1, s1) \<Rightarrow> (Inr (word_of_int n), f\<lparr>ff_f := h1\<rparr>, s1)))"
  by (simp add: fuse_Write_def Let_def newLen_fits)

text \<open>The requests reach the file as the chunks they carry, whatever their offsets are.\<close>

lemma fuse_writes_all:
  "write_all fsys (ff_f f) (filter (\<lambda>d. d \<noteq> []) (map snd reqs)) s = (True, h', s') \<Longrightarrow>
     fuse_writes env fsys f reqs s = (True, f\<lparr>ff_f := h'\<rparr>, s')"
proof (induction reqs arbitrary: f s)
  case (Cons r reqs)
  then show ?case
    by (cases r) (auto simp: fuse_Write_eq split: prod.splits option.splits if_splits)
qed simp

text \<open>A node below the root under plain names stands for the path of these names.\<close>

lemma split_join_any: "es \<noteq> [] \<Longrightarrow> split_on c (join_with [c] es) = concat (map (split_on c) es)"
  by (induction es rule: induct_list012) (simp_all add: split_on_append)

lemma foldl_clean_skip:
  "\<forall>e \<in> set es. e = [] \<or> good_elem e \<Longrightarrow> foldl (clean_step r) st es = rev (filter (\<lambda>e. e \<noteq> []) es) @ st"
  by (induction es arbitrary: st) auto

lemma split_plain: "list_all name_ok cs \<Longrightarrow> split_on slash (join_with ''/'' cs) = (if cs = [] then [[]] else cs)"
  using split_join [of cs slash] by (auto simp: list_all_iff name_ok_def)

lemma plain_names: "list_all name_ok ns \<Longrightarrow> concat (map (split_on slash) ns) = ns"
  by (induction ns) (auto simp: name_ok_def split_on_id)

lemma nonempty_names: "list_all name_ok ns \<Longrightarrow> filter (\<lambda>e. e \<noteq> []) ns = ns"
  by (induction ns) (auto dest: name_okD)

lemma root_path_abs:
  assumes "list_all name_ok cs" "list_all name_ok ns"
  shows "root_path \<lparr>rt_base = ''/'', rt_fsi = fsi\<rparr> (join_with ''/'' cs) ns = abs_path (cs @ ns)"
proof -
  let ?es = "[''/'', join_with ''/'' cs] @ ns" and ?s = "join_with ''/'' ([''/'', join_with ''/'' cs] @ ns)"
  have join: "root_path \<lparr>rt_base = ''/'', rt_fsi = fsi\<rparr> (join_with ''/'' cs) ns = path_clean ?s"
    by (simp add: root_path_def path_join_def)
  have split: "split_on slash ?s = [[], []] @ (if cs = [] then [[]] else cs) @ ns"
    using split_join_any [of ?es slash] split_plain [OF assms(1)] plain_names [OF assms(2)] by simp
  have good: "\<forall>e \<in> set (split_on slash ?s). e = [] \<or> good_elem e"
    unfolding split using assms by (auto simp: list_all_iff dest: name_okD)
  have "filter (\<lambda>e. e \<noteq> []) (split_on slash ?s) = cs @ ns"
    unfolding split using assms by (simp add: nonempty_names)
  then have "path_elems ?s = cs @ ns"
    unfolding path_elems_def foldl_clean_skip [OF good] by simp
  moreover have "is_rooted ?s" by simp
  ultimately show ?thesis unfolding join by (simp add: path_clean_def abs_path_def)
qed

text \<open>The path of such a node.\<close>

definition node_at :: "('h, 's) filesystem \<Rightarrow> string list \<Rightarrow> ('h, 's) fuse_node" where
  "node_at fsi cs = (fuse_FS fsi)\<lparr>nd_path := join_with ''/'' cs\<rparr>"

lemma node_at_simps [simp]:
  "node_fsi (node_at fsi cs) = fsi"
  "list_all name_ok cs \<Longrightarrow> list_all name_ok ns \<Longrightarrow> node_path (node_at fsi cs) ns = abs_path (cs @ ns)"
  by (simp_all add: node_at_def fuse_FS_def node_fsi_def node_path_def root_path_abs)

end
