(* ===== verification/Fuse_Props.thy ===== *)
theory Fuse_Props
  imports Fuse S3_Props Dav_Props
begin

text \<open>
  What the FUSE view makes of the file systems below it: reading a file of the WebDAV file system,
  writing, making and removing over the S3 file system.
\<close>

text \<open>An environment and empty attributes for the concrete runs.\<close>

definition sample_env :: fuse_env where
  "sample_env = \<lparr>fe_to_errno = (\<lambda>err. if errors_is err ErrNotExist then ENOENT else EPERM), fe_now = 0\<rparr>"

definition no_attr :: fuse_attr where
  "no_attr = \<lparr>at_mode = 0, at_size = 0, at_mtime = 0\<rparr>"

section \<open>Reading over WebDAV\<close>

context dav_download begin

text \<open>The handle of a file of this client, and one read of it, wherever the request points.\<close>

lemma fuse_Read_next:
  assumes "df_file h = Some cf" "cf_body cf = Some b"
  obtains p cf' b' s' where
    "fuse_Read (Dav_NewFS c) \<lparr>ff_f = h\<rparr> dest off s = (ReadData p, \<lparr>ff_f = h\<lparr>df_file := Some cf'\<rparr>\<rparr>, s')"
    "cf_body cf' = Some b'" "content b = p @ content b'" "dest \<noteq> [] \<and> content b \<noteq> [] \<longrightarrow> p \<noteq> []"
proof -
  let ?cf = "if 0 < sint off then cf\<lparr>cf_pos := off, cf_seeked := True\<rparr> else cf"
  have body: "cf_body ?cf = Some b" using assms(2) by simp
  obtain p e b' s' where r: "client_file_Read c ?cf (length dest) s =
      ((int (length p), p, e), ?cf\<lparr>cf_body := Some b', cf_pos := cf_pos ?cf + of_nat (length p)\<rparr>, s')"
    and e: "e = None \<or> e = Some EOF" and p: "length p \<le> length dest" "content b = p @ content b'"
      "0 < length dest \<and> content b \<noteq> [] \<longrightarrow> p \<noteq> []"
    by (rule Read_next [OF body])
  let ?cf' = "?cf\<lparr>cf_body := Some b', cf_pos := cf_pos ?cf + of_nat (length p)\<rparr>"
  have seek: "(if 0 < sint off then f_seek (Dav_NewFS c) h (sint off) 0 s else ((0, None), h, s))
      = ((if 0 < sint off then sint off else 0, None), h\<lparr>df_file := Some ?cf\<rparr>, s)"
    using assms(1) by (cases h) (simp add: Dav_NewFS_def davfile_Seek_def client_file_Seek_def Let_def)
  have "f_read (Dav_NewFS c) (h\<lparr>df_file := Some ?cf\<rparr>) (length dest) s
      = ((int (length p), p, e), h\<lparr>df_file := Some ?cf'\<rparr>, s')"
    using r by (simp add: Dav_NewFS_def davfile_Read_def)
  then have "fuse_Read (Dav_NewFS c) \<lparr>ff_f = h\<rparr> dest off s = (ReadData p, \<lparr>ff_f = h\<lparr>df_file := Some ?cf'\<rparr>\<rparr>, s')"
    using seek e p(1) by (auto simp: fuse_Read_def)
  then show thesis by (rule that [of p ?cf' s' b']) (use p in simp_all)
qed

lemma fuse_cat_body:
  assumes "df_file h = Some cf" "cf_body cf = Some b" "dest \<noteq> []" "length (content b) < fuel"
  shows "fuse_cat fuel (Dav_NewFS c) \<lparr>ff_f = h\<rparr> dest m s = Some (content b)"
  using assms
proof (induction fuel arbitrary: h cf b m s)
  case (Suc fuel)
  obtain p cf' b' s' where r:
    "fuse_Read (Dav_NewFS c) \<lparr>ff_f = h\<rparr> dest (of_nat m) s = (ReadData p, \<lparr>ff_f = h\<lparr>df_file := Some cf'\<rparr>\<rparr>, s')"
    "cf_body cf' = Some b'" "content b = p @ content b'" "dest \<noteq> [] \<and> content b \<noteq> [] \<longrightarrow> p \<noteq> []"
    by (rule fuse_Read_next [OF Suc.prems(1,2)])
  show ?case
  proof (cases "p = []")
    case True
    then have "content b = []" using r(4) Suc.prems(3) by blast
    then show ?thesis using True r(1) by simp
  next
    case False
    then have "length (content b') < fuel" using Suc.prems(4) r(3) by (cases p) auto
    then have "fuse_cat fuel (Dav_NewFS c) \<lparr>ff_f = h\<lparr>df_file := Some cf'\<rparr>\<rparr> dest (m + length p) s' = Some (content b')"
      using Suc.IH [of "h\<lparr>df_file := Some cf'\<rparr>" cf' b' "m + length p" s'] r(2) Suc.prems(3) by simp
    then show ?thesis using r False by simp
  qed
qed simp

text \<open>The first read of a file that was not read before asks for the whole file.\<close>

lemma fuse_Read_first:
  assumes "df_file h = Some cf" "cf_body cf = None" "\<not> cf_seeked cf" "doRequest c (cf_name cf) (- 1) 0 s = (Inr b, s1)"
  shows "fuse_Read (Dav_NewFS c) \<lparr>ff_f = h\<rparr> dest 0 s
    = fuse_Read (Dav_NewFS c) \<lparr>ff_f = h\<lparr>df_file := Some (cf\<lparr>cf_body := Some b\<rparr>)\<rparr>\<rparr> dest 0 s1"
  using assms by (cases h) (simp add: fuse_Read_def Dav_NewFS_def davfile_Read_def client_file_Read_def Let_def split: prod.splits)

end

text \<open>C33: A file of the WebDAV file system that is read through FUSE from its start, each request where the one
  before ended, gives exactly the bytes the server has stored, for every size of the buffer. But the offset
  of a request is not what decides: once the file has been read, any request, wherever it points to, gets the
  next bytes of the stream.\<close>

theorem Fuse_Dav_reads:
  assumes "dav_server c ep base kind" "dav_download c ep base stored content"
    and "list_all name_ok cs" "kind s cs = Some (Resource (int (length d)))" "stored s cs = Some d"
    and "dest \<noteq> []"
  shows "\<exists>f. node_Open env (node_at (Dav_NewFS c) cs) 0 s = (Inr f, s)
    \<and> fuse_cat (Suc (length d)) (Dav_NewFS c) f dest 0 s = Some d
    \<and> (\<exists>p f1 s1. fuse_Read (Dav_NewFS c) f dest 0 s = (ReadData p, f1, s1) \<and> prefix p d
        \<and> (\<forall>off. \<exists>q f2 s2. fuse_Read (Dav_NewFS c) f1 dest off s1 = (ReadData q, f2, s2) \<and> prefix q (drop (length p) d)))"
proof -
  note dl = assms(2)
  obtain h cf where f: "dav_OpenFile c (abs_path cs) O_RDONLY ModePerm s = (Inr h, s)" "df_file h = Some cf"
    "cf_name cf = abs_path cs" "\<not> cf_seeked cf" "cf_body cf = None"
    using OpenFile_resource [of c ep base kind cs s "int (length d)" ModePerm, OF assms(1,3,4)] by blast
  obtain b s1 where b: "doRequest c (abs_path cs) (-1) 0 s = (Inr b, s1)" "content b = d"
    using dav_download.request_all [OF dl assms(3,5)] by blast
  let ?h = "h\<lparr>df_file := Some (cf\<lparr>cf_body := Some b\<rparr>)\<rparr>"
  have first: "fuse_Read (Dav_NewFS c) \<lparr>ff_f = h\<rparr> dest 0 s = fuse_Read (Dav_NewFS c) \<lparr>ff_f = ?h\<rparr> dest 0 s1"
    using dav_download.fuse_Read_first [OF dl, of h cf s b s1 dest] f b by simp
  have opened: "node_Open env (node_at (Dav_NewFS c) cs) 0 s = (Inr \<lparr>ff_f = h\<rparr>, s)"
    using f(1) assms(3) by (simp add: node_Open_def Dav_NewFS_def O_RDONLY_def)
  have "fuse_cat (Suc (length d)) (Dav_NewFS c) \<lparr>ff_f = ?h\<rparr> dest 0 s1 = Some d"
    using dav_download.fuse_cat_body [OF dl, of ?h _ b dest "Suc (length d)" 0 s1] b(2) assms(6) by simp
  then have cat: "fuse_cat (Suc (length d)) (Dav_NewFS c) \<lparr>ff_f = h\<rparr> dest 0 s = Some d"
    using first by simp
  have h: "df_file ?h = Some (cf\<lparr>cf_body := Some b\<rparr>)" "cf_body (cf\<lparr>cf_body := Some b\<rparr>) = Some b" by simp_all
  obtain p cf' b' s2 where r: "fuse_Read (Dav_NewFS c) \<lparr>ff_f = ?h\<rparr> dest 0 s1 = (ReadData p, \<lparr>ff_f = ?h\<lparr>df_file := Some cf'\<rparr>\<rparr>, s2)"
    "cf_body cf' = Some b'" "content b = p @ content b'" "dest \<noteq> [] \<and> content b \<noteq> [] \<longrightarrow> p \<noteq> []"
    by (rule dav_download.fuse_Read_next [OF dl h, of dest 0 s1])
  have "\<exists>q f2 s3. fuse_Read (Dav_NewFS c) \<lparr>ff_f = ?h\<lparr>df_file := Some cf'\<rparr>\<rparr> dest off s2 = (ReadData q, f2, s3) \<and> prefix q (drop (length p) d)" for off
    by (rule dav_download.fuse_Read_next [OF dl, of "?h\<lparr>df_file := Some cf'\<rparr>" cf' b' dest off s2])
      (use r b(2) in \<open>auto simp: prefix_def\<close>)
  moreover have "prefix p d" using r(3) b(2) by (auto simp: prefix_def)
  ultimately show ?thesis using opened cat first r(1) by metis
qed

theorem Fuse_Dav_reads_witness:
  "\<exists>f. node_Open sample_env (node_at (Dav_NewFS dav_ref) [''a'']) 0 [([''a''], Some ''xyz'')] = (Inr f, [([''a''], Some ''xyz'')])
    \<and> fuse_cat 4 (Dav_NewFS dav_ref) f ''--'' 0 [([''a''], Some ''xyz'')] = Some ''xyz''"
proof -
  have abc: "ref_kind [([''a''], Some ''xyz'')] [''a''] = Some (Resource (int (length ''xyz'')))"
    "ref_stored [([''a''], Some ''xyz'')] [''a''] = Some ''xyz''" "list_all name_ok [''a'']"
    by (simp_all add: ref_kind_def ref_stored_def)
  show ?thesis
    using Fuse_Dav_reads [of dav_ref ref_endpoint ref_base ref_kind ref_stored body_content "[''a'']" "[([''a''], Some ''xyz'')]"
        "''xyz''" "''--''" sample_env, OF dref.dav_server_axioms dref.dav_download_axioms abc(3,1,2)]
    by (auto simp: numeral_eq_Suc simp del: fuse_cat.simps)
qed

section \<open>Writing over S3\<close>

text \<open>C34: A file created through FUSE over S3 and written by any requests holds, when the kernel lets it go, the bytes
  of the requests in the order in which they arrived: their offsets play no part. Requests that come in the
  order of the file store what they say; a request for an earlier place is appended.\<close>

theorem Fuse_S3_writes:
  assumes "s3_reliable F objs ps legal" "list_all name_ok (cs @ [x])" "cs = [] \<or> s3_exists (objs s) (key_of ps cs)"
    and "legal (key_of ps (cs @ [x]))" "s3_presignForWrite F = None" "concat (map snd reqs) \<noteq> []"
  shows "\<exists>a f f' s1 f'' s'. node_Create env (node_at (s3_filesystem fuel F meta) cs) x 0x242 mode out s = (Inr (a, f), s)
    \<and> fuse_writes env (s3_filesystem fuel F meta) f reqs s = (True, f', s1)
    \<and> fuse_Release env (s3_filesystem fuel F meta) f' s1 = (None, f'', s')
    \<and> objs s' = (objs s)(key_of ps (cs @ [x]) \<mapsto> concat (map snd reqs))"
proof -
  let ?fs = "s3_filesystem fuel F meta"
  let ?n = "abs_path (cs @ [x])" and ?flag = "(O_RDWR OR O_CREATE OR O_TRUNC) OR O_WRONLY"
  let ?f = "new_file ?n ?flag meta True" and ?chunks = "filter (\<lambda>d. d \<noteq> []) (map snd reqs)"
  have mounted: "s3_mounted F objs ps" using assms(1) by (simp add: s3_reliable_def)
  have at: "at_prefix F ps" using mounted by (simp add: s3_mounted_def s3_mounted_axioms_def)
  have path: "s3_path F ?n = key_of ps (cs @ [x])" using s3_path_abs [OF at assms(2)] .
  have names: "list_all name_ok cs" "list_all name_ok [x]" using assms(2) by simp_all
  have flags: "uint (0x242 :: 32 word) = O_RDWR OR O_CREATE OR O_TRUNC" by (simp add: open_flags)
  have "s3_OpenFile F meta ?n (O_RDWR OR O_CREATE OR O_TRUNC) mode s = (Inr ?f, s)"
    using assms(2,3,5) s3_mounted.check_parent_abs [OF mounted assms(2), of ?n s]
    by (simp add: s3_OpenFile_def s3_openFileForWrite_def Let_def)
  then obtain a where "node_Create env (node_at ?fs cs) x 0x242 mode out s = (Inr (a, \<lparr>ff_f = ?f\<rparr>), s)"
    unfolding node_Create_def flags using names by (simp add: Let_def)
  moreover have ne: "?chunks \<noteq> []" using assms(6) by (auto simp: filter_empty_conv concat_eq_Nil_conv)
  then obtain f' s1 f'' s' where w: "write_chunks F ?f ?chunks s = (True, f', s1)" "s3file_Close F f' s1 = (None, f'', s')"
    "objs s' = (objs s)(s3_path F ?n \<mapsto> concat ?chunks)"
    using s3_reliable.upload_chunks [OF assms(1), of ?f ?chunks s] assms(4) path by (auto simp: new_file_def)
  have "fuse_writes env ?fs \<lparr>ff_f = ?f\<rparr> reqs s = (True, \<lparr>ff_f = f'\<rparr>, s1)"
    using fuse_writes_all [of ?fs "\<lparr>ff_f = ?f\<rparr>" reqs s f' s1 env] w(1) by (simp add: write_all_chunks)
  moreover have "fuse_Release env ?fs \<lparr>ff_f = f'\<rparr> s1 = (None, \<lparr>ff_f = f''\<rparr>, s')"
    using w(2) by (simp add: fuse_Release_def)
  moreover have "concat ?chunks = concat (map snd reqs)" by (induction reqs) auto
  ultimately show ?thesis using w(3) path by metis
qed

theorem Fuse_S3_writes_witness:
  "\<exists>a f f' s1 f'' s'. node_Create sample_env (node_at (s3_filesystem 0 good_fs (\<lambda>_. [])) []) ''a'' 0x242 0 no_attr ([], ()) = (Inr (a, f), ([], ()))
    \<and> fuse_writes sample_env (s3_filesystem 0 good_fs (\<lambda>_. [])) f [(2, ''xy''), (0, ''z'')] ([], ()) = (True, f', s1)
    \<and> fuse_Release sample_env (s3_filesystem 0 good_fs (\<lambda>_. [])) f' s1 = (None, f'', s') \<and> ref_objs s' = [''a'' \<mapsto> ''xyz'']"
proof -
  have "ref_objs ([], ()) = Map.empty" by (simp add: ref_objs_def)
  then show ?thesis
    using Fuse_S3_writes [OF ref_good.s3_reliable_axioms, of "[]" "''a''" "([], ())" "[(2, ''xy''), (0, ''z'')]" sample_env 0 "\<lambda>_. []" 0 no_attr]
    by (simp add: abs_paths ref_legal_def del: split_paired_Ex fuse_writes.simps)
qed

section \<open>Directories\<close>

text \<open>A directory that \<open>Mkdir\<close> made through FUSE is one: its attributes and the mode of its inode say so, and a
  look-up right after it answers the same, without changing anything.\<close>

theorem Fuse_Mkdir_found:
  assumes "dir_maker fsys good" "good (cs @ [x])" "node_Mkdir env (node_at fsys cs) x mode out s = (Inr (attr, ino), s')"
  shows "at_mode attr = S_IFDIR \<and> ino = S_IFDIR \<and> node_Lookup env (node_at fsys cs) x out s' = (Inr (attr, ino), s')"
proof -
  have ok: "list_all name_ok (cs @ [x])" by (rule dir_maker.good_names [OF assms(1,2)])
  let ?p = "abs_path (cs @ [x])"
  obtain r s1 where mk: "fs_mkdir fsys ?p mode s = (r, s1)" by fastforce
  obtain fi where st: "fs_stat fsys ?p s1 = (fi, s1)" by (metis dir_maker.stat_pure [OF assms(1)] prod.collapse)
  have r: "r = None" using assms(3) ok mk by (cases r) (simp_all add: node_Mkdir_def Let_def)
  have "is_dir_at fsys s1 ?p"
    using dir_maker.mkdir_makes [OF assms(1,2)] mk r by simp
  then obtain info where info: "fi = Inr info" "fi_is_dir info"
    using st by (auto simp: is_dir_at_def split: sum.splits)
  then show ?thesis
    using assms(3) ok mk r st by (auto simp: node_Mkdir_def node_Lookup_def setAttrFromFileInfo_def Let_def)
qed

theorem Fuse_Mkdir_found_witness:
  "\<exists>s' attr. node_Mkdir sample_env (node_at (s3_filesystem 1 good_fs (\<lambda>_. [])) []) ''d'' 0 no_attr ([], ()) = (Inr (attr, S_IFDIR), s')
    \<and> node_Lookup sample_env (node_at (s3_filesystem 1 good_fs (\<lambda>_. [])) []) ''d'' no_attr s' = (Inr (attr, S_IFDIR), s')"
proof -
  let ?n = "node_at (s3_filesystem 1 good_fs (\<lambda>_. [])) []" and ?a = "no_attr\<lparr>at_mode := S_IFDIR\<rparr>"
  have run: "node_Mkdir sample_env ?n ''d'' 0 no_attr ([], ()) = (Inr (?a, S_IFDIR), ([(''d/.fs_dir'', [])], ()))" by code_simp
  have "node_Lookup sample_env ?n ''d'' no_attr ([(''d/.fs_dir'', [])], ()) = (Inr (?a, S_IFDIR), ([(''d/.fs_dir'', [])], ()))"
    using Fuse_Mkdir_found [OF s3_dir_maker [OF good_mounted] _ run] by (simp add: dirHolder_def)
  then show ?thesis using run by blast
qed

text \<open>C35: Removing a directory through FUSE does not ask whether it is empty. Over S3, \<open>Rmdir\<close> of a directory with whatever
  files and directories below it succeeds as soon as the service answers the removals, and takes away every key below the
  directory, at any depth, and no other. (The key of the path itself goes when the file system is mounted below
  the root of the bucket.)\<close>

theorem Fuse_S3_Rmdir_removes:
  assumes "s3_mounted F objs ps" "list_all name_ok (cs @ [x])" "removable (objs s) ps (cs @ [x]) n"
    and "\<forall>k t. has_prefix k (key_of ps (cs @ [x])) \<longrightarrow> fst (RemoveObject (s3Client F) (s3_bucket F) k True t) = None"
  shows "\<exists>s'. node_Rmdir env (node_at (s3_filesystem (Suc n) F meta) cs) x s = (None, s')
    \<and> objs s' = (\<lambda>k. if has_prefix k (key_of ps (cs @ [x]) @ ''/'') \<or> k = key_of ps (cs @ [x]) \<and> ps \<noteq> [] then None else objs s k)"
proof -
  let ?fs = "s3_filesystem (Suc n) F meta" and ?p = "abs_path (cs @ [x])"
  obtain r s' where run: "s3_RemoveAll (Suc n) F ?p s = Some (r, s')"
    and frame: "\<forall>k. \<not> has_prefix k (key_of ps (cs @ [x]) @ ''/'') \<and> (k = key_of ps (cs @ [x]) \<longrightarrow> ps = []) \<longrightarrow> objs s' k = objs s k"
    and gone: "\<forall>k. has_prefix k (key_of ps (cs @ [x]) @ ''/'') \<or> k = key_of ps (cs @ [x]) \<and> ps \<noteq> [] \<longrightarrow> objs s' k = None"
    and "r = None"
    using s3_RemoveAll_frame [OF assms(1,2) _ assms(3)] assms(4) by blast
  then have "fs_remove_all ?fs ?p s = (None, s')" by (simp add: s3_filesystem_def within_fuel_def)
  moreover have "node_path (node_at ?fs cs) [x] = ?p" using assms(2) by simp
  ultimately have "node_Rmdir env (node_at ?fs cs) x s = (None, s')" by (simp add: node_Rmdir_def)
  moreover have "objs s' = (\<lambda>k. if has_prefix k (key_of ps (cs @ [x]) @ ''/'') \<or> k = key_of ps (cs @ [x]) \<and> ps \<noteq> [] then None else objs s k)"
    using frame gone by (intro ext) simp
  ultimately show ?thesis by blast
qed

theorem Fuse_S3_Rmdir_removes_witness:
  "\<exists>s'. node_Rmdir sample_env (node_at (s3_filesystem 3 good_fs (\<lambda>_. [])) []) ''a'' ([(''a/b'', ''x''), (''a/c/d'', ''y''), (''ab'', ''z'')], ())
      = (None, s') \<and> ref_objs s' ''a/b'' = None \<and> ref_objs s' ''a/c/d'' = None \<and> ref_objs s' ''ab'' = Some ''z''"
proof -
  let ?s = "([(''a/b'', ''x''), (''a/c/d'', ''y''), (''ab'', ''z'')], ())"
  have rem: "removable (ref_objs ?s) [] ([] @ [''a'']) 2"
    unfolding removable_def
    by (auto simp: ref_objs_def dir_key_def key_of_def name_ok_def good_elem_def dirHolder_def has_suffix_def
        intro: exI [of _ "[''b'']"] exI [of _ "[''c'', ''d'']"] split: if_splits)
  have ok: "list_all name_ok ([] @ [''a''])" by simp
  have del: "\<forall>k t. has_prefix k (key_of [] ([] @ [''a''])) \<longrightarrow>
      fst (RemoveObject (s3Client good_fs) (s3_bucket good_fs) k True (t :: unit store)) = None"
    by (auto simp: ref_client_def abs_paths has_prefix_iff)
  from Fuse_S3_Rmdir_removes [OF good_mounted, OF ok rem del, of sample_env "\<lambda>_. []"]
  show ?thesis
  proof (elim exE conjE, goal_cases)
    case (1 s')
    then have "node_Rmdir sample_env (node_at (s3_filesystem 3 good_fs (\<lambda>_. [])) []) ''a'' ?s = (None, s')"
      by (simp add: numeral_3_eq_3 numeral_2_eq_2)
    moreover have "ref_objs s' ''a/b'' = None" "ref_objs s' ''a/c/d'' = None" "ref_objs s' ''ab'' = Some ''z''"
      unfolding 1(2) by (simp_all add: ref_facts has_prefix_def)
    ultimately show ?case by blast
  qed
qed

end
