(* ===== verification/Tar.thy ===== *)
theory Tar
  imports Filesystem
begin

unbundle bit_operations_syntax

text \<open>
  Exporting a file system as an archive and importing one (\<open>pkg/tar\<close>), over any file system of the
  interface, with what the code uses of \<open>archive/tar\<close> and of \<open>io\<close>.

  An archive is the list of its entries: the encoding of headers in blocks is not modelled. Below the
  writer of an archive is an \<open>io.Writer\<close>, a parameter that says whether it takes what has been
  written so far; below its reader is an \<open>io.Reader\<close>, which delivers the data of an entry in pieces
  and ends with an error. A copy takes fuel, as its reader may answer nothing for ever:
  \<^const>\<open>Blocks\<close> stands for a copy that does not return.
\<close>

section \<open>Copying\<close>

definition ErrShortWrite :: go_error where "ErrShortWrite = ErrorString ''short write''"
definition errInvalidWrite :: go_error where "errInvalidWrite = ErrorString ''invalid write result''"

text \<open>\<open>io.Copy\<close> from a limited reader: the limit, and what was written.\<close>

fun copy_loop ::
  "nat \<Rightarrow> (nat \<Rightarrow> 'x \<Rightarrow> (int \<times> bytes \<times> go_error option) \<times> 'x) \<Rightarrow> (bytes \<Rightarrow> 'x \<Rightarrow> (int \<times> go_error option) \<times> 'x)
     \<Rightarrow> nat \<Rightarrow> int \<Rightarrow> int \<Rightarrow> 'x \<Rightarrow> (int \<times> go_error option) \<times> 'x" where
  "copy_loop 0 rd wr buf limit written x = ((written, Some Blocks), x)"
| "copy_loop (Suc m) rd wr buf limit written x =
     (if limit \<le> 0 then ((written, None), x)
      else
        (case rd (min (nat limit) buf) x of
           ((nr, data, er), x1) \<Rightarrow>
             (case (if 0 < nr
                    then (case wr (take (nat nr) data) x1 of
                            ((nw, ew), x2) \<Rightarrow>
                              (let (nw', ew') = (if nw < 0 \<or> nr < nw then (0, if ew = None then Some errInvalidWrite else ew) else (nw, ew)) in
                               ((written + nw', if ew' \<noteq> None then ew' else if nr \<noteq> nw' then Some ErrShortWrite else None), x2)))
                    else ((written, None), x1)) of
                ((written', Some e), x2) \<Rightarrow> ((written', Some e), x2)
              | ((written', None), x2) \<Rightarrow>
                  (case er of
                     Some e \<Rightarrow> ((written', if e = EOF then None else Some e), x2)
                   | None \<Rightarrow> copy_loop m rd wr buf (limit - nr) written' x2))))"

definition CopyN ::
  "nat \<Rightarrow> (nat \<Rightarrow> 'x \<Rightarrow> (int \<times> bytes \<times> go_error option) \<times> 'x) \<Rightarrow> (bytes \<Rightarrow> 'x \<Rightarrow> (int \<times> go_error option) \<times> 'x)
     \<Rightarrow> int \<Rightarrow> 'x \<Rightarrow> go_error option \<times> 'x" where
  "CopyN fuel rd wr n x =
     (case copy_loop fuel rd wr (if 32768 \<le> n then 32768 else if n < 1 then 1 else nat n) n 0 x of
        ((written, err), x1) \<Rightarrow>
          (if written = n then None else if written < n \<and> err = None then Some EOF else err, x1))"

section \<open>Writing an archive\<close>

text \<open>The types of entries: regular files, directories, and links, devices and pipes.\<close>

datatype tar_type = TypeReg | TypeDir | TypeSpecial

record tar_header =
  th_name :: string
  th_size :: int
  th_mode :: int
  th_type :: tar_type

type_synonym tar_entry = "tar_header \<times> bytes"

record tar_writer =
  tw_entries :: "tar_entry list"
  tw_left :: int
  tw_err :: "go_error option"
  tw_trailer :: bool
  tw_takes :: "tar_entry list \<Rightarrow> go_error option"

definition tar_NewWriter :: "(tar_entry list \<Rightarrow> go_error option) \<Rightarrow> tar_writer" where
  "tar_NewWriter w = \<lparr>tw_entries = [], tw_left = 0, tw_err = None, tw_trailer = False, tw_takes = w\<rparr>"

definition tar_Flush :: "tar_writer \<Rightarrow> go_error option" where
  "tar_Flush tw =
     (case tw_err tw of
        Some e \<Rightarrow> Some e
      | None \<Rightarrow> if 0 < tw_left tw then Some (ErrorString ''archive/tar: missed writing bytes'') else None)"

text \<open>A header is refused, without harm to the writer, when it has no encoding: a name with a zero byte, or a
  negative size.\<close>

definition tar_WriteHeader :: "tar_header \<Rightarrow> tar_writer \<Rightarrow> go_error option \<times> tar_writer" where
  "tar_WriteHeader h tw =
     (case tar_Flush tw of
        Some e \<Rightarrow> (Some e, tw)
      | None \<Rightarrow>
          if CHR 0x00 \<in> set (th_name h) \<or> th_size h < 0
          then (Some (ErrorString ''archive/tar: cannot encode header''), tw)
          else
            (let es = tw_entries tw @ [(h, [])] in
             case tw_takes tw es of
               Some e \<Rightarrow> (Some e, tw\<lparr>tw_err := Some e\<rparr>)
             | None \<Rightarrow> (None, tw\<lparr>tw_entries := es, tw_left := th_size h\<rparr>)))"

definition tar_append :: "tar_entry list \<Rightarrow> bytes \<Rightarrow> tar_entry list" where
  "tar_append es b = (if es = [] then [] else butlast es @ [(fst (last es), snd (last es) @ b)])"

definition tar_Write :: "bytes \<Rightarrow> tar_writer \<Rightarrow> (int \<times> go_error option) \<times> tar_writer" where
  "tar_Write b tw =
     (case tw_err tw of
        Some e \<Rightarrow> ((0, Some e), tw)
      | None \<Rightarrow>
          (let b' = take (nat (tw_left tw)) b; es = tar_append (tw_entries tw) b' in
           case (if b' = [] then None else tw_takes tw es) of
             Some e \<Rightarrow> ((0, Some e), tw\<lparr>tw_err := Some e\<rparr>)
           | None \<Rightarrow>
               ((int (length b'), if tw_left tw < int (length b) then Some (ErrorString ''archive/tar: write too long'') else None),
                tw\<lparr>tw_entries := es, tw_left := tw_left tw - int (length b')\<rparr>)))"

text \<open>\<open>Close\<close> writes the two blocks at the end, unless an entry is not complete.\<close>

definition tar_Close :: "tar_writer \<Rightarrow> go_error option \<times> tar_writer" where
  "tar_Close tw =
     (case tar_Flush tw of
        Some e \<Rightarrow> (Some e, tw\<lparr>tw_err := Some (ErrorString ''archive/tar: write after close'')\<rparr>)
      | None \<Rightarrow>
          (case tw_takes tw (tw_entries tw) of
             Some e \<Rightarrow> (Some e, tw\<lparr>tw_err := Some (ErrorString ''archive/tar: write after close'')\<rparr>)
           | None \<Rightarrow> (None, tw\<lparr>tw_trailer := True, tw_err := Some (ErrorString ''archive/tar: write after close'')\<rparr>)))"

section \<open>The exporter\<close>

record ('h, 's) tar_exporter =
  tx_fsys :: "('h, 's) filesystem"
  tx_base :: string

type_synonym ('h, 's) export_option = "('h, 's) tar_exporter \<Rightarrow> ('h, 's) tar_exporter"

definition WithBase :: "string \<Rightarrow> ('h, 's) export_option" where
  "WithBase base t = t\<lparr>tx_base := base\<rparr>"

definition WithImport :: "string \<Rightarrow> ('h, 's) export_option" where
  "WithImport base t = t\<lparr>tx_base := base\<rparr>"

definition exporter_Build :: "('h, 's) tar_exporter \<Rightarrow> ('h, 's) export_option list \<Rightarrow> ('h, 's) tar_exporter" where
  "exporter_Build t optFns = fold (\<lambda>x t. x t) optFns t"

definition tar_From :: "('h, 's) filesystem \<Rightarrow> ('h, 's) export_option list \<Rightarrow> ('h, 's) tar_exporter" where
  "tar_From fsys opts = exporter_Build \<lparr>tx_fsys = fsys, tx_base = []\<rparr> opts"

text \<open>The walk runs over the file system with the writer of the archive beside its state.\<close>

definition aside :: "('s \<Rightarrow> 'r \<times> 's) \<Rightarrow> 's \<times> 'w \<Rightarrow> 'r \<times> 's \<times> 'w" where
  "aside op = (\<lambda>(s, w). case op s of (r, s') \<Rightarrow> (r, s', w))"

definition aside2 :: "('s \<Rightarrow> 'r \<times> 'h \<times> 's) \<Rightarrow> 's \<times> 'w \<Rightarrow> 'r \<times> 'h \<times> 's \<times> 'w" where
  "aside2 op = (\<lambda>(s, w). case op s of (r, h, s') \<Rightarrow> (r, h, s', w))"

definition with_writer :: "('h, 's) filesystem \<Rightarrow> ('h, 's \<times> 'w) filesystem" where
  "with_writer fsys =
     \<lparr>fs_mkdir = (\<lambda>n m. aside (fs_mkdir fsys n m)), fs_open_file = (\<lambda>n fl m. aside (fs_open_file fsys n fl m)),
      fs_remove_all = (\<lambda>n. aside (fs_remove_all fsys n)), fs_rename = (\<lambda>o1 n. aside (fs_rename fsys o1 n)),
      fs_stat = (\<lambda>n. aside (fs_stat fsys n)),
      f_close = (\<lambda>h. aside2 (f_close fsys h)), f_read = (\<lambda>h n. aside2 (f_read fsys h n)),
      f_write = (\<lambda>h b. aside2 (f_write fsys h b)), f_seek = (\<lambda>h off wh. aside2 (f_seek fsys h off wh)),
      f_readdir = (\<lambda>h n. aside2 (f_readdir fsys h n)), f_stat = (\<lambda>h. aside2 (f_stat fsys h)),
      f_read_dir = map_option (\<lambda>op h n. aside2 (op h n)) (f_read_dir fsys)\<rparr>"

text \<open>\<open>writeToTar\<close>: the reader is an open file of the file system.\<close>

definition file_reader_of ::
  "('h, 's) filesystem \<Rightarrow> nat \<Rightarrow> 'h \<times> 's \<times> 'w \<Rightarrow> (int \<times> bytes \<times> go_error option) \<times> 'h \<times> 's \<times> 'w" where
  "file_reader_of fsys n = (\<lambda>(h, s, w). case f_read fsys h n s of (res, h', s') \<Rightarrow> (res, h', s', w))"

definition archive_writer ::
  "bytes \<Rightarrow> 'h \<times> 's \<times> tar_writer \<Rightarrow> (int \<times> go_error option) \<times> 'h \<times> 's \<times> tar_writer" where
  "archive_writer b = (\<lambda>(h, s, w). case tar_Write b w of (res, w') \<Rightarrow> (res, h, s, w'))"

definition writeToTar ::
  "nat \<Rightarrow> ('h, 's) filesystem \<Rightarrow> tar_header \<Rightarrow> 'h \<times> 's \<times> tar_writer \<Rightarrow> go_error option \<times> 'h \<times> 's \<times> tar_writer" where
  "writeToTar fuel fsys header = (\<lambda>(h, s, w).
     (let hdr = header\<lparr>th_mode := 0x1A4\<rparr> in
      case tar_WriteHeader hdr w of
        (Some err, w1) \<Rightarrow> (Some err, h, s, w1)
      | (None, w1) \<Rightarrow> CopyN fuel (file_reader_of fsys) archive_writer (th_size hdr) (h, s, w1)))"

text \<open>The callback. \<open>rel\<close> is \<open>path.Rel\<close> of the CUE library.\<close>

definition export_fn ::
  "nat \<Rightarrow> (string \<Rightarrow> string \<Rightarrow> go_error + string) \<Rightarrow> ('h, 's) filesystem \<Rightarrow> string \<Rightarrow> ('s \<times> tar_writer) walk_fn" where
  "export_fn fuel rel fsys base pathname d err sw =
     (if err \<noteq> None then (None, sw)
      else
        (case d of
           None \<Rightarrow> (Some Panics, sw)
         | Some e \<Rightarrow>
             if de_is_dir e then (None, sw)
             else
               (case rel base pathname of
                  Inl er \<Rightarrow> (Some er, sw)
                | Inr r \<Rightarrow>
                    (case de_info e of
                       Inl er \<Rightarrow> (Some er, sw)
                     | Inr info \<Rightarrow>
                         (case fs_open_file fsys pathname O_RDONLY ModePerm (fst sw) of
                            (Inl er, s1) \<Rightarrow> (Some er, s1, snd sw)
                          | (Inr f, s1) \<Rightarrow>
                              (case writeToTar fuel fsys \<lparr>th_name = r, th_size = fi_size info, th_mode = 0, th_type = TypeReg\<rparr>
                                      (f, s1, snd sw) of
                                 (res, f', s2, w2) \<Rightarrow> (case f_close fsys f' s2 of (_, _, s3) \<Rightarrow> (res, s3, w2))))))))"

text \<open>The deferred \<open>Close\<close> of the writer: its error is dropped.\<close>

definition ExportAsTar ::
  "nat \<Rightarrow> (string \<Rightarrow> string \<Rightarrow> go_error + string) \<Rightarrow> ('h, 's) tar_exporter \<Rightarrow> (tar_entry list \<Rightarrow> go_error option) \<Rightarrow> 's
     \<Rightarrow> (go_error option \<times> 's \<times> tar_writer) option" where
  "ExportAsTar fuel rel t w s =
     (let base = (if tx_base t = [] then ''.'' else tx_base t) in
      map_option (\<lambda>(res, s', tw). (res, s', snd (tar_Close tw)))
        (WalkDir fuel (with_writer (tx_fsys t)) base (export_fn fuel rel (tx_fsys t) base) (s, tar_NewWriter w)))"

section \<open>Reading an archive\<close>

text \<open>What is left of the archive: the pieces of the current entry with its size, the entries after it, and
  the error at the end.\<close>

record tar_reader =
  tr_pieces :: "bytes list"
  tr_left :: int
  tr_rest :: "(tar_header \<times> bytes list) list"
  tr_end :: go_error

definition tar_NewReader :: "(tar_header \<times> bytes list) list \<Rightarrow> go_error \<Rightarrow> tar_reader" where
  "tar_NewReader es e = \<lparr>tr_pieces = [], tr_left = 0, tr_rest = es, tr_end = e\<rparr>"

text \<open>\<open>Next\<close> skips what is left of the entry, and fails when the data ends before. Only a regular file has data.\<close>

definition tar_cut :: "tar_reader \<Rightarrow> go_error" where
  "tar_cut tr = (if tr_end tr = EOF then ErrUnexpectedEOF else tr_end tr)"

definition tar_Next :: "tar_reader \<Rightarrow> (go_error + tar_header) \<times> tar_reader" where
  "tar_Next tr =
     (if int (length (concat (tr_pieces tr))) < tr_left tr
      then (Inl (tar_cut tr), tr\<lparr>tr_pieces := [], tr_rest := [], tr_end := tar_cut tr\<rparr>)
      else
        (case tr_rest tr of
           [] \<Rightarrow> (Inl (tr_end tr), tr)
         | (h, ps) # es \<Rightarrow> (Inr h, tr\<lparr>tr_pieces := ps, tr_left := (if th_type h = TypeReg then th_size h else 0), tr_rest := es\<rparr>)))"

definition tar_Read :: "nat \<Rightarrow> tar_reader \<Rightarrow> (int \<times> bytes \<times> go_error option) \<times> tar_reader" where
  "tar_Read n tr =
     (let m = min n (nat (tr_left tr)) in
      if m = 0 then ((0, [], if tr_left tr \<le> 0 then Some EOF else None), tr)
      else
        (case tr_pieces tr of
           [] \<Rightarrow> ((0, [], Some (tar_cut tr)), tr)
         | p # ps \<Rightarrow>
             (let d = take m p; left = tr_left tr - int (length d) in
              ((int (length d), d, if left \<le> 0 then Some EOF else None),
               tr\<lparr>tr_pieces := (if drop m p = [] then ps else drop m p # ps), tr_left := left\<rparr>))))"

section \<open>The importer\<close>

record ('h, 's) tar_importer =
  ti_fsys :: "('h, 's) filesystem"
  ti_dest :: string

type_synonym ('h, 's) import_option = "('h, 's) tar_importer \<Rightarrow> ('h, 's) tar_importer"

definition WithDest :: "string \<Rightarrow> ('h, 's) import_option" where
  "WithDest dest t = t\<lparr>ti_dest := dest\<rparr>"

definition importer_Build :: "('h, 's) tar_importer \<Rightarrow> ('h, 's) import_option list \<Rightarrow> ('h, 's) tar_importer" where
  "importer_Build i opts = fold (\<lambda>x t. x t) opts i"

definition tar_To :: "('h, 's) filesystem \<Rightarrow> ('h, 's) import_option list \<Rightarrow> ('h, 's) tar_importer" where
  "tar_To fsys opts = importer_Build \<lparr>ti_fsys = fsys, ti_dest = []\<rparr> opts"

definition import_name :: "string \<Rightarrow> string \<Rightarrow> string" where
  "import_name base name = (if base \<noteq> [] then path_join [base, name] else name)"

definition archive_reader ::
  "nat \<Rightarrow> 'h \<times> 's \<times> tar_reader \<Rightarrow> (int \<times> bytes \<times> go_error option) \<times> 'h \<times> 's \<times> tar_reader" where
  "archive_reader n = (\<lambda>(h, s, tr). case tar_Read n tr of (res, tr') \<Rightarrow> (res, h, s, tr'))"

definition file_writer_of ::
  "('h, 's) filesystem \<Rightarrow> bytes \<Rightarrow> 'h \<times> 's \<times> 'w \<Rightarrow> (int \<times> go_error option) \<times> 'h \<times> 's \<times> 'w" where
  "file_writer_of fsys b = (\<lambda>(h, s, w). case f_write fsys h b s of (res, h', s') \<Rightarrow> (res, h', s', w))"

text \<open>The type of the entry is not looked at. The error of the deferred \<open>Close\<close> is dropped.\<close>

definition tar_writeFile ::
  "nat \<Rightarrow> ('h, 's) tar_importer \<Rightarrow> string \<Rightarrow> tar_header \<Rightarrow> 's \<times> tar_reader \<Rightarrow> go_error option \<times> 's \<times> tar_reader" where
  "tar_writeFile fuel i filename h = (\<lambda>(s, tr).
     (let dir = path_dir filename in
      case (if dir \<noteq> [] \<and> dir \<noteq> ''.'' then MkdirAll (ti_fsys i) dir s else (None, s)) of
        (Some err, s1) \<Rightarrow> (Some err, s1, tr)
      | (None, s1) \<Rightarrow>
          (case fs_open_file (ti_fsys i) filename (O_RDWR OR O_TRUNC OR O_CREATE) ModePerm s1 of
             (Inl err, s2) \<Rightarrow> (Some err, s2, tr)
           | (Inr f, s2) \<Rightarrow>
               (case CopyN fuel archive_reader (file_writer_of (ti_fsys i)) (th_size h) (f, s2, tr) of
                  (res, f', s3, tr') \<Rightarrow> (case f_close (ti_fsys i) f' s3 of (_, _, s4) \<Rightarrow> (res, s4, tr'))))))"

lemma tar_Next_shorter: "tar_Next tr = (Inr h, tr') \<Longrightarrow> length (tr_rest tr') < length (tr_rest tr)"
  by (auto simp: tar_Next_def split: if_splits list.splits)

text \<open>The loop over the entries; every round takes one entry of the archive.\<close>

fun import_entries :: "nat \<Rightarrow> ('h, 's) tar_importer \<Rightarrow> nat \<Rightarrow> 's \<times> tar_reader \<Rightarrow> go_error option \<times> 's \<times> tar_reader" where
  "import_entries fuel i 0 (s, tr) = (Some Blocks, s, tr)"
| "import_entries fuel i (Suc n) (s, tr) =
     (case tar_Next tr of
        (Inl err, tr1) \<Rightarrow> (if err = EOF then None else Some err, s, tr1)
      | (Inr hdr, tr1) \<Rightarrow>
          (case tar_writeFile fuel i (import_name (ti_dest i) (th_name hdr)) hdr (s, tr1) of
             (Some err, s2, tr2) \<Rightarrow> (Some err, s2, tr2)
           | (None, s2, tr2) \<Rightarrow> import_entries fuel i n (s2, tr2)))"

definition ImportFrom ::
  "nat \<Rightarrow> ('h, 's) tar_importer \<Rightarrow> (tar_header \<times> bytes list) list \<Rightarrow> go_error \<Rightarrow> 's \<Rightarrow> go_error option \<times> 's" where
  "ImportFrom fuel i es e s =
     (case (if ti_dest i \<noteq> [] then MkdirAll (ti_fsys i) (ti_dest i) s else (None, s)) of
        (Some err, s1) \<Rightarrow> (Some err, s1)
      | (None, s1) \<Rightarrow>
          (case import_entries fuel i (Suc (length es)) (s1, tar_NewReader es e) of (r, s2, _) \<Rightarrow> (r, s2)))"

end
