(* ===== verification/Tar_Props.thy ===== *)
theory Tar_Props
  imports Tar Dav_Props
begin

text \<open>
  What exporting and importing an archive do: the laws of a copy and of a file system whose files can be
  read, as locales; the archive of a tree, computed inside them; and the interpretation on the WebDAV file
  system.
\<close>

section \<open>Copying\<close>

text \<open>
  A copy between a reader and a writer that do not fail: with \<open>l\<close> left to read and \<open>d\<close> written, a read and
  a write move a piece from the one to the other.
\<close>

locale copying =
  fixes rd :: "nat \<Rightarrow> 'x \<Rightarrow> (int \<times> bytes \<times> go_error option) \<times> 'x"
    and wr :: "bytes \<Rightarrow> 'x \<Rightarrow> (int \<times> go_error option) \<times> 'x"
    and inv :: "'x \<Rightarrow> bytes \<Rightarrow> bytes \<Rightarrow> bool"
  assumes step: "inv x l d \<Longrightarrow> l \<noteq> [] \<Longrightarrow> 0 < n \<Longrightarrow> \<exists>p e l' x1 x2. rd n x = ((int (length p), p, e), x1)
      \<and> wr p x1 = ((int (length p), None), x2) \<and> l = p @ l' \<and> p \<noteq> [] \<and> (e = None \<or> e = Some EOF \<and> l' = []) \<and> inv x2 l' (d @ p)"
begin

lemma copy_all:
  assumes "inv x l d" "length l < fuel" "0 < buf"
  shows "\<exists>x'. copy_loop fuel rd wr buf (int (length l)) written x = ((written + int (length l), None), x') \<and> inv x' [] (d @ l)"
  using assms(1,2)
proof (induction fuel arbitrary: x l d written)
  case (Suc fuel)
  show ?case
  proof (cases "l = []")
    case True
    then show ?thesis using Suc.prems(1) by simp
  next
    case False
    then have pos: "0 < min (length l) buf" using assms(3) by simp
    obtain p e l' x1 x2 where s: "rd (min (length l) buf) x = ((int (length p), p, e), x1)"
      "wr p x1 = ((int (length p), None), x2)" "l = p @ l'" "p \<noteq> []" "e = None \<or> e = Some EOF \<and> l' = []" "inv x2 l' (d @ p)"
      using step [OF Suc.prems(1) False pos] by (elim exE conjE)
    have one: "copy_loop (Suc fuel) rd wr buf (int (length l)) written x =
        (case e of Some e \<Rightarrow> ((written + int (length p), if e = EOF then None else Some e), x2)
         | None \<Rightarrow> copy_loop fuel rd wr buf (int (length l')) (written + int (length p)) x2)"
    proof -
      have "int (length l) - int (length p) = int (length l')" using s(3) by simp
      then show ?thesis using s(1,2,4) False by (simp add: Let_def split: option.split)
    qed
    have "length l' < fuel" using Suc.prems(2) s(3,4) by (cases p) auto
    then obtain x' where rest: "copy_loop fuel rd wr buf (int (length l')) (written + int (length p)) x2
        = ((written + int (length p) + int (length l'), None), x')" "inv x' [] ((d @ p) @ l')"
      using Suc.IH [OF s(6)] by blast
    show ?thesis
    proof (cases e)
      case None
      then show ?thesis using one rest by (simp add: s(3) algebra_simps del: copy_loop.simps)
    next
      case (Some e')
      then have "e = Some EOF" "l' = []" using s(5) by auto
      then show ?thesis using one s(3,6) by (simp del: copy_loop.simps)
    qed
  qed
qed simp

lemma CopyN_all:
  assumes "inv x l []" "length l < fuel"
  shows "\<exists>x'. CopyN fuel rd wr (int (length l)) x = (None, x') \<and> inv x' [] l"
  using copy_all [OF assms, of "if 32768 \<le> int (length l) then 32768 else if int (length l) < 1 then 1 else nat (int (length l))" 0]
  by (auto simp: CopyN_def)

end

text \<open>What every read and every write keeps, a copy keeps, also when it fails.\<close>

lemma copy_loop_keeps:
  assumes "\<And>n x r x'. P x \<Longrightarrow> rd n x = (r, x') \<Longrightarrow> P x'" "\<And>b x r x'. P x \<Longrightarrow> wr b x = (r, x') \<Longrightarrow> P x'"
  shows "P x \<Longrightarrow> P (snd (copy_loop fuel rd wr buf limit written x))"
proof (induction fuel arbitrary: x limit written)
  case (Suc fuel)
  obtain nr data er x1 where r: "rd (min (nat limit) buf) x = ((nr, data, er), x1)" by (metis surj_pair)
  have x1: "P x1" by (rule assms(1) [OF Suc.prems r])
  obtain nw ew x2 where w: "wr (take (nat nr) data) x1 = ((nw, ew), x2)" by (metis surj_pair)
  have x2: "P x2" by (rule assms(2) [OF x1 w])
  show ?case
    using Suc.IH Suc.prems r w x1 x2 by (auto simp: Let_def split: option.splits)
qed simp

lemma CopyN_keeps:
  assumes "\<And>n x r x'. P x \<Longrightarrow> rd n x = (r, x') \<Longrightarrow> P x'" "\<And>b x r x'. P x \<Longrightarrow> wr b x = (r, x') \<Longrightarrow> P x'"
    and "P x" "CopyN fuel rd wr n x = (r, x')"
  shows "P x'"
  using copy_loop_keeps [of P rd wr x fuel "if 32768 \<le> n then 32768 else if n < 1 then 1 else nat n" n 0, OF assms(1-3)] assms(4)
  by (auto simp: CopyN_def split: prod.splits)

section \<open>Exporting\<close>

text \<open>A file system whose files can be read, as long as \<open>I\<close> holds of the state: \<open>content\<close> says what is
  in them, and \<open>left\<close> what an open file has still to deliver.\<close>

locale file_reader =
  fixes fsys :: "('h, 's) filesystem"
    and I :: "'s \<Rightarrow> bool"
    and content :: "string \<Rightarrow> bytes option"
    and left :: "'h \<Rightarrow> 's \<Rightarrow> bytes \<Rightarrow> bool"
  assumes open_left: "I s \<Longrightarrow> content p = Some d \<Longrightarrow> \<exists>h s'. fs_open_file fsys p O_RDONLY m s = (Inr h, s') \<and> I s' \<and> left h s' d"
    and read_left: "I s \<Longrightarrow> left h s l \<Longrightarrow> \<exists>p e l' h' s'. f_read fsys h n s = ((int (length p), p, e), h', s') \<and> l = p @ l'
      \<and> (0 < n \<and> l \<noteq> [] \<longrightarrow> p \<noteq> []) \<and> (e = None \<or> e = Some EOF \<and> l' = []) \<and> I s' \<and> left h' s' l'"
    and close_keeps: "I s \<Longrightarrow> left h s l \<Longrightarrow> f_close fsys h s = (r, h', s') \<Longrightarrow> I s'"

text \<open>A writer that takes everything, in the middle of an entry.\<close>

definition writes_entry :: "tar_entry list \<Rightarrow> tar_header \<Rightarrow> bytes \<Rightarrow> bytes \<Rightarrow> tar_writer" where
  "writes_entry es hdr l d =
     \<lparr>tw_entries = es @ [(hdr, d)], tw_left = int (length l), tw_err = None, tw_trailer = False, tw_takes = (\<lambda>_. None)\<rparr>"

lemma tar_Write_entry:
  "p \<noteq> [] \<Longrightarrow> tar_Write p (writes_entry es hdr (p @ l) d) = ((int (length p), None), writes_entry es hdr l (d @ p))"
  by (simp add: tar_Write_def writes_entry_def tar_append_def Let_def)

sublocale file_reader \<subseteq> copying "file_reader_of fsys" archive_writer
  "\<lambda>(h, s, w) l d. I s \<and> left h s l \<and> w = writes_entry es hdr l d" for es hdr
proof (unfold_locales, goal_cases)
  case (1 x l d n)
  obtain h s w where x: "x = (h, s, w)" by (cases x) auto
  then have inv: "I s" "left h s l" "w = writes_entry es hdr l d" using 1 by simp_all
  obtain p e l' h' s' where r: "f_read fsys h n s = ((int (length p), p, e), h', s')"
    "l = p @ l'" "p \<noteq> []" "e = None \<or> e = Some EOF \<and> l' = []" "I s'" "left h' s' l'"
    using read_left [OF inv(1,2), of n] 1(2,3) by blast
  then show ?case
    using r inv(3) x tar_Write_entry [of p es hdr l' d]
    by (intro exI [of _ p] exI [of _ e] exI [of _ l'] exI [of _ "(h', s', w)"] exI [of _ "(h', s', writes_entry es hdr l' (d @ p))"])
      (simp add: file_reader_of_def archive_writer_def)
qed

definition idle_writer :: "tar_entry list \<Rightarrow> tar_writer" where
  "idle_writer es = \<lparr>tw_entries = es, tw_left = 0, tw_err = None, tw_trailer = False, tw_takes = (\<lambda>_. None)\<rparr>"

text \<open>The entry a file becomes: its name relative to the base, its content, and the mode 0644.\<close>

definition exported :: "string \<Rightarrow> bytes \<Rightarrow> tar_entry" where
  "exported r d = (\<lparr>th_name = r, th_size = int (length d), th_mode = 0x1A4, th_type = TypeReg\<rparr>, d)"

definition files_below :: "string \<Rightarrow> ftree \<Rightarrow> (string \<times> dir_entry) list" where
  "files_below name t = filter (\<lambda>(p, e). \<not> de_is_dir e) (preorder name t)"

definition entries_of :: "(string \<Rightarrow> string \<Rightarrow> go_error + string) \<Rightarrow> (string \<Rightarrow> bytes option) \<Rightarrow> string
    \<Rightarrow> (string \<times> dir_entry) list \<Rightarrow> tar_entry list" where
  "entries_of rel content base fs = map (\<lambda>(p, e). exported (projr (rel base p)) (the (content p))) fs"

text \<open>What the walk must find of a file, for the file to be exported.\<close>

definition exportable ::
  "nat \<Rightarrow> (string \<Rightarrow> string \<Rightarrow> go_error + string) \<Rightarrow> (string \<Rightarrow> bytes option) \<Rightarrow> string \<Rightarrow> string \<Rightarrow> dir_entry \<Rightarrow> bool" where
  "exportable fuel rel content base p e \<longleftrightarrow>
     (case (rel base p, de_info e, content p) of
        (Inr r, Inr info, Some d) \<Rightarrow> CHR 0x00 \<notin> set r \<and> fi_size info = int (length d) \<and> length d < fuel
      | _ \<Rightarrow> False)"

context file_reader begin

lemma writeToTar_entry:
  assumes "I s" "left h s d" "CHR 0x00 \<notin> set r" "length d < fuel"
  shows "\<exists>h' s'. writeToTar fuel fsys \<lparr>th_name = r, th_size = int (length d), th_mode = 0, th_type = TypeReg\<rparr> (h, s, idle_writer es)
      = (None, h', s', idle_writer (es @ [exported r d])) \<and> I s' \<and> left h' s' []"
proof -
  let ?hdr = "\<lparr>th_name = r, th_size = int (length d), th_mode = 0x1A4, th_type = TypeReg\<rparr>"
  have header: "tar_WriteHeader ?hdr (idle_writer es) = (None, writes_entry es ?hdr d [])"
    using assms(3) by (simp add: tar_WriteHeader_def tar_Flush_def idle_writer_def writes_entry_def Let_def)
  obtain x' where x: "CopyN fuel (file_reader_of fsys) archive_writer (int (length d)) (h, s, writes_entry es ?hdr d []) = (None, x')"
    "(\<lambda>(h, s, w) l d. I s \<and> left h s l \<and> w = writes_entry es ?hdr l d) x' [] d"
    using CopyN_all [of es ?hdr "(h, s, writes_entry es ?hdr d [])" d fuel] assms(1,2,4) by auto
  obtain h' s' w' where x': "x' = (h', s', w')" by (cases x') auto
  then have "I s' \<and> left h' s' []" "w' = idle_writer (es @ [exported r d])"
    using x(2) by (simp_all add: writes_entry_def idle_writer_def exported_def)
  then show ?thesis using header x(1) x' by (simp add: writeToTar_def Let_def)
qed

lemma export_file:
  assumes "I s" "exportable fuel rel content base p e" "\<not> de_is_dir e"
  shows "\<exists>s'. export_fn fuel rel fsys base p (Some e) None (s, idle_writer es)
      = (None, s', idle_writer (es @ entries_of rel content base [(p, e)])) \<and> I s'"
proof -
  obtain r info d where ok: "rel base p = Inr r" "de_info e = Inr info" "content p = Some d" "CHR 0x00 \<notin> set r"
    "fi_size info = int (length d)" "length d < fuel"
    using assms(2) by (auto simp: exportable_def split: sum.splits option.splits)
  obtain h s1 where o: "fs_open_file fsys p O_RDONLY ModePerm s = (Inr h, s1)" "I s1" "left h s1 d"
    using open_left [OF assms(1) ok(3)] by blast
  obtain h2 s2 where w: "writeToTar fuel fsys \<lparr>th_name = r, th_size = int (length d), th_mode = 0, th_type = TypeReg\<rparr>
      (h, s1, idle_writer es) = (None, h2, s2, idle_writer (es @ [exported r d]))" "I s2" "left h2 s2 []"
    using writeToTar_entry [of s1 h d r fuel es] o(2,3) ok(4,6) by blast
  obtain c h3 s3 where cl: "f_close fsys h2 s2 = (c, h3, s3)" by (metis surj_pair)
  have "I s3" by (rule close_keeps [OF w(2,3) cl])
  then show ?thesis using ok o w cl assms(3) by (simp add: export_fn_def entries_of_def)
qed

lemma writeToTar_keeps:
  assumes "I s" "left h s l" "writeToTar fuel fsys hdr (h, s, w) = (r, h', s', w')"
  shows "I s' \<and> (\<exists>l'. left h' s' l')"
proof -
  let ?hdr = "hdr\<lparr>th_mode := 0x1A4\<rparr>"
  let ?P = "\<lambda>(h, s, w :: tar_writer). I s \<and> (\<exists>l. left h s l)"
  obtain e w1 where hd: "tar_WriteHeader ?hdr w = (e, w1)" by fastforce
  have rd: "?P x'" if P: "?P x" and run: "file_reader_of fsys n x = (res, x')" for n x res x'
  proof -
    obtain h1 s1 w1 where x: "x = (h1, s1, w1)" by (cases x) auto
    then obtain l1 where "I s1" "left h1 s1 l1" using P by auto
    from read_left [OF this, of n] show ?thesis using run x by (auto simp: file_reader_of_def)
  qed
  have wr: "?P x'" if "?P x" "archive_writer b x = (res, x')" for b x res x'
    using that by (auto simp: archive_writer_def split: prod.splits)
  show ?thesis
  proof (cases e)
    case None
    then have run: "CopyN fuel (file_reader_of fsys) archive_writer (th_size ?hdr) (h, s, w1) = (r, h', s', w')"
      using assms(3) hd by (simp add: writeToTar_def Let_def)
    have "?P (h', s', w')"
    proof (rule CopyN_keeps [where P = ?P, OF _ _ _ run])
      show "?P (h, s, w1)" using assms(1,2) by auto
    qed (fact rd wr)+
    then show ?thesis by simp
  qed (use assms hd in \<open>auto simp: writeToTar_def Let_def\<close>)
qed

text \<open>The callback keeps \<open>I\<close> on the entries of the tree, so the walk may go on after it.\<close>

lemma export_keeps:
  assumes "\<forall>(p, e) \<in> set (files_below base t). exportable fuel rel content base p e"
  shows "keeps_on (\<lambda>(s, w). I s) (export_fn fuel rel fsys base) (set (preorder base t))"
proof -
  have "I (fst (snd (export_fn fuel rel fsys base p (Some e) err (s, w))))"
    if pe: "(p, e) \<in> set (preorder base t)" and I: "I s" for p e err s w
  proof (cases "err = None \<and> \<not> de_is_dir e")
    case True
    then have "exportable fuel rel content base p e" using assms pe by (auto simp: files_below_def)
    then obtain d where "content p = Some d" by (auto simp: exportable_def split: sum.splits option.splits)
    then obtain h s1 where o: "fs_open_file fsys p O_RDONLY ModePerm s = (Inr h, s1)" "I s1" "left h s1 d"
      using open_left [OF I] by blast
    have "I (fst (snd (case writeToTar fuel fsys hdr (h, s1, w) of
        (res, f', s2, w2) \<Rightarrow> case f_close fsys f' s2 of (_, _, s3) \<Rightarrow> (res, s3, w2))))" for hdr
    proof -
      obtain res f' s2 w2 where w: "writeToTar fuel fsys hdr (h, s1, w) = (res, f', s2, w2)" by (metis surj_pair)
      obtain c h3 s3 where cl: "f_close fsys f' s2 = (c, h3, s3)" by (metis surj_pair)
      have "I s2 \<and> (\<exists>l'. left f' s2 l')" by (rule writeToTar_keeps [OF o(2,3) w])
      then show ?thesis using close_keeps [OF _ _ cl] by (auto simp: w cl)
    qed
    then show ?thesis
      using True I by (auto simp: export_fn_def o(1) case_prod_beta split: sum.split)
  qed (use I in \<open>auto simp: export_fn_def\<close>)
  then show ?thesis by (auto simp: keeps_on_def case_prod_beta)
qed

lemma export_tree:
  "fn = export_fn fuel rel fsys base \<Longrightarrow> sw = (s, idle_writer es) \<Longrightarrow> I s \<Longrightarrow>
     \<forall>(p, e) \<in> set (files_below name t). exportable fuel rel content base p e \<Longrightarrow>
     \<exists>s'. tree_walk fn name t sw = (None, s', idle_writer (es @ entries_of rel content base (files_below name t))) \<and> I s'"
  "fn = export_fn fuel rel fsys base \<Longrightarrow> sw = (s, idle_writer es) \<Longrightarrow> I s \<Longrightarrow>
     \<forall>(p, e) \<in> set (concat (map (\<lambda>t. files_below (path_join [name, de_name (root_entry t)]) t) ts)). exportable fuel rel content base p e \<Longrightarrow>
     \<exists>s'. tree_walks fn name ts sw = (None, s', idle_writer (es @ entries_of rel content base
         (concat (map (\<lambda>t. files_below (path_join [name, de_name (root_entry t)]) t) ts)))) \<and> I s'"
proof (induction fn name t sw and fn name ts sw arbitrary: s es and s es rule: tree_walk_tree_walks.induct)
  case (1 fn name d ts sw)
  show ?case
  proof (cases "de_is_dir d")
    case True
    have "fn name (Some d) None sw = (None, sw)" using 1(2) True by (simp add: export_fn_def)
    then show ?thesis
      using 1(1) [of None sw s es] 1(2-5) True by (simp add: files_below_def filter_concat comp_def)
  next
    case False
    then have "exportable fuel rel content base name d" using 1(5) by (simp add: files_below_def)
    then show ?thesis
      using export_file [OF 1(4), of fuel rel base name d es] 1(2,3) False by (auto simp: files_below_def skipped_dir_def)
  qed
next
  case (2 fn name sw)
  then show ?case by (auto simp: entries_of_def)
next
  case (3 fn name t ts sw)
  obtain s1 where s1: "tree_walk fn (path_join [name, de_name (root_entry t)]) t sw
      = (None, s1, idle_writer (es @ entries_of rel content base (files_below (path_join [name, de_name (root_entry t)]) t)))" "I s1"
    using 3(1) [OF 3(3-5)] 3(6) by auto
  show ?case
    using 3(2) [OF s1(1) [symmetric] refl 3(3) refl s1(2)] 3(6) s1(1) by (auto simp: entries_of_def)
qed

end

text \<open>The file system beside a writer lists the same tree.\<close>

lemma with_writer_simps [simp]:
  "fs_stat (with_writer fsys) n (s, w) = (case fs_stat fsys n s of (r, s') \<Rightarrow> (r, s', w))"
  "ReadDir (with_writer fsys) name (s, w) = (case ReadDir fsys name s of (r, s') \<Rightarrow> (r, s', w))"
  by (auto simp: with_writer_def aside_def aside2_def ReadDir_def split: prod.splits sum.splits option.splits)

lemma lists_tree_with_writer: "lists_tree I fsys name t \<Longrightarrow> lists_tree (\<lambda>(s, w). I s) (with_writer fsys) name t"
  by (induction I fsys name t rule: lists_tree.induct) auto

text \<open>C36: Exporting a tree whose files can be read writes the archive of its files: one entry for each file, in the
  order of the walk, under its name relative to the base, with its size and all its bytes; directories leave no
  entry; and the archive is closed. It always ends: fuel for the height of the tree and beyond the longest file
  is enough.\<close>

theorem Tar_export_archive:
  assumes "file_reader (tx_fsys x) I content left" "I s" "base = (if tx_base x = [] then ''.'' else tx_base x)"
    and "fs_stat (tx_fsys x) base s = (Inr info, s)" "root_entry t = statDirEntry info"
    and "lists_tree I (tx_fsys x) base t" "height t \<le> fuel"
    and "\<forall>(p, e) \<in> set (files_below base t). exportable fuel rel content base p e"
  shows "\<exists>s' w. ExportAsTar fuel rel x (\<lambda>_. None) s = Some (None, s', w)
    \<and> tw_entries w = entries_of rel content base (files_below base t) \<and> tw_trailer w \<and> I s'"
proof -
  note fr = assms(1)
  let ?fs = "with_writer (tx_fsys x)" and ?fn = "export_fn fuel rel (tx_fsys x) base"
  let ?es = "entries_of rel content base (files_below base t)"
  have new: "tar_NewWriter (\<lambda>_. None) = idle_writer []" by (simp add: tar_NewWriter_def idle_writer_def)
  have stat: "fs_stat ?fs base (s, idle_writer []) = (Inr info, s, idle_writer [])" using assms(4) by simp
  obtain s' where tree: "tree_walk ?fn base t (s, idle_writer []) = (None, s', idle_writer ([] @ ?es))" "I s'"
    using file_reader.export_tree(1) [OF fr refl refl assms(2), of base t fuel rel base "[]"] assms(8) by blast
  have "WalkDir fuel ?fs base ?fn (s, idle_writer []) = Some (walk_end (tree_walk ?fn base t (s, idle_writer [])))"
    using assms(2) by (intro WalkDir_tree [OF stat assms(5) file_reader.export_keeps [OF fr assms(8)]
        _ lists_tree_with_writer [OF assms(6)] assms(7)]) simp
  then have "ExportAsTar fuel rel x (\<lambda>_. None) s = Some (None, s', snd (tar_Close (idle_writer ?es)))"
    unfolding ExportAsTar_def new Let_def assms(3) [symmetric] using tree(1) by simp
  then show ?thesis using tree(2) by (simp add: tar_Close_def tar_Flush_def idle_writer_def)
qed

section \<open>The files of a WebDAV server\<close>

text \<open>A server whose tree nobody else changes: downloads keep \<open>I\<close>, under which the tree is the one of \<open>t\<close>.\<close>

locale dav_files = srv: dav_server c ep base kind + dl: dav_download c ep base stored content
  for c :: "('b, 's) dav_client" and ep base kind stored content +
  fixes I :: "'s \<Rightarrow> bool" and t :: 's
  assumes same_tree: "I s \<Longrightarrow> kind s = kind t \<and> stored s = stored t"
    and get_keeps: "I s \<Longrightarrow> rq_method r = ''GET'' \<Longrightarrow> I (snd (dc_do c r s))"
    and body_keeps: "I s \<Longrightarrow> I (snd (snd (dc_read c b n s)))"

text \<open>What is at a path, when the listing and the download agree on its size.\<close>

definition dav_content :: "(string list \<Rightarrow> dav_kind option) \<Rightarrow> (string list \<Rightarrow> bytes option) \<Rightarrow> string \<Rightarrow> bytes option" where
  "dav_content K S p =
     (case S (path_elems p) of
        None \<Rightarrow> None
      | Some d \<Rightarrow>
          if p = abs_path (path_elems p) \<and> list_all name_ok (path_elems p) \<and> length d < 2 ^ 63
            \<and> K (path_elems p) = Some (Resource (int (length d))) then Some d else None)"

text \<open>What a file of the client has still to deliver: the rest of its body, which ends where the size says,
  or all of the file when no request was made yet.\<close>

definition dav_left :: "('b \<Rightarrow> bytes) \<Rightarrow> (string list \<Rightarrow> bytes option) \<Rightarrow> 'b dav_file \<Rightarrow> bytes \<Rightarrow> bool" where
  "dav_left content S h l \<longleftrightarrow>
     df_writer h = None \<and> (\<exists>cf m. df_file h = Some cf \<and> cf_pos cf = of_nat m \<and> fi_size (cf_info cf) = int (m + length l) \<and> m + length l < 2 ^ 63
        \<and> (case cf_body cf of
             Some b \<Rightarrow> content b = l
           | None \<Rightarrow> m = 0 \<and> \<not> cf_seeked cf \<and> (\<exists>cs. list_all name_ok cs \<and> cf_name cf = abs_path cs \<and> S cs = Some l)))"

context dav_files begin

lemma doRequest_I:
  assumes "I s" "doRequest c name a b s = (r, s')"
  shows "I s'"
proof -
  obtain q where q: "client_req c ''GET'' name NoBody = Inr q" "rq_method q = ''GET''"
    using srv.req [of "''GET''" name NoBody] by simp
  have get: "rq_method (setRange a b q) = ''GET''" using q(2) by (simp add: setRange_def header_set_def)
  obtain res s1 where do: "dc_do c (setRange a b q) s = (res, s1)" by fastforce
  have "I s1" using get_keeps [OF assms(1) get] do by simp
  moreover have "s' = s1"
    using assms(2) q(1) do by (auto simp: doRequest_def client_do_def split: sum.splits prod.splits if_splits)
  ultimately show ?thesis by simp
qed

lemma dc_read_I: "I s \<Longrightarrow> dc_read c b n s = (r, b', s') \<Longrightarrow> I s'"
  using body_keeps [of s b n] by simp

text \<open>One read of an open body, and the first read, which asks for it.\<close>

lemma Read_left:
  assumes "I s" "cf_body cf = Some b" "cf_pos cf = of_nat m" "fi_size (cf_info cf) = int (m + length (content b))"
    "m + length (content b) < 2 ^ 63"
  obtains p e b' s' where
    "client_file_Read c cf n s = ((int (length p), p, e), cf\<lparr>cf_body := Some b', cf_pos := of_nat (m + length p)\<rparr>, s')"
    "content b = p @ content b'" "0 < n \<and> content b \<noteq> [] \<longrightarrow> p \<noteq> []" "e = None \<or> e = Some EOF \<and> content b' = []" "I s'"
proof -
  obtain k p err b' s' where r: "dc_read c b n s = ((k, p, err), b', s')" by (metis surj_pair)
  have I: "I s'" by (rule dc_read_I [OF assms(1) r])
  note p = dl.body_read [OF r]
  have k: "k = int (length p)" and cb: "content b = p @ content b'" using p by blast+
  have "sint (of_nat (m + length p) :: 64 word) = int (m + length p)"
    using assms(5) cb by (intro dl.sint_nat) simp
  then have run: "client_file_Read c cf n s = ((int (length p), p, if content b' = [] then Some EOF else None),
      cf\<lparr>cf_body := Some b', cf_pos := of_nat (m + length p)\<rparr>, s')"
    using assms(4) by (simp add: client_file_Read_def Let_def assms(2,3) r k) (simp add: cb)
  have "0 < n \<and> content b \<noteq> [] \<longrightarrow> p \<noteq> []" using p by blast
  then show thesis by (rule that [OF run cb _ _ I]) simp
qed

lemma Read_first:
  assumes "cf_body cf = None" "\<not> cf_seeked cf" "doRequest c (cf_name cf) (-1) 0 s = (Inr b, s1)"
  shows "client_file_Read c cf n s = client_file_Read c (cf\<lparr>cf_body := Some b\<rparr>) n s1"
  using assms by (simp add: client_file_Read_def Let_def split: prod.splits)

lemma left_open:
  assumes "I s" "dav_content (kind t) (stored t) p = Some d"
  shows "\<exists>h. dav_OpenFile c p O_RDONLY m s = (Inr h, s) \<and> dav_left content (stored t) h d"
proof -
  let ?cs = "path_elems p"
  have p: "p = abs_path ?cs" "list_all name_ok ?cs" "length d < 2 ^ 63" "kind s ?cs = Some (Resource (int (length d)))"
    "stored t ?cs = Some d"
    using assms(2) same_tree [OF assms(1)] by (auto simp: dav_content_def split: option.splits if_splits)
  obtain h cf where h: "dav_OpenFile c (abs_path ?cs) O_RDONLY m s = (Inr h, s)" "df_file h = Some cf" "cf_name cf = abs_path ?cs"
    "fi_size (cf_info cf) = int (length d)" "cf_pos cf = 0" "\<not> cf_seeked cf" "cf_body cf = None" "df_writer h = None"
    using OpenFile_resource [of c ep base kind ?cs s _ m, OF srv.dav_server_axioms p(2,4)] by blast
  have "dav_left content (stored t) h d"
    unfolding dav_left_def using h(2-8) p(2,3,5) by (intro conjI exI [of _ cf] exI [of _ "0 :: nat"]) auto
  then show ?thesis using h(1) p(1) by metis
qed

lemma left_read:
  assumes "I s" "dav_left content (stored t) h l"
  shows "\<exists>p e l' h' s'. davfile_Read c h n s = ((int (length p), p, e), h', s') \<and> l = p @ l'
    \<and> (0 < n \<and> l \<noteq> [] \<longrightarrow> p \<noteq> []) \<and> (e = None \<or> e = Some EOF \<and> l' = []) \<and> I s' \<and> dav_left content (stored t) h' l'"
proof -
  obtain cf m where h: "df_writer h = None" "df_file h = Some cf" "cf_pos cf = of_nat m" "fi_size (cf_info cf) = int (m + length l)"
    "m + length l < 2 ^ 63"
    and body: "case cf_body cf of Some b \<Rightarrow> content b = l
      | None \<Rightarrow> m = 0 \<and> \<not> cf_seeked cf \<and> (\<exists>cs. list_all name_ok cs \<and> cf_name cf = abs_path cs \<and> stored t cs = Some l)"
    using assms(2) unfolding dav_left_def by blast
  obtain b s1 where b: "client_file_Read c cf n s = client_file_Read c (cf\<lparr>cf_body := Some b\<rparr>) n s1" "content b = l" "I s1"
  proof (cases "cf_body cf")
    case None
    then obtain cs where cs: "\<not> cf_seeked cf" "list_all name_ok cs" "cf_name cf = abs_path cs" "stored s cs = Some l"
      using body same_tree [OF assms(1)] by auto
    obtain b s1 where r: "doRequest c (abs_path cs) (-1) 0 s = (Inr b, s1)" "content b = l"
      using dl.request_all [OF cs(2,4)] by blast
    show thesis
      using that [of b s1] Read_first [OF None cs(1), of s b s1 n] r cs(3) doRequest_I [OF assms(1) r(1)] by simp
  next
    case (Some b)
    then have same: "client_file_Read c cf n s = client_file_Read c (cf\<lparr>cf_body := Some b\<rparr>) n s" by (cases cf) simp
    show thesis by (rule that [OF same]) (use body Some assms(1) in simp_all)
  qed
  let ?cf = "cf\<lparr>cf_body := Some b\<rparr>"
  have cf: "cf_body ?cf = Some b" "cf_pos ?cf = of_nat m" "fi_size (cf_info ?cf) = int (m + length (content b))"
    "m + length (content b) < 2 ^ 63" using h b(2) by simp_all
  obtain p e b' s' where r: "client_file_Read c ?cf n s1
      = ((int (length p), p, e), ?cf\<lparr>cf_body := Some b', cf_pos := of_nat (m + length p)\<rparr>, s')"
    "content b = p @ content b'" "0 < n \<and> content b \<noteq> [] \<longrightarrow> p \<noteq> []" "e = None \<or> e = Some EOF \<and> content b' = []" "I s'"
    by (rule Read_left [OF b(3) cf])
  let ?h = "h\<lparr>df_file := Some (?cf\<lparr>cf_body := Some b', cf_pos := of_nat (m + length p)\<rparr>)\<rparr>"
  have left: "dav_left content (stored t) ?h (content b')"
    unfolding dav_left_def
    using h(1,4,5) b(2) r(2) by (intro conjI exI [of _ "?cf\<lparr>cf_body := Some b', cf_pos := of_nat (m + length p)\<rparr>"] exI [of _ "m + length p"]) auto
  have "davfile_Read c h n s = ((int (length p), p, e), ?h, s')"
    using r(1) b(1) h(2) by (simp add: davfile_Read_def)
  then show ?thesis
    using r(2-5) b(2) left by (intro exI [of _ p] exI [of _ e] exI [of _ "content b'"] exI [of _ ?h] exI [of _ s']) simp
qed

lemma left_close:
  assumes "I s" "dav_left content (stored t) h l" "davfile_Close c h s = (r, h', s')"
  shows "I s'"
proof -
  obtain cf where cf: "df_writer h = None" "df_file h = Some cf" using assms(2) unfolding dav_left_def by blast
  have "snd (snd (client_file_Close c cf s)) = s"
    using srv.close_pure by (simp add: client_file_Close_def split: option.split prod.split) (metis snd_conv)
  then have "s' = s" using assms(3) cf by (simp add: davfile_Close_def split: prod.splits)
  then show ?thesis using assms(1) by simp
qed

end

sublocale dav_files \<subseteq> reader: file_reader "Dav_NewFS c" I "dav_content (kind t) (stored t)"
  "\<lambda>h s l. dav_left content (stored t) h l"
proof (unfold_locales, goal_cases)
  case (1 s p d m)
  then show ?case using left_open [of s p d m] by (auto simp: Dav_NewFS_def)
next
  case (2 s h l n)
  then show ?case using left_read [of s h l n] by (simp add: Dav_NewFS_def)
next
  case (3 s h l r h' s')
  then show ?case using left_close [of s h l r h' s'] by (simp add: Dav_NewFS_def)
qed

interpretation dtree: dav_files dav_ref ref_endpoint ref_base ref_kind ref_stored body_content "\<lambda>s. s = t" t for t
proof (unfold_locales, goal_cases)
  case (2 s r)
  then show ?case by (auto simp: dav_ref_def ref_do_def Let_def split: option.splits list.splits)
next
  case (3 s b n)
  then show ?case by (cases b) (simp_all add: dav_ref_def)
qed simp

text \<open>A small tree on the reference server: a file, and a directory with a file.\<close>

definition sample_tree :: dav_tree where
  "sample_tree = [([''a''], Some ''xyz''), ([''d''], None), ([''d'', ''b''], Some ''q'')]"

definition listed_file :: "string \<Rightarrow> int \<Rightarrow> dir_entry" where
  "listed_file name k = statDirEntry (NewFileInfo name k 0)"

definition listed_dir :: "string \<Rightarrow> dir_entry" where
  "listed_dir name = statDirEntry (NewDirFileInfo name)"

definition sample_ftree :: ftree where
  "sample_ftree = Tree (listed_dir ''/'') [Tree (listed_file ''a'' 3) [], Tree (listed_dir ''d'') [Tree (listed_file ''b'' 1) []]]"

lemma sample_reads:
  "fs_stat (Dav_NewFS dav_ref) ''/'' sample_tree = (Inr (NewDirFileInfo ''/''), sample_tree)"
  "ReadDir (Dav_NewFS dav_ref) ''/'' sample_tree = (([listed_file ''a'' 3, listed_dir ''d''], None), sample_tree)"
  "ReadDir (Dav_NewFS dav_ref) ''/d'' sample_tree = (([listed_file ''b'' 1], None), sample_tree)"
  by code_simp+

lemma sample_paths: "path_join [''/'', ''a''] = ''/a''" "path_join [''/'', ''d''] = ''/d''" "path_join [''/d'', ''b''] = ''/d/b''"
  by code_simp+

lemma listed_simps [simp]:
  "de_name (listed_file n k) = n" "\<not> de_is_dir (listed_file n k)" "de_name (listed_dir n) = n" "de_is_dir (listed_dir n)"
  by (simp_all add: listed_file_def listed_dir_def statDirEntry_def)

lemma sample_lists: "lists_tree (\<lambda>s. s = sample_tree) (Dav_NewFS dav_ref) ''/'' sample_ftree"
  by (simp add: sample_ftree_def sample_reads sample_paths)

lemma sample_files: "files_below ''/'' sample_ftree = [(''/a'', listed_file ''a'' 3), (''/d/b'', listed_file ''b'' 1)]"
  by (simp add: files_below_def sample_ftree_def sample_paths)

lemma sample_elems: "path_elems ''/a'' = [''a'']" "path_elems ''/d/b'' = [''d'', ''b'']"
  by code_simp+

lemma sample_content:
  "dav_content (ref_kind sample_tree) (ref_stored sample_tree) ''/a'' = Some ''xyz''"
  "dav_content (ref_kind sample_tree) (ref_stored sample_tree) ''/d/b'' = Some ''q''"
  by (simp_all add: dav_content_def sample_elems ref_kind_def ref_stored_def sample_tree_def abs_path_def name_ok_def good_elem_def)

theorem Tar_export_archive_witness:
  "\<exists>s' w. ExportAsTar 5 (\<lambda>b p. Inr (trim_prefix p b)) (tar_From (Dav_NewFS dav_ref) [WithBase ''/'']) (\<lambda>_. None) sample_tree
      = Some (None, s', w) \<and> tw_entries w = [exported ''a'' ''xyz'', exported ''d/b'' ''q''] \<and> tw_trailer w"
proof -
  let ?x = "tar_From (Dav_NewFS dav_ref) [WithBase ''/'']" and ?rel = "\<lambda>b p. Inr (trim_prefix p b) :: go_error + string"
  let ?c = "dav_content (ref_kind sample_tree) (ref_stored sample_tree)"
  have x: "tx_fsys ?x = Dav_NewFS dav_ref" "tx_base ?x = ''/''"
    by (simp_all add: tar_From_def exporter_Build_def WithBase_def)
  have fr: "file_reader (tx_fsys ?x) (\<lambda>s. s = sample_tree) ?c (\<lambda>h s l. dav_left body_content (ref_stored sample_tree) h l)"
    unfolding x(1) by (rule dtree.reader.file_reader_axioms)
  have ok: "\<forall>(p, e) \<in> set (files_below ''/'' sample_ftree). exportable 5 ?rel ?c ''/'' p e"
    by (simp add: sample_files exportable_def sample_content listed_file_def statDirEntry_def trim_prefix_def)
  have es: "entries_of ?rel ?c ''/'' (files_below ''/'' sample_ftree) = [exported ''a'' ''xyz'', exported ''d/b'' ''q'']"
    by (simp add: sample_files entries_of_def sample_content trim_prefix_def)
  have root: "root_entry sample_ftree = statDirEntry (NewDirFileInfo ''/'')" "height sample_ftree \<le> 5"
    by (simp_all add: sample_ftree_def listed_dir_def)
  show ?thesis
    using Tar_export_archive [of ?x "\<lambda>s. s = sample_tree" ?c _ sample_tree "''/''" "NewDirFileInfo ''/''" sample_ftree 5 ?rel, OF fr]
      ok es root x sample_reads(1) sample_lists by auto
qed

end
