(* ===== verification/Tar_S3.thy ===== *)
theory Tar_S3
  imports Tar_Props S3_Props
begin

text \<open>
  Importing an archive into the S3 file system: the directories that are made, the upload of one entry as
  a copy, and the loop over the entries.
\<close>

section \<open>Making directories\<close>

text \<open>Nothing but placeholders of directories was added.\<close>

definition holder_key :: "string list \<Rightarrow> string \<Rightarrow> bool" where
  "holder_key ps k \<longleftrightarrow> (\<exists>ds. list_all name_ok ds \<and> k = key_of ps (ds @ [dirHolder]))"

definition holders_added :: "string list \<Rightarrow> (string \<Rightarrow> bytes option) \<Rightarrow> (string \<Rightarrow> bytes option) \<Rightarrow> bool" where
  "holders_added ps M M' \<longleftrightarrow> (\<forall>k. M' k = M k \<or> holder_key ps k \<and> M' k = Some [])"

lemma holders_added_refl [simp]: "holders_added ps M M"
  by (simp add: holders_added_def)

lemma holders_added_trans: "holders_added ps M M1 \<Longrightarrow> holders_added ps M1 M2 \<Longrightarrow> holders_added ps M M2"
  unfolding holders_added_def by metis

lemma holders_added_upd: "list_all name_ok ds \<Longrightarrow> holders_added ps M (M(key_of ps (ds @ [dirHolder]) \<mapsto> []))"
  by (auto simp: holders_added_def holder_key_def)

lemma holders_added_other: "holders_added ps M M' \<Longrightarrow> \<not> holder_key ps k \<Longrightarrow> M' k = M k"
  by (auto simp: holders_added_def)

text \<open>A path whose directories can be made: no file is in the way, and the service takes the placeholders.\<close>

definition way_free :: "string list \<Rightarrow> (string \<Rightarrow> bool) \<Rightarrow> (string \<Rightarrow> bytes option) \<Rightarrow> string list \<Rightarrow> bool" where
  "way_free ps legal M cs \<longleftrightarrow>
     (\<forall>ds es. cs = ds @ es \<and> ds \<noteq> [] \<longrightarrow> M (key_of ps ds) = None \<and> legal (key_of ps (ds @ [dirHolder])))"

lemma way_free_prefixes:
  "way_free ps legal M cs \<longleftrightarrow>
     list_all (\<lambda>ds. ds \<noteq> [] \<longrightarrow> M (key_of ps ds) = None \<and> legal (key_of ps (ds @ [dirHolder]))) (prefixes cs)"
  by (auto simp: way_free_def list_all_iff in_set_prefixes prefix_def)

lemma way_free_snoc: "way_free ps legal M (cs @ [c]) \<Longrightarrow> way_free ps legal M cs"
  unfolding way_free_def by (metis append.assoc)

lemma way_freeD: "way_free ps legal M cs \<Longrightarrow> cs \<noteq> [] \<Longrightarrow> M (key_of ps cs) = None \<and> legal (key_of ps (cs @ [dirHolder]))"
  unfolding way_free_def by (metis append_Nil2)

context s3_reliable begin

lemma not_holder: "list_all name_ok cs \<Longrightarrow> dirHolder \<notin> set cs \<Longrightarrow> \<not> holder_key ps (key_of ps cs)"
  unfolding holder_key_def using holder_key_new by metis

lemma Mkdir_ok:
  assumes "list_all name_ok (cs @ [x])" "\<not> s3_exists (objs s) (key_of ps (cs @ [x]))"
    "cs = [] \<or> s3_exists (objs s) (key_of ps cs)" "legal (key_of ps (cs @ [x, dirHolder]))"
  shows "\<exists>s'. s3_Mkdir F meta (abs_path (cs @ [x])) perm s = (None, s') \<and> objs s' = (objs s)(key_of ps (cs @ [x, dirHolder]) \<mapsto> [])"
proof -
  obtain s' where "PutObject (s3Client F) (s3_bucket F) (key_of ps (cs @ [x, dirHolder])) []
      \<lparr>po_content_type = [], po_cache_control = [], po_part_size = 0\<rparr> s = (None, s')"
    "objs s' = (objs s)(key_of ps (cs @ [x, dirHolder]) \<mapsto> [])"
    using PutObject_ok [OF put_ok [OF assms(4)]] by blast
  then show ?thesis using Mkdir_abs [OF assms(1), of meta perm s] assms(2,3) by auto
qed

lemma MkdirAll_ok:
  assumes "list_all name_ok cs" "dirHolder \<notin> set cs" "way_free ps legal (objs s) cs"
  shows "\<exists>s'. MkdirAll (s3_filesystem fuel F meta) (abs_path cs) s = (None, s')
    \<and> (cs = [] \<or> s3_exists (objs s') (key_of ps cs)) \<and> holders_added ps (objs s) (objs s')"
  using assms
proof (induction cs arbitrary: s rule: rev_induct)
  case Nil
  then show ?case by (subst MkdirAll.simps) (simp add: abs_path_def Stat_def Stat_root)
next
  case (snoc c cs)
  let ?cs = "cs @ [c]" and ?fs = "s3_filesystem fuel F meta"
  have c: "name_ok c" and none: "objs s (key_of ps ?cs) = None" and lg: "legal (key_of ps (cs @ [c, dirHolder]))"
    using snoc.prems way_freeD [OF snoc.prems(3)] by simp_all
  note unfold = MkdirAll_abs [OF c, of ?fs cs s]
  have ne: "?cs \<noteq> []" by simp
  note stat = Stat_missing [OF snoc.prems(1) ne]
  show ?case
  proof (cases "s3_exists (objs s) (key_of ps ?cs)")
    case True
    then show ?thesis using unfold stat [OF none] by (simp add: Stat_def)
  next
    case False
    obtain s2 where up: "(if cs = [] then (None, s) else MkdirAll ?fs (abs_path cs) s) = (None, s2)"
      "cs = [] \<or> s3_exists (objs s2) (key_of ps cs)" "holders_added ps (objs s) (objs s2)"
      using snoc.IH [of s] snoc.prems way_free_snoc [OF snoc.prems(3)] by (cases "cs = []") auto
    have none2: "objs s2 (key_of ps ?cs) = None"
      using holders_added_other [OF up(3) not_holder [OF snoc.prems(1,2)]] none by simp
    show ?thesis
    proof (cases "s3_exists (objs s2) (key_of ps ?cs)")
      case True
      have "s3_Mkdir F meta (abs_path ?cs) ModePerm s2 = (Some (PathError ''mkdir'' (abs_path ?cs) ErrExist), s2)"
        using True Mkdir_abs [OF snoc.prems(1), of meta ModePerm s2] by simp
      then show ?thesis
        using unfold stat [OF none] stat [OF none2] False True up(1,3) by (simp add: Stat_def)
    next
      case fresh: False
      obtain s3 where mk: "s3_Mkdir F meta (abs_path ?cs) ModePerm s2 = (None, s3)"
        "objs s3 = (objs s2)(key_of ps (cs @ [c, dirHolder]) \<mapsto> [])"
        using Mkdir_ok [OF snoc.prems(1) fresh up(2) lg, of meta ModePerm] by blast
      have "s3_exists (objs s3) (key_of ps ?cs)" using exists_holder [OF snoc.prems(1) ne] mk(2) by simp
      moreover have "holders_added ps (objs s) (objs s3)"
        using holders_added_trans [OF up(3)] holders_added_upd [OF snoc.prems(1), of ps "objs s2"] mk(2) by simp
      ultimately show ?thesis
        using unfold stat [OF none] False up(1) mk(1) by (simp add: Stat_def)
    qed
  qed
qed

end

section \<open>Uploading an entry\<close>

text \<open>The reader of an archive in the middle of an entry, with the pieces of what is left of it.\<close>

definition reads_entry :: "(tar_header \<times> bytes list) list \<Rightarrow> go_error \<Rightarrow> bytes \<Rightarrow> tar_reader \<Rightarrow> bool" where
  "reads_entry es e l tr \<longleftrightarrow>
     tr_rest tr = es \<and> tr_end tr = e \<and> concat (tr_pieces tr) = l \<and> tr_left tr = int (length l) \<and> [] \<notin> set (tr_pieces tr)"

lemma eof_at_end: "(if int (length l) \<le> 0 then Some EOF else None) = None
    \<or> (if int (length l) \<le> 0 then Some EOF else None) = Some EOF \<and> l = []"
  by (cases l) simp_all

lemma tar_Read_entry:
  assumes "reads_entry es e l tr" "l \<noteq> []" "0 < n"
  obtains p r l' tr' where "tar_Read n tr = ((int (length p), p, r), tr')" "l = p @ l'" "p \<noteq> []"
    "r = None \<or> r = Some EOF \<and> l' = []" "reads_entry es e l' tr'"
proof -
  obtain q qs where q: "tr_pieces tr = q # qs" using assms(1,2) by (cases "tr_pieces tr") (auto simp: reads_entry_def)
  let ?m = "min n (length l)"
  have m: "?m \<noteq> 0" using assms(2,3) by simp
  have qne: "q \<noteq> []" and l: "l = q @ concat qs" and left: "tr_left tr = int (length l)"
    using assms(1) q by (auto simp: reads_entry_def)
  obtain p where p: "p = take ?m q" by simp
  let ?l = "drop ?m q @ concat qs"
  let ?tr = "tr\<lparr>tr_pieces := (if drop ?m q = [] then qs else drop ?m q # qs), tr_left := int (length ?l)\<rparr>"
  have split: "l = p @ ?l" unfolding l p by simp
  then have "length l = length p + length ?l" by (metis length_append)
  then have len: "int (length l) - int (length p) = int (length ?l)" by linarith
  have run: "tar_Read n tr = ((int (length p), p, if int (length ?l) \<le> 0 then Some EOF else None), ?tr)"
    unfolding tar_Read_def q left nat_int Let_def p [symmetric] list.case len if_not_P [OF m] by (rule refl)
  have entry: "reads_entry es e ?l ?tr"
    using assms(1) q unfolding reads_entry_def by auto
  have pne: "p \<noteq> []" using m qne p by simp
  show thesis by (rule that [OF run split pne eof_at_end entry])
qed

text \<open>The file that is written: nothing was written yet, or the upload holds what was.\<close>

definition uploads ::
  "('o, 's) s3fs \<Rightarrow> ('s \<Rightarrow> string \<Rightarrow> bytes option) \<Rightarrow> (string \<Rightarrow> bool) \<Rightarrow> string \<Rightarrow> (string \<Rightarrow> bytes option)
     \<Rightarrow> 'o s3file \<Rightarrow> 's \<Rightarrow> bytes \<Rightarrow> bool" where
  "uploads F objs legal n M f s d \<longleftrightarrow>
     sf_name f = n \<and> sf_writeable f \<and> sf_object f = None \<and> legal (s3_path F n)
     \<and> (if d = [] then sf_upload f = None \<and> objs s = M
        else (\<exists>opts. sf_upload f = Some (upload.Uploading d opts)) \<and> (\<forall>k. k \<noteq> s3_path F n \<longrightarrow> objs s k = M k))"

context s3_reliable begin

lemma Write_uploads:
  assumes "uploads F objs legal n M f s d" "p \<noteq> []"
  shows "\<exists>f' s'. s3file_Write F f p s = ((int (length p), None), f', s') \<and> uploads F objs legal n M f' s' (d @ p)"
proof (cases "d = []")
  case True
  then have f: "legal (s3_path F (sf_name f))" "sf_writeable f" "sf_upload f = None" "sf_name f = n" "objs s = M"
    "sf_object f = None" using assms(1) by (simp_all add: uploads_def)
  obtain s' opts where w: "s3file_Write F f p s = ((int (length p), None), f\<lparr>sf_upload := Some (upload.Uploading p opts)\<rparr>, s')"
    "objs s' = (if has_flag (sf_flags f) O_CREATE then (objs s)(s3_path F (sf_name f) \<mapsto> [CHR 0x00]) else objs s)"
    by (rule Write_starting [OF f(1-3)])
  then show ?thesis using True f assms(2) by (intro exI conjI) (auto simp: uploads_def)
next
  case False
  then obtain opts where f: "legal (s3_path F (sf_name f))" "sf_writeable f" "sf_upload f = Some (upload.Uploading d opts)" "sf_name f = n"
    "sf_object f = None" using assms(1) by (auto simp: uploads_def)
  obtain s' where w: "s3file_Write F f p s = ((int (length p), None), f\<lparr>sf_upload := Some (upload.Uploading (d @ p) opts)\<rparr>, s')"
    "objs s' = objs s"
    by (rule Write_streaming [OF f(1-3)])
  then show ?thesis using False f assms by (intro exI conjI) (auto simp: uploads_def)
qed

lemma Close_uploads:
  assumes "uploads F objs legal n M f s d"
  shows "\<exists>r f' s'. s3file_Close F f s = (r, f', s') \<and> objs s' = (if d = [] then M else M(s3_path F n \<mapsto> d))"
proof (cases "d = []")
  case False
  then obtain opts where f: "legal (s3_path F n)" "sf_upload f = Some (upload.Uploading d opts)" "sf_name f = n"
    "\<forall>k. k \<noteq> s3_path F n \<longrightarrow> objs s k = M k"
    using assms by (auto simp: uploads_def)
  obtain s' where "PutObject (s3Client F) (s3_bucket F) (s3_path F n) d opts s = (None, s')"
    "objs s' = (objs s)(s3_path F n \<mapsto> d)" using PutObject_ok [OF put_ok [OF f(1)]] by blast
  then show ?thesis using False f by (auto simp: s3file_Close_def fun_eq_iff)
qed (use assms in \<open>auto simp: uploads_def s3file_Close_def\<close>)

end

sublocale s3_reliable \<subseteq> upload: copying archive_reader "file_writer_of (s3_filesystem fuel F meta)"
  "\<lambda>(h, s, tr) l d. reads_entry es e l tr \<and> uploads F objs legal n M h s d" for fuel meta es e n M
proof (unfold_locales, goal_cases)
  case (1 x l d k)
  obtain h s tr where x: "x = (h, s, tr)" by (cases x) auto
  then have inv: "reads_entry es e l tr" "uploads F objs legal n M h s d" using 1(1) by simp_all
  obtain p r l' tr' where r: "tar_Read k tr = ((int (length p), p, r), tr')" "l = p @ l'" "p \<noteq> []"
    "r = None \<or> r = Some EOF \<and> l' = []" "reads_entry es e l' tr'"
    by (rule tar_Read_entry [OF inv(1) 1(2,3)])
  obtain h' s' where w: "s3file_Write F h p s = ((int (length p), None), h', s')" "uploads F objs legal n M h' s' (d @ p)"
    using Write_uploads [OF inv(2) r(3)] by blast
  show ?case
    using r w x
    by (intro exI [of _ p] exI [of _ r] exI [of _ l'] exI [of _ "(h, s, tr')"] exI [of _ "(h', s', tr')"])
      (simp add: archive_reader_def file_writer_of_def)
qed

section \<open>Importing\<close>

lemma import_name_abs:
  assumes "list_all name_ok bs" "list_all name_ok nm" "nm \<noteq> []"
  shows "import_name (abs_path bs) (join_with ''/'' nm) = abs_path (bs @ nm)"
proof -
  have base: "abs_path bs \<noteq> []" "is_rooted (abs_path bs)" by (simp_all add: abs_path_def)
  have split: "split_on slash (join_with ''/'' nm) = nm"
    using assms(2,3) split_join [of nm slash] by (auto simp: list_all_iff name_ok_def)
  then have "path_elems (abs_path bs @ slash # join_with ''/'' nm) = bs @ nm"
    using path_elems_under [OF base(1), of "join_with ''/'' nm"] assms path_elems_abs [OF assms(1)]
    by (simp add: list_all_iff name_ok_def)
  then show ?thesis
    using base by (simp add: import_name_def path_join2 path_clean_rooted is_rooted_append)
qed

text \<open>The entry of a file: its name, its size, and its bytes in non-empty pieces.\<close>

fun entry_of_file :: "nat \<Rightarrow> tar_header \<times> bytes list \<Rightarrow> string list \<times> bytes \<Rightarrow> bool" where
  "entry_of_file fuel (h, pcs) (nm, d) \<longleftrightarrow>
     th_type h = TypeReg \<and> th_name h = join_with ''/'' nm \<and> th_size h = int (length d) \<and> concat pcs = d \<and> [] \<notin> set pcs
     \<and> length d < fuel \<and> nm \<noteq> [] \<and> list_all name_ok nm \<and> dirHolder \<notin> set nm"

lemma entry_names:
  "list_all2 (entry_of_file fuel) es fs \<Longrightarrow> (nm, d) \<in> set fs \<Longrightarrow> nm \<noteq> [] \<and> list_all name_ok nm \<and> dirHolder \<notin> set nm"
proof (induction rule: list_all2_induct)
  case (Cons e es f fs)
  then show ?case by (cases e) auto
qed simp

text \<open>What the import of a file makes of the objects: a file without bytes leaves nothing.\<close>

fun import_store :: "string list \<Rightarrow> string list \<Rightarrow> string list \<times> bytes \<Rightarrow> (string \<Rightarrow> bytes option) \<Rightarrow> (string \<Rightarrow> bytes option)" where
  "import_store ps bs (nm, d) M = (if d = [] then M else M(key_of ps (bs @ nm) \<mapsto> d))"

text \<open>No file of the archive is in the way of another one.\<close>

definition no_conflict :: "string list \<Rightarrow> (string list \<times> bytes) list \<Rightarrow> bool" where
  "no_conflict bs fs \<longleftrightarrow> (\<forall>(nm, d) \<in> set fs. \<forall>(nm', d') \<in> set fs. \<not> strict_prefix (bs @ nm') (bs @ nm))"

lemma way_free_agree:
  assumes "way_free ps legal M cs" "\<And>ds es. cs = ds @ es \<Longrightarrow> ds \<noteq> [] \<Longrightarrow> M' (key_of ps ds) = M (key_of ps ds)"
  shows "way_free ps legal M' cs"
  using assms unfolding way_free_def by metis

lemma import_store_agree:
  "(\<And>k. \<not> H k \<Longrightarrow> M k = M' k) \<Longrightarrow> \<not> H k \<Longrightarrow> fold (import_store ps bs) fs M k = fold (import_store ps bs) fs M' k"
proof (induction fs arbitrary: M M')
  case (Cons f fs)
  have "import_store ps bs f M k = import_store ps bs f M' k" if "\<not> H k" for k
    using Cons.prems(1) [OF that] by (cases f) simp
  then show ?case using Cons.IH [of "import_store ps bs f M" "import_store ps bs f M'"] Cons.prems(2) by simp
qed simp

context s3_reliable begin

lemma writeFile_stores:
  assumes "ti_fsys i = s3_filesystem fl F meta" "s3_presignForWrite F = None"
    and ok: "list_all name_ok (cs @ [x])" "dirHolder \<notin> set cs" "way_free ps legal (objs s) cs" "legal (key_of ps (cs @ [x]))"
    and entry: "reads_entry es e d tr" "th_size h = int (length d)" "length d < fuel"
  shows "\<exists>s' tr' M. tar_writeFile fuel i (abs_path (cs @ [x])) h (s, tr) = (None, s', tr') \<and> reads_entry es e [] tr'
    \<and> holders_added ps (objs s) M \<and> objs s' = (if d = [] then M else M(key_of ps (cs @ [x]) \<mapsto> d))"
proof -
  let ?fs = "s3_filesystem fl F meta" and ?n = "abs_path (cs @ [x])" and ?flag = "(O_RDWR OR O_CREATE OR O_TRUNC) OR O_WRONLY"
  let ?f = "new_file ?n ?flag meta True"
  have cs: "list_all name_ok cs" using ok(1) by simp
  have path: "s3_path F ?n = key_of ps (cs @ [x])" using s3_path_abs [OF mounted ok(1)] .
  have dir: "path_dir ?n = abs_path cs" using ok(1) by (simp add: path_dir_abs)
  obtain s1 where mk: "MkdirAll ?fs (abs_path cs) s = (None, s1)" "cs = [] \<or> s3_exists (objs s1) (key_of ps cs)"
    "holders_added ps (objs s) (objs s1)" using MkdirAll_ok [OF cs ok(2,3)] by blast
  have flags: "O_RDWR OR O_TRUNC OR O_CREATE = O_RDWR OR O_CREATE OR O_TRUNC" by (simp add: open_flags)
  have opened: "s3_OpenFile F meta ?n (O_RDWR OR O_TRUNC OR O_CREATE) ModePerm s1 = (Inr ?f, s1)"
    unfolding flags using ok(1) mk(2) assms(2) check_parent_abs [OF ok(1), of ?n s1]
    by (simp add: s3_OpenFile_def s3_openFileForWrite_def Let_def)
  have up: "uploads F objs legal ?n (objs s1) ?f s1 []" using ok(4) path by (simp add: uploads_def new_file_def)
  obtain x' where copy: "CopyN fuel archive_reader (file_writer_of ?fs) (int (length d)) (?f, s1, tr) = (None, x')"
    "(\<lambda>(h, s, tr) l d. reads_entry es e l tr \<and> uploads F objs legal ?n (objs s1) h s d) x' [] d"
    using upload.CopyN_all [of es e ?n "objs s1" "(?f, s1, tr)" d fuel fl meta] entry(1,3) up by auto
  obtain f' s2 tr' where x': "x' = (f', s2, tr')" by (cases x') auto
  then have after: "reads_entry es e [] tr'" "uploads F objs legal ?n (objs s1) f' s2 d" using copy(2) by simp_all
  obtain r f'' s3 where cl: "s3file_Close F f' s2 = (r, f'', s3)"
    "objs s3 = (if d = [] then objs s1 else (objs s1)(s3_path F ?n \<mapsto> d))"
    using Close_uploads [OF after(2)] by blast
  have root: "abs_path cs \<noteq> []" by (simp add: abs_path_def)
  have "tar_writeFile fuel i ?n h (s, tr) = (None, s3, tr')"
    using mk(1) opened copy(1) x' cl(1) root by (simp add: tar_writeFile_def dir assms(1) entry(2) Let_def)
  then show ?thesis using after(1) mk(3) cl(2) path by metis
qed

lemma import_all:
  assumes "ti_fsys i = s3_filesystem fl F meta" "ti_dest i = abs_path bs" "s3_presignForWrite F = None"
    and bs: "list_all name_ok bs" "dirHolder \<notin> set bs"
  shows "list_all2 (entry_of_file fuel) es fs \<Longrightarrow> no_conflict bs fs \<Longrightarrow>
    \<forall>(nm, d) \<in> set fs. legal (key_of ps (bs @ nm)) \<and> way_free ps legal (objs s) (butlast (bs @ nm)) \<Longrightarrow>
    reads_entry es EOF [] tr \<Longrightarrow> length es < n \<Longrightarrow>
    \<exists>s' tr'. import_entries fuel i n (s, tr) = (None, s', tr')
      \<and> (\<forall>k. \<not> holder_key ps k \<longrightarrow> objs s' k = fold (import_store ps bs) fs (objs s) k)"
proof (induction es arbitrary: fs s tr n)
  case Nil
  then obtain m where "n = Suc m" by (cases n) auto
  then show ?case using Nil by (simp add: tar_Next_def reads_entry_def)
next
  case (Cons en es)
  obtain h pcs where en: "en = (h, pcs)" by (cases en) auto
  obtain nm d fs' where fs: "fs = (nm, d) # fs'" "entry_of_file fuel (h, pcs) (nm, d)" "list_all2 (entry_of_file fuel) es fs'"
    using Cons.prems(1) en by (auto simp: list_all2_Cons1)
  obtain m where n: "n = Suc m" "length es < m" using Cons.prems(5) by (cases n) auto
  note e = fs(2) [unfolded entry_of_file.simps]
  obtain ds x where nm: "bs @ nm = ds @ [x]" using e by (cases "bs @ nm" rule: rev_cases) auto
  have path: "list_all name_ok (bs @ nm)" "dirHolder \<notin> set (bs @ nm)" using e bs by simp_all
  let ?tr = "tr\<lparr>tr_pieces := pcs, tr_left := th_size h, tr_rest := es\<rparr>"
  have nxt: "tar_Next tr = (Inr h, ?tr)" "reads_entry es EOF d ?tr"
    using Cons.prems(4) e by (auto simp: tar_Next_def reads_entry_def en)
  have legal: "legal (key_of ps (ds @ [x]))" "way_free ps legal (objs s) ds"
    using Cons.prems(3) nm by (auto simp: fs(1))
  obtain s2 tr2 M where w: "tar_writeFile fuel i (abs_path (ds @ [x])) h (s, ?tr) = (None, s2, tr2)" "reads_entry es EOF [] tr2"
    "holders_added ps (objs s) M" "objs s2 = (if d = [] then M else M(key_of ps (ds @ [x]) \<mapsto> d))"
    using writeFile_stores [OF assms(1,3) _ _ legal(2,1) nxt(2), of h fuel] path e unfolding nm by auto
  have s2: "objs s2 k = import_store ps bs (nm, d) (objs s) k" if "\<not> holder_key ps k" for k
    using w(3,4) holders_added_other [OF w(3) that] nm by simp
  have free2: "way_free ps legal (objs s2) (butlast (bs @ nm'))" if f': "(nm', d') \<in> set fs'" for nm' d'
  proof (rule way_free_agree)
    show "way_free ps legal (objs s) (butlast (bs @ nm'))" using Cons.prems(3) f' by (auto simp: fs(1))
    have f'': "list_all name_ok (bs @ nm')" "dirHolder \<notin> set (bs @ nm')" "nm' \<noteq> []"
      using entry_names [OF fs(3) f'] bs by auto
    fix cs es' assume cs: "butlast (bs @ nm') = cs @ es'" "cs \<noteq> []"
    then have whole: "bs @ nm' = cs @ es' @ [last (bs @ nm')]"
      using f''(3) append_butlast_last_id [of "bs @ nm'"] by simp
    then have cs_ok: "list_all name_ok cs" "dirHolder \<notin> set cs" using f''(1,2) by (metis list_all_append, metis Un_iff set_append)
    have "strict_prefix cs (bs @ nm')" using whole by (metis append_is_Nil_conv not_Cons_self2 strict_prefixI' prefixI prefix_order.le_less append_self_conv)
    then have "cs \<noteq> bs @ nm" using Cons.prems(2) f' unfolding no_conflict_def fs(1) by fastforce
    then have "key_of ps cs \<noteq> key_of ps (bs @ nm)" using key_of_inject [OF ps_ok cs_ok(1) path(1)] by simp
    then show "objs s2 (key_of ps cs) = objs s (key_of ps cs)"
      using s2 [OF not_holder [OF cs_ok]] by simp
  qed
  have conf: "no_conflict bs fs'" using Cons.prems(2) by (auto simp: no_conflict_def fs(1))
  obtain s' tr' where rest: "import_entries fuel i m (s2, tr2) = (None, s', tr')"
    "\<forall>k. \<not> holder_key ps k \<longrightarrow> objs s' k = fold (import_store ps bs) fs' (objs s2) k"
    using Cons.IH [OF fs(3) conf _ w(2) n(2), of s2] Cons.prems(3) free2 by (fastforce simp: fs(1))
  have "import_name (abs_path bs) (th_name h) = abs_path (ds @ [x])"
    using import_name_abs [OF bs(1), of nm] e nm by simp
  then have "import_entries fuel i n (s, tr) = (None, s', tr')"
    using nxt(1) w(1) rest(1) by (simp add: n(1) assms(2))
  moreover have "objs s' k = fold (import_store ps bs) fs (objs s) k" if "\<not> holder_key ps k" for k
    using rest(2) that import_store_agree [of "holder_key ps" "objs s2" "import_store ps bs (nm, d) (objs s)" k ps bs fs'] s2
    by (simp add: fs(1))
  ultimately show ?case by blast
qed

end

lemma set_butlast: "set (butlast xs) \<subseteq> set xs"
  by (induction xs) auto

text \<open>C37: Importing an archive of files into a directory of the S3 file system succeeds when no file is in the way of a
  directory, and leaves what storing the files one after the other leaves: each under its name below the
  directory, with its bytes, the last of a name winning; a file without bytes leaves nothing; and apart from the
  placeholders of directories no other object changes.\<close>

theorem Tar_import_S3:
  assumes "s3_reliable F objs ps legal" "ti_fsys i = s3_filesystem fl F meta" "ti_dest i = abs_path bs" "s3_presignForWrite F = None"
    and "list_all name_ok bs" "dirHolder \<notin> set bs" "way_free ps legal (objs s) bs"
    and "list_all2 (entry_of_file fuel) es fs" "no_conflict bs fs"
    and "\<forall>(nm, d) \<in> set fs. legal (key_of ps (bs @ nm)) \<and> way_free ps legal (objs s) (butlast (bs @ nm))"
  shows "\<exists>s'. ImportFrom fuel i es EOF s = (None, s')
    \<and> (\<forall>k. \<not> holder_key ps k \<longrightarrow> objs s' k = fold (import_store ps bs) fs (objs s) k)"
proof -
  note rel = assms(1)
  obtain s1 where mk: "MkdirAll (s3_filesystem fl F meta) (abs_path bs) s = (None, s1)" "holders_added ps (objs s) (objs s1)"
    using s3_reliable.MkdirAll_ok [OF rel assms(5-7)] by blast
  have same: "objs s1 k = objs s k" if "\<not> holder_key ps k" for k by (rule holders_added_other [OF mk(2) that])
  have free: "way_free ps legal (objs s1) (butlast (bs @ nm))" if "(nm, d) \<in> set fs" for nm d
  proof (rule way_free_agree)
    show "way_free ps legal (objs s) (butlast (bs @ nm))" using assms(10) that by auto
    have nm: "list_all name_ok (butlast (bs @ nm))" "dirHolder \<notin> set (butlast (bs @ nm))"
      using entry_names [OF assms(8) that] assms(5,6) set_butlast [of "bs @ nm"] by (auto simp: list_all_iff)
    fix cs es' assume "butlast (bs @ nm) = cs @ es'"
    then have "list_all name_ok cs" "dirHolder \<notin> set cs" using nm by simp_all
    then show "objs s1 (key_of ps cs) = objs s (key_of ps cs)" by (intro same s3_reliable.not_holder [OF rel])
  qed
  have "reads_entry es EOF [] (tar_NewReader es EOF)" by (simp add: reads_entry_def tar_NewReader_def)
  then obtain s' tr' where run: "import_entries fuel i (Suc (length es)) (s1, tar_NewReader es EOF) = (None, s', tr')"
    "\<forall>k. \<not> holder_key ps k \<longrightarrow> objs s' k = fold (import_store ps bs) fs (objs s1) k"
    using s3_reliable.import_all [OF rel assms(2-6,8,9), of s1 "tar_NewReader es EOF" "Suc (length es)"] assms(10) free by fastforce
  have root: "abs_path bs \<noteq> []" by (simp add: abs_path_def)
  have "ImportFrom fuel i es EOF s = (None, s')"
    using mk(1) run(1) root by (simp add: ImportFrom_def assms(2,3))
  moreover have "objs s' k = fold (import_store ps bs) fs (objs s) k" if "\<not> holder_key ps k" for k
    using run(2) that import_store_agree [of "holder_key ps" "objs s1" "objs s" k ps bs fs] same by simp
  ultimately show ?thesis by blast
qed

lemma name_ok_in [simp]: "name_ok ''in''"
  by (simp add: name_ok_def good_elem_def)

text \<open>An archive with a file that is cut in two pieces, one in a directory, and one without bytes.\<close>

definition sample_archive :: "(tar_header \<times> bytes list) list" where
  "sample_archive = map (\<lambda>(n, pcs). (\<lparr>th_name = n, th_size = int (length (concat pcs)), th_mode = 0x1A4, th_type = TypeReg\<rparr>, pcs))
     [(''a'', [''x'', ''yz'']), (''d/b'', [''q'']), (''c'', [])]"

definition sample_importer :: "('o s3file, 's) filesystem \<Rightarrow> ('o s3file, 's) tar_importer" where
  "sample_importer fsys = tar_To fsys [WithDest ''/in'']"

theorem Tar_import_S3_witness:
  "\<exists>s'. ImportFrom 4 (sample_importer (s3_filesystem 1 good_fs (\<lambda>_. []))) sample_archive EOF ([], ()) = (None, s')
    \<and> ref_objs s' ''in/a'' = Some ''xyz'' \<and> ref_objs s' ''in/d/b'' = Some ''q'' \<and> ref_objs s' ''in/c'' = None"
proof -
  let ?fs = "[([''a''], ''xyz''), ([''d'', ''b''], ''q''), ([''c''], [])]"
  let ?i = "sample_importer (s3_filesystem 1 good_fs (\<lambda>_. []))"
  have i: "ti_fsys ?i = s3_filesystem 1 good_fs (\<lambda>_. [])" "ti_dest ?i = abs_path [''in'']"
    by (simp_all add: sample_importer_def tar_To_def importer_Build_def WithDest_def abs_paths)
  have empty: "ref_objs ([], ()) = Map.empty" by (simp add: ref_objs_def)
  have free: "way_free [] ref_legal Map.empty [''in'']" "way_free [] ref_legal Map.empty [''in'', ''d'']"
    by (simp_all add: way_free_prefixes ref_legal_def key_of_def dirHolder_def)
  have files: "list_all2 (entry_of_file 4) sample_archive ?fs"
    by (simp add: sample_archive_def dirHolder_def)
  have conf: "no_conflict [''in''] ?fs" by (auto simp: no_conflict_def strict_prefix_def)
  have ok: "\<forall>(nm, d) \<in> set ?fs. ref_legal (key_of [] ([''in''] @ nm)) \<and> way_free [] ref_legal (ref_objs ([], ())) (butlast ([''in''] @ nm))"
    using free by (simp add: ref_legal_def key_of_def empty)
  have bs: "list_all name_ok [''in'']" "dirHolder \<notin> set [''in'']" by (simp_all add: dirHolder_def)
  have free_in: "way_free [] ref_legal (ref_objs ([], ())) [''in'']" using free by (simp add: empty)
  have plain: "s3_presignForWrite (good_fs :: (bytes option \<times> nat, unit store) s3fs) = None" by simp
  obtain s' where run: "ImportFrom 4 ?i sample_archive EOF ([], ()) = (None, s')"
    "\<forall>k. \<not> holder_key [] k \<longrightarrow> ref_objs s' k = fold (import_store [] [''in'']) ?fs (ref_objs ([], ())) k"
    using Tar_import_S3 [OF ref_good.s3_reliable_axioms i plain bs free_in files conf ok] by blast
  have keys: "\<not> holder_key [] (key_of [] [''in'', ''a''])" "\<not> holder_key [] (key_of [] [''in'', ''d'', ''b''])"
    "\<not> holder_key [] (key_of [] [''in'', ''c''])"
    by (rule ref_good.not_holder; simp add: dirHolder_def)+
  show ?thesis
    using run(1) run(2) [rule_format, OF keys(1)] run(2) [rule_format, OF keys(2)] run(2) [rule_format, OF keys(3)]
    by (simp add: key_of_def empty del: split_paired_Ex)
qed

text \<open>C38: An entry whose name has no element \<open>..\<close> is imported below the destination, whatever else the name holds. Nothing
  looks for the others: the entry \<open>../x\<close> of an archive that is imported into a directory of the S3 file system
  is written beside that directory, over the file that is there.\<close>

theorem Tar_import_confined:
  assumes "s3_reliable F objs ps legal" "ti_fsys i = s3_filesystem fl F meta" "ti_dest i = abs_path (bs @ [b])"
    and "s3_presignForWrite F = None" "list_all name_ok (bs @ [b, x])" "dirHolder \<notin> set bs"
    and "way_free ps legal (objs s) bs" "legal (key_of ps (bs @ [x]))"
    and "h = \<lparr>th_name = ''../'' @ x, th_size = int (length d), th_mode = mode, th_type = TypeReg\<rparr>" "d \<noteq> []" "length d < fuel"
  shows "(\<forall>name. ''..'' \<notin> set (split_on slash name) \<longrightarrow> name \<noteq> [] \<longrightarrow>
      (\<exists>cs. list_all name_ok cs \<and> import_name (ti_dest i) name = abs_path ((bs @ [b]) @ cs)))
    \<and> (\<exists>s' tr'. tar_writeFile fuel i (import_name (ti_dest i) (th_name h)) h
          (s, \<lparr>tr_pieces = [d], tr_left = th_size h, tr_rest = [], tr_end = EOF\<rparr>) = (None, s', tr')
        \<and> objs s' (key_of ps (bs @ [x])) = Some d)"
proof (intro conjI allI impI)
  fix name assume "''..'' \<notin> set (split_on slash name)" "name \<noteq> []"
  then show "\<exists>cs. list_all name_ok cs \<and> import_name (ti_dest i) name = abs_path ((bs @ [b]) @ cs)"
    using path_join_elems [of "bs @ [b]" name] assms(5) filter_good_split [of name]
    by (intro exI [of _ "filter good_elem (split_on slash name)"]) (simp add: import_name_def assms(3) abs_path_def)
next
  let ?tr = "\<lparr>tr_pieces = [d], tr_left = th_size h, tr_rest = [], tr_end = EOF\<rparr>"
  have x: "split_on slash (''../'' @ x) = [''..'', x]" "good_elem x"
    using assms(5) split_on_append [of slash "''..''" x] by (simp_all add: split_on_id name_ok_def)
  have base: "abs_path (bs @ [b]) \<noteq> []" by (simp add: abs_path_def)
  then have "path_elems (abs_path (bs @ [b]) @ slash # ''../'' @ x) = bs @ [x]"
    using path_elems_join [of "abs_path (bs @ [b])" "''../'' @ x"] path_elems_abs [of "bs @ [b]"] assms(5) x
    by (simp add: clean_step_def name_ok_def good_elem_def)
  then have name: "import_name (ti_dest i) (th_name h) = abs_path (bs @ [x])"
    using base by (simp add: import_name_def assms(3,9) path_join_base)
  have entry: "reads_entry [] EOF d ?tr" using assms(10) by (simp add: reads_entry_def assms(9))
  have ok: "list_all name_ok (bs @ [x])" "th_size h = int (length d)" using assms(5,9) by simp_all
  obtain s' tr' M where "tar_writeFile fuel i (abs_path (bs @ [x])) h (s, ?tr) = (None, s', tr')"
    "objs s' = (if d = [] then M else M(key_of ps (bs @ [x]) \<mapsto> d))"
    using s3_reliable.writeFile_stores [OF assms(1,2,4) ok(1) assms(6-8) entry ok(2) assms(11)] by blast
  then show "\<exists>s' tr'. tar_writeFile fuel i (import_name (ti_dest i) (th_name h)) h (s, ?tr) = (None, s', tr')
      \<and> objs s' (key_of ps (bs @ [x])) = Some d"
    using assms(10) unfolding name by auto
qed

theorem Tar_import_confined_witness:
  "\<exists>s' tr'. tar_writeFile 9 (sample_importer (s3_filesystem 1 good_fs (\<lambda>_. []))) (import_name ''/in'' ''../a'')
      \<lparr>th_name = ''../a'', th_size = 4, th_mode = 0, th_type = TypeReg\<rparr>
      (([(''a'', ''mine'')], ()), \<lparr>tr_pieces = [''evil''], tr_left = 4, tr_rest = [], tr_end = EOF\<rparr>) = (None, s', tr')
    \<and> ref_objs s' ''a'' = Some ''evil''"
proof -
  let ?i = "sample_importer (s3_filesystem 1 good_fs (\<lambda>_. []))" and ?s = "([(''a'', ''mine'')], ())"
  let ?h = "\<lparr>th_name = ''../a'', th_size = 4, th_mode = 0, th_type = TypeReg\<rparr>"
  have i: "ti_fsys ?i = s3_filesystem 1 good_fs (\<lambda>_. [])" "ti_dest ?i = abs_path ([] @ [''in''])"
    by (simp_all add: sample_importer_def tar_To_def importer_Build_def WithDest_def abs_paths)
  have ok: "list_all name_ok ([] @ [''in'', ''a''])" "dirHolder \<notin> set []" "way_free [] ref_legal (ref_objs ?s) []"
    "ref_legal (key_of [] ([] @ [''a'']))" by (simp_all add: way_free_def key_of_def ref_legal_def)
  have h: "?h = \<lparr>th_name = ''../'' @ ''a'', th_size = int (length ''evil''), th_mode = 0, th_type = TypeReg\<rparr>" by simp
  have plain: "s3_presignForWrite (good_fs :: (bytes option \<times> nat, unit store) s3fs) = None" by simp
  have "length ''evil'' < 9" "''evil'' \<noteq> []" by simp_all
  note run = Tar_import_confined [of good_fs ref_objs "[]" ref_legal ?i 1 "\<lambda>_. []" "[]" "''in''" "''a''" ?s ?h "''evil''" 0 9,
      OF ref_good.s3_reliable_axioms i plain ok h this(2,1), THEN conjunct2]
  have dest: "ti_dest ?i = ''/in''" using i(2) by (simp add: abs_paths)
  have key: "key_of [] ([] @ [''a'']) = ''a''" by (simp add: key_of_def)
  show ?thesis using run unfolding dest key by simp
qed

end
