(* ===== verification/Uploads.thy ===== *)
theory Uploads
  imports Go_Prelude
begin

text \<open>
  The uploads of the three file systems as what they are in the code, two goroutines and a pipe: the caller's
  calls of \<open>Write\<close> and \<open>Close\<close> (\<open>s3/file.go\<close>, \<open>ftp/file.go\<close>, \<open>webdav/file.go\<close>), and the goroutine that the first
  \<open>Write\<close> starts (for WebDAV: that opening the file starts, \<open>client/client.go\<close>), which makes a request and feeds it
  from the pipe. The steps of both are a transition relation. The file systems of the other theories
  run the two in one order; here every order is possible. Over S3 and FTP the goroutine is there from the first
  \<open>Write\<close> on, so the runs are those of at least one chunk; without one, \<open>Close\<close> has nothing to wait for.
  A service that answers success before it has read the whole body is not considered.
\<close>

section \<open>The steps\<close>

text \<open>
  \<open>io.Pipe\<close>: a \<open>Write\<close> waits until readers have taken all its bytes, in pieces of their choice, or until an end is closed.
  After the writer's end is closed readers get the end of the file; after the reader's end is, writers
  get an error. The end that is closed first decides.
\<close>

datatype pipe_state = PipeOpen | WriterClosed | ReaderClosed

text \<open>The caller: before its next \<open>Write\<close> (or \<open>Close\<close>, when nothing is left), in a \<open>Write\<close> with bytes not yet taken, in
  \<open>Close\<close>, or after it, with \<open>True\<close> for an answer without an error. A \<open>Write\<close> that fails is the last.\<close>

datatype caller = Next "bytes list" | Sending bytes "bytes list" | Closing | Closed bool

text \<open>The goroutine: before the request reads from the pipe (over S3 it stores a placeholder first, over
  WebDAV it makes the request), while it reads, when the outcome is known, and after its deferred
  calls.\<close>

datatype feeder = Preparing | Reading | Finished bool | Gone bool

record upload_state =
  up_caller :: caller
  up_feeder :: feeder
  up_pipe :: pipe_state
  up_got :: bytes
  up_failed :: bool

text \<open>
  Where the three differ: whether the reader's end is closed when there is nothing to feed, and
  what \<open>Close\<close> answers at a point of the goroutine (\<open>None\<close>: it still waits). Over S3 it receives the
  outcome; over FTP it waits for the goroutine but not for its error; over WebDAV it does not wait.
\<close>

record upload_code =
  uc_closes_refused :: bool
  uc_answer :: "feeder \<Rightarrow> bool option"

definition s3_upload :: upload_code where
  "s3_upload = \<lparr>uc_closes_refused = True,
     uc_answer = (\<lambda>g. case g of Preparing \<Rightarrow> None | Reading \<Rightarrow> None | Finished ok \<Rightarrow> Some ok | Gone ok \<Rightarrow> Some ok)\<rparr>"

definition ftp_upload :: upload_code where
  "ftp_upload = \<lparr>uc_closes_refused = True, uc_answer = (\<lambda>g. case g of Gone ok \<Rightarrow> Some True | _ \<Rightarrow> None)\<rparr>"

definition dav_upload :: upload_code where
  "dav_upload = \<lparr>uc_closes_refused = False, uc_answer = (\<lambda>g. Some True)\<rparr>"

definition upload_start :: "bytes list \<Rightarrow> upload_state" where
  "upload_start chunks = \<lparr>up_caller = Next chunks, up_feeder = Preparing, up_pipe = PipeOpen, up_got = [], up_failed = False\<rparr>"

text \<open>The steps that are taken when nothing goes wrong on the way.\<close>

inductive upload_step :: "upload_code \<Rightarrow> upload_state \<Rightarrow> upload_state \<Rightarrow> bool" for c where
  begin_write: "up_caller u = Next (p # ps) \<Longrightarrow> up_pipe u = PipeOpen \<Longrightarrow> upload_step c u (u\<lparr>up_caller := Sending p ps\<rparr>)"
| write_closed: "up_caller u = Next (p # ps) \<Longrightarrow> up_pipe u = ReaderClosed \<Longrightarrow>
    upload_step c u (u\<lparr>up_caller := Next [], up_failed := True\<rparr>)"
| transfer: "up_caller u = Sending b ps \<Longrightarrow> up_feeder u = Reading \<Longrightarrow> up_pipe u = PipeOpen \<Longrightarrow> k \<le> length b \<Longrightarrow> 0 < k \<or> b = [] \<Longrightarrow>
    upload_step c u (u\<lparr>up_got := up_got u @ take k b, up_caller := (if k = length b then Next ps else Sending (drop k b) ps)\<rparr>)"
| broken: "up_caller u = Sending b ps \<Longrightarrow> up_pipe u = ReaderClosed \<Longrightarrow> upload_step c u (u\<lparr>up_caller := Next [], up_failed := True\<rparr>)"
| closing: "up_caller u = Next [] \<Longrightarrow>
    upload_step c u (u\<lparr>up_caller := Closing, up_pipe := (if up_pipe u = PipeOpen then WriterClosed else up_pipe u)\<rparr>)"
| answered: "up_caller u = Closing \<Longrightarrow> uc_answer c (up_feeder u) = Some r \<Longrightarrow> upload_step c u (u\<lparr>up_caller := Closed r\<rparr>)"
| prepared: "up_feeder u = Preparing \<Longrightarrow> upload_step c u (u\<lparr>up_feeder := Reading\<rparr>)"
| end_of_file: "up_feeder u = Reading \<Longrightarrow> up_pipe u = WriterClosed \<Longrightarrow> upload_step c u (u\<lparr>up_feeder := Finished ok\<rparr>)"
| leaving: "up_feeder u = Finished ok \<Longrightarrow>
    upload_step c u (u\<lparr>up_feeder := Gone ok, up_pipe := (if up_pipe u = PipeOpen then ReaderClosed else up_pipe u)\<rparr>)"

text \<open>What may go wrong: the request is not made, or it breaks off while it reads.\<close>

inductive upload_fault :: "upload_code \<Rightarrow> upload_state \<Rightarrow> upload_state \<Rightarrow> bool" for c where
  refused: "up_feeder u = Preparing \<Longrightarrow>
    upload_fault c u (u\<lparr>up_feeder := (if uc_closes_refused c then Finished False else Gone False)\<rparr>)"
| aborted: "up_feeder u = Reading \<Longrightarrow> upload_fault c u (u\<lparr>up_feeder := Finished False\<rparr>)"

inductive upload_run :: "upload_code \<Rightarrow> upload_state \<Rightarrow> nat \<Rightarrow> upload_state \<Rightarrow> bool" for c u where
  run_none: "upload_run c u 0 u"
| run_more: "upload_run c u n v \<Longrightarrow> upload_step c v w \<or> upload_fault c v w \<Longrightarrow> upload_run c u (Suc n) w"

lemma ex_bool [simp]: "\<exists>b. b" "\<exists>b. \<not> b"
  by (rule exI [of _ True], simp) (rule exI [of _ False], simp)

lemma step_to: "upload_step c u v \<Longrightarrow> v = w \<Longrightarrow> upload_step c u w"
  by simp

lemma fault_to: "upload_fault c u v \<Longrightarrow> v = w \<Longrightarrow> upload_fault c u w"
  by simp

inductive_simps upload_step_iff: "upload_step c u v"
inductive_simps upload_fault_iff: "upload_fault c u v"

lemma transfer_to:
  assumes "up_caller u = Sending b ps" "up_feeder u = Reading" "up_pipe u = PipeOpen" "k \<le> length b" "0 < k \<or> b = []"
    and "v = u\<lparr>up_got := up_got u @ take k b, up_caller := (if k = length b then Next ps else Sending (drop k b) ps)\<rparr>"
  shows "upload_step c u v"
  unfolding assms(6) by (rule upload_step.transfer [OF assms(1-5)])

section \<open>Every run ends\<close>

fun caller_left :: "caller \<Rightarrow> nat" where
  "caller_left (Next ps) = length (concat ps) + 2 * length ps + 2"
| "caller_left (Sending b ps) = length b + 1 + (length (concat ps) + 2 * length ps + 2)"
| "caller_left Closing = 1"
| "caller_left (Closed r) = 0"

fun feeder_left :: "feeder \<Rightarrow> nat" where
  "feeder_left Preparing = 3"
| "feeder_left Reading = 2"
| "feeder_left (Finished ok) = 1"
| "feeder_left (Gone ok) = 0"

definition upload_left :: "upload_state \<Rightarrow> nat" where
  "upload_left u = caller_left (up_caller u) + feeder_left (up_feeder u)"

lemma upload_step_left: "upload_step c u v \<Longrightarrow> upload_left v < upload_left u"
  by (induction rule: upload_step.induct) (auto simp: upload_left_def)

lemma upload_fault_left: "upload_fault c u v \<Longrightarrow> upload_left v < upload_left u"
  by (induction rule: upload_fault.induct) (simp_all add: upload_left_def)

lemma upload_run_left: "upload_run c u n v \<Longrightarrow> n + upload_left v \<le> upload_left u"
  by (induction rule: upload_run.induct) (auto dest: upload_step_left upload_fault_left)

section \<open>What holds on the way\<close>

text \<open>What the caller has still to hand over.\<close>

fun caller_has :: "caller \<Rightarrow> bytes" where
  "caller_has (Next ps) = concat ps"
| "caller_has (Sending b ps) = b @ concat ps"
| "caller_has _ = []"

fun in_close :: "caller \<Rightarrow> bool" where
  "in_close (Next ps) = False"
| "in_close (Sending b ps) = False"
| "in_close Closing = True"
| "in_close (Closed r) = True"

definition feeder_done :: "feeder \<Rightarrow> bool \<Rightarrow> bool" where
  "feeder_done g ok \<longleftrightarrow> g = Finished ok \<or> g = Gone ok"

definition upload_inv :: "upload_code \<Rightarrow> bytes list \<Rightarrow> upload_state \<Rightarrow> bool" where
  "upload_inv c chunks u \<longleftrightarrow>
     prefix (up_got u) (concat chunks)
     \<and> (\<not> up_failed u \<longrightarrow> up_got u @ caller_has (up_caller u) = concat chunks)
     \<and> (up_failed u \<longrightarrow> up_pipe u = ReaderClosed \<and> (up_caller u = Next [] \<or> in_close (up_caller u)))
     \<and> (up_pipe u = ReaderClosed \<longrightarrow> up_feeder u = Gone False)
     \<and> (up_pipe u = PipeOpen \<longrightarrow> \<not> in_close (up_caller u))
     \<and> (up_pipe u = WriterClosed \<longrightarrow> in_close (up_caller u))
     \<and> (feeder_done (up_feeder u) True \<longrightarrow> up_pipe u = WriterClosed)
     \<and> (uc_closes_refused c \<longrightarrow> up_feeder u = Gone False \<longrightarrow> up_pipe u \<noteq> PipeOpen)"

lemma upload_step_inv: "upload_step c u v \<Longrightarrow> upload_inv c chunks u \<Longrightarrow> upload_inv c chunks v"
proof (induction rule: upload_step.induct)
  case (transfer u b ps k)
  then have "up_got u @ b @ concat ps = concat chunks" by (auto simp: upload_inv_def)
  then have fed: "up_got u @ take k b @ drop k b @ concat ps = concat chunks" by (metis append.assoc append_take_drop_id)
  then have "prefix (up_got u @ take k b) (concat chunks)" by (metis append.assoc prefixI)
  with fed transfer show ?case by (auto simp: upload_inv_def feeder_done_def)
next
  case (begin_write u p ps) then show ?case by (auto simp: upload_inv_def)
next
  case (write_closed u p ps) then show ?case by (auto simp: upload_inv_def)
next
  case (broken u b ps) then show ?case by (auto simp: upload_inv_def)
next
  case (closing u) then show ?case by (auto simp: upload_inv_def)
next
  case (answered u r) then show ?case by (auto simp: upload_inv_def)
next
  case (prepared u) then show ?case by (auto simp: upload_inv_def feeder_done_def)
next
  case (end_of_file u ok) then show ?case by (auto simp: upload_inv_def feeder_done_def)
next
  case (leaving u ok) then show ?case by (cases ok) (auto simp: upload_inv_def feeder_done_def)
qed

lemma upload_fault_inv: "upload_fault c u v \<Longrightarrow> upload_inv c chunks u \<Longrightarrow> upload_inv c chunks v"
  by (induction rule: upload_fault.induct) (auto simp: upload_inv_def feeder_done_def)

lemma upload_run_inv: "upload_run c u n v \<Longrightarrow> upload_inv c chunks u \<Longrightarrow> upload_inv c chunks v"
  by (induction rule: upload_run.induct) (auto dest: upload_step_inv upload_fault_inv)

lemma upload_start_inv: "upload_inv c chunks (upload_start chunks)"
  by (simp add: upload_inv_def upload_start_def feeder_done_def)

lemmas upload_reached = upload_run_inv [OF _ upload_start_inv]

text \<open>An outcome that is a success: everything was fed.\<close>

lemma upload_all_fed:
  assumes "upload_inv c chunks u" "feeder_done (up_feeder u) True"
  shows "\<not> up_failed u \<and> up_got u = concat chunks"
  using assms by (cases "up_caller u") (auto simp: upload_inv_def)

text \<open>Nobody waits for ever: where no step is possible both goroutines are through.\<close>

lemma upload_not_stuck:
  assumes "upload_inv c chunks u" "uc_closes_refused c" "\<And>ok. uc_answer c (Gone ok) \<noteq> None" "\<nexists>v. upload_step c u v"
  shows "\<exists>r ok. up_caller u = Closed r \<and> up_feeder u = Gone ok"
proof -
  have no: "\<not> upload_step c u v" for v using assms(4) by blast
  obtain ok where g: "up_feeder u = Gone ok"
  proof (cases "up_feeder u")
    case Preparing
    then show ?thesis using no upload_step.prepared by blast
  next
    case Reading
    show ?thesis
    proof (cases "up_pipe u")
      case PipeOpen
      show ?thesis
      proof (cases "up_caller u")
        case (Next ps)
        then show ?thesis using no PipeOpen upload_step.begin_write upload_step.closing by (cases ps) blast+
      next
        case (Sending b ps)
        then show ?thesis using no upload_step.transfer [OF Sending Reading PipeOpen order_refl] by fastforce
      qed (use PipeOpen assms(1) in \<open>auto simp: upload_inv_def\<close>)
    qed (use no Reading assms(1) upload_step.end_of_file in \<open>auto simp: upload_inv_def\<close>)
  next
    case (Finished ok)
    then show ?thesis using no upload_step.leaving by blast
  qed (use that in blast)
  have p: "up_pipe u \<noteq> PipeOpen" using assms(1,2) g by (cases ok) (auto simp: upload_inv_def feeder_done_def)
  obtain r where a: "uc_answer c (up_feeder u) = Some r" using assms(3) g by fastforce
  have "\<exists>r. up_caller u = Closed r"
  proof (cases "up_caller u")
    case (Next ps)
    then show ?thesis
      using no p assms(1) upload_step.closing [of u c] upload_step.write_closed [of u _ _ c]
      by (cases ps; cases "up_pipe u") (auto simp: upload_inv_def)
  next
    case (Sending b ps)
    then show ?thesis
      using no p assms(1) upload_step.broken [of u b ps c] by (cases "up_pipe u") (auto simp: upload_inv_def)
  next
    case Closing
    then show ?thesis using no upload_step.answered [OF Closing a] by blast
  qed blast
  with g show ?thesis by blast
qed

section \<open>Properties\<close>

text \<open>C15: An upload to S3 or FTP always ends, whatever the order in which the caller, the goroutine and the service act and
  whatever goes wrong: there is a bound on the number of steps, and where no step is possible \<open>Close\<close> has returned and the goroutine
  has ended; and if the service's answer was a success, it was fed exactly the concatenation of the
  chunks.\<close>

theorem upload_ends:
  assumes "c \<in> {s3_upload, ftp_upload}" "chunks \<noteq> []" "upload_run c (upload_start chunks) n u"
  shows "n \<le> length (concat chunks) + 2 * length chunks + 5
    \<and> ((\<nexists>v. upload_step c u v) \<longrightarrow>
        (\<exists>r ok. up_caller u = Closed r \<and> up_feeder u = Gone ok \<and> (ok \<longrightarrow> up_got u = concat chunks)))"
proof -
  note inv = upload_reached [OF assms(3)]
  have "n \<le> length (concat chunks) + 2 * length chunks + 5"
    using upload_run_left [OF assms(3)] by (simp add: upload_left_def upload_start_def)
  moreover have "\<exists>r ok. up_caller u = Closed r \<and> up_feeder u = Gone ok \<and> (ok \<longrightarrow> up_got u = concat chunks)"
    if "\<nexists>v. upload_step c u v"
  proof -
    have "uc_closes_refused c" "\<And>ok. uc_answer c (Gone ok) \<noteq> None"
      using assms(1) by (auto simp: s3_upload_def ftp_upload_def)
    from upload_not_stuck [OF inv this that] upload_all_fed [OF inv]
    show ?thesis by (auto simp: feeder_done_def)
  qed
  ultimately show ?thesis by blast
qed

lemma run_step: "upload_run c u n v \<Longrightarrow> upload_step c v w \<Longrightarrow> upload_run c u (Suc n) w"
  by (rule run_more) blast+

lemma run_fault: "upload_run c u n v \<Longrightarrow> upload_fault c v w \<Longrightarrow> upload_run c u (Suc n) w"
  by (rule run_more) blast+

text \<open>The service refuses the placeholder while the first \<open>Write\<close> waits: the \<open>Write\<close> fails, and so does \<open>Close\<close>.\<close>

definition refused_end :: upload_state where
  "refused_end = \<lparr>up_caller = Closed False, up_feeder = Gone False, up_pipe = ReaderClosed, up_got = [], up_failed = True\<rparr>"

lemma refused_run: "upload_run s3_upload (upload_start [''ab'', ''c'']) 6 refused_end"
proof -
  let ?run = "upload_run s3_upload (upload_start [''ab'', ''c''])"
  have "?run 0 \<lparr>up_caller = Next [''ab'', ''c''], up_feeder = Preparing, up_pipe = PipeOpen, up_got = [], up_failed = False\<rparr>"
    by (simp add: run_none upload_start_def)
  then have "?run (Suc 0) \<lparr>up_caller = Sending ''ab'' [''c''], up_feeder = Preparing, up_pipe = PipeOpen, up_got = [], up_failed = False\<rparr>"
    by (rule run_step) (simp add: upload_step_iff)
  then have "?run (Suc (Suc 0)) \<lparr>up_caller = Sending ''ab'' [''c''], up_feeder = Finished False, up_pipe = PipeOpen, up_got = [], up_failed = False\<rparr>"
    by (rule run_fault) (simp add: upload_fault_iff s3_upload_def)
  then have "?run (Suc (Suc (Suc 0))) \<lparr>up_caller = Sending ''ab'' [''c''], up_feeder = Gone False, up_pipe = ReaderClosed, up_got = [], up_failed = False\<rparr>"
    by (rule run_step) (simp add: upload_step_iff)
  then have "?run (Suc (Suc (Suc (Suc 0)))) \<lparr>up_caller = Next [], up_feeder = Gone False, up_pipe = ReaderClosed, up_got = [], up_failed = True\<rparr>"
    by (rule run_step) (simp add: upload_step_iff)
  then have "?run (Suc (Suc (Suc (Suc (Suc 0))))) \<lparr>up_caller = Closing, up_feeder = Gone False, up_pipe = ReaderClosed, up_got = [], up_failed = True\<rparr>"
    by (rule run_step) (simp add: upload_step_iff)
  then have "?run (Suc (Suc (Suc (Suc (Suc (Suc 0)))))) refused_end"
    by (rule run_step) (simp add: upload_step_iff s3_upload_def refused_end_def)
  then show ?thesis by (simp add: eval_nat_numeral)
qed

theorem upload_ends_witness: "(6 :: nat) \<le> 3 + 2 * 2 + 5 \<and> (\<nexists>v. upload_step s3_upload refused_end v)"
  using upload_ends [OF _ _ refused_run] by (auto simp: upload_step_iff refused_end_def)

text \<open>Over S3 the answer of \<open>Close\<close> is the outcome.\<close>

lemma s3_upload_answer:
  assumes "upload_run s3_upload (upload_start chunks) n u"
  shows "\<forall>r. up_caller u = Closed r \<longrightarrow> feeder_done (up_feeder u) r"
  using assms
proof (induction rule: upload_run.induct)
  case (run_more n v w)
  show ?case using run_more.hyps(2)
  proof
    assume "upload_step s3_upload v w"
    then show ?thesis using run_more.IH
      by (induction rule: upload_step.induct) (auto simp: feeder_done_def s3_upload_def split: feeder.splits)
  next
    assume "upload_fault s3_upload v w"
    then show ?thesis using run_more.IH by (induction rule: upload_fault.induct) (auto simp: feeder_done_def)
  qed
qed (simp add: upload_start_def)

text \<open>C16: Over S3 \<open>Close\<close> tells the truth: in every run in which it answers without an error all the calls of \<open>Write\<close> have
  succeeded and the service has answered success to exactly the concatenation of their chunks.\<close>

theorem Close_answer:
  assumes "chunks \<noteq> []" "upload_run s3_upload (upload_start chunks) n u" "up_caller u = Closed True"
  shows "\<not> up_failed u \<and> up_got u = concat chunks \<and> (up_feeder u = Finished True \<or> up_feeder u = Gone True)"
proof -
  have "feeder_done (up_feeder u) True" using s3_upload_answer [OF assms(2)] assms(3) by blast
  with upload_all_fed [OF upload_reached [OF assms(2)]] show ?thesis by (auto simp: feeder_done_def)
qed

definition stored_end :: upload_state where
  "stored_end = \<lparr>up_caller = Closed True, up_feeder = Finished True, up_pipe = WriterClosed, up_got = ''ab'', up_failed = False\<rparr>"

lemma stored_run: "upload_run s3_upload (upload_start [''ab'']) 7 stored_end"
proof -
  let ?run = "upload_run s3_upload (upload_start [''ab''])"
  have "?run 0 \<lparr>up_caller = Next [''ab''], up_feeder = Preparing, up_pipe = PipeOpen, up_got = [], up_failed = False\<rparr>"
    by (simp add: run_none upload_start_def)
  then have "?run (Suc 0) \<lparr>up_caller = Next [''ab''], up_feeder = Reading, up_pipe = PipeOpen, up_got = [], up_failed = False\<rparr>"
    by (rule run_step) (simp add: upload_step_iff)
  then have "?run (Suc (Suc 0)) \<lparr>up_caller = Sending ''ab'' [], up_feeder = Reading, up_pipe = PipeOpen, up_got = [], up_failed = False\<rparr>"
    by (rule run_step) (simp add: upload_step_iff)
  then have "?run (Suc (Suc (Suc 0))) \<lparr>up_caller = Sending ''b'' [], up_feeder = Reading, up_pipe = PipeOpen, up_got = ''a'', up_failed = False\<rparr>"
    by (rule run_step) (rule transfer_to [where k = 1 and b = "''ab''" and ps = "[]"], simp_all)
  then have "?run (Suc (Suc (Suc (Suc 0)))) \<lparr>up_caller = Next [], up_feeder = Reading, up_pipe = PipeOpen, up_got = ''ab'', up_failed = False\<rparr>"
    by (rule run_step) (rule transfer_to [where k = 1 and b = "''b''" and ps = "[]"], simp_all)
  then have "?run (Suc (Suc (Suc (Suc (Suc 0))))) \<lparr>up_caller = Closing, up_feeder = Reading, up_pipe = WriterClosed, up_got = ''ab'', up_failed = False\<rparr>"
    by (rule run_step) (simp add: upload_step_iff)
  then have "?run (Suc (Suc (Suc (Suc (Suc (Suc 0)))))) \<lparr>up_caller = Closing, up_feeder = Finished True, up_pipe = WriterClosed, up_got = ''ab'', up_failed = False\<rparr>"
    by (rule run_step) (simp add: upload_step_iff)
  then have "?run (Suc (Suc (Suc (Suc (Suc (Suc (Suc 0))))))) stored_end"
    by (rule run_step) (simp add: upload_step_iff s3_upload_def stored_end_def)
  then show ?thesis by (simp add: eval_nat_numeral)
qed

theorem Close_answer_witness: "up_caller stored_end = Closed True \<and> up_got stored_end = concat [''ab'']"
  using Close_answer [OF _ stored_run] by (simp add: stored_end_def)

text \<open>The caller and the goroutine in step, until everything is written.\<close>

lemma writes_run:
  assumes "upload_run c w n u" "up_caller u = Next ps" "up_feeder u = Reading" "up_pipe u = PipeOpen"
  shows "\<exists>m. upload_run c w m (u\<lparr>up_caller := Next [], up_got := up_got u @ concat ps\<rparr>)"
  using assms
proof (induction ps arbitrary: n u)
  case (Cons p ps)
  have "upload_run c w (Suc n) (u\<lparr>up_caller := Sending p ps\<rparr>)"
    by (rule run_step [OF Cons.prems(1)], rule upload_step.begin_write) (use Cons.prems in simp_all)
  then have "upload_run c w (Suc (Suc n)) (u\<lparr>up_caller := Next ps, up_got := up_got u @ p\<rparr>)"
    by (rule run_step) (rule transfer_to [where k = "length p" and b = p and ps = ps], use Cons.prems in simp_all)
  from Cons.IH [OF this] show ?case using Cons.prems by simp
next
  case Nil
  have "u\<lparr>up_caller := Next []\<rparr> = u" using Nil.prems(2) by (cases u) simp
  with Nil.prems(1) show ?case by auto
qed

text \<open>C17: Over FTP and WebDAV \<open>Close\<close> hides failures: for all chunks there is a run in which every \<open>Write\<close> succeeds and \<open>Close\<close>
  answers without an error, although the service has refused the data.\<close>

theorem Close_hides_failure:
  assumes "c \<in> {ftp_upload, dav_upload}" "chunks \<noteq> []"
  shows "\<exists>n u. upload_run c (upload_start chunks) n u \<and> up_caller u = Closed True \<and> \<not> up_failed u \<and> up_feeder u = Gone False"
proof -
  let ?u = "\<lambda>w g p b. \<lparr>up_caller = w, up_feeder = g, up_pipe = p, up_got = b, up_failed = False\<rparr>"
  have "upload_run c (upload_start chunks) (Suc 0) (?u (Next chunks) Reading PipeOpen [])"
    by (rule run_step [OF run_none]) (rule step_to [OF upload_step.prepared]; simp add: upload_start_def)
  then obtain n where "upload_run c (upload_start chunks) n (?u (Next []) Reading PipeOpen (concat chunks))"
    using writes_run [of c "upload_start chunks" "Suc 0" "?u (Next chunks) Reading PipeOpen []" chunks] by auto
  then have "upload_run c (upload_start chunks) (Suc n) (?u Closing Reading WriterClosed (concat chunks))"
    by (rule run_step) (rule step_to [OF upload_step.closing]; simp)
  then have "upload_run c (upload_start chunks) (Suc (Suc n)) (?u Closing (Finished False) WriterClosed (concat chunks))"
    by (rule run_fault) (rule fault_to [OF upload_fault.aborted]; simp)
  then have "upload_run c (upload_start chunks) (Suc (Suc (Suc n))) (?u Closing (Gone False) WriterClosed (concat chunks))"
    by (rule run_step) (rule step_to [OF upload_step.leaving [where ok = False]]; simp)
  then have "upload_run c (upload_start chunks) (Suc (Suc (Suc (Suc n)))) (?u (Closed True) (Gone False) WriterClosed (concat chunks))"
    by (rule run_step) (rule step_to [OF upload_step.answered [where r = True]]; use assms in \<open>auto simp: ftp_upload_def dav_upload_def\<close>)
  then show ?thesis by (intro exI conjI) auto
qed

theorem Close_hides_failure_witness:
  "\<exists>n u. upload_run ftp_upload (upload_start [''ab'']) n u \<and> up_caller u = Closed True \<and> \<not> up_failed u \<and> up_feeder u = Gone False"
  by (rule Close_hides_failure) simp_all

text \<open>C18: Over WebDAV an upload whose request cannot be made is never noticed: the goroutine ends and leaves the pipe open,
  and from then on the first \<open>Write\<close> waits for ever; no run ever comes to \<open>Close\<close>.\<close>

theorem Dav_refused_upload_hangs:
  assumes "chunks \<noteq> []"
  shows "\<exists>u. upload_run dav_upload (upload_start chunks) 1 u \<and> up_feeder u = Gone False
    \<and> (\<forall>n v. upload_run dav_upload u n v \<longrightarrow> \<not> in_close (up_caller v))"
proof (intro exI conjI allI impI)
  let ?u = "upload_start chunks\<lparr>up_feeder := Gone False\<rparr>"
  show "upload_run dav_upload (upload_start chunks) 1 ?u"
    using run_fault [OF run_none, of dav_upload "upload_start chunks" ?u] by (simp add: upload_fault_iff dav_upload_def upload_start_def)
  show "up_feeder ?u = Gone False" by simp
  obtain p ps where c: "chunks = p # ps" using assms by (cases chunks) auto
  fix n v assume "upload_run dav_upload ?u n v"
  then have "up_feeder v = Gone False \<and> up_pipe v = PipeOpen \<and> (up_caller v = Next (p # ps) \<or> up_caller v = Sending p ps)"
  proof (induction rule: upload_run.induct)
    case run_none
    show ?case by (simp add: upload_start_def c)
  next
    case (run_more n v w)
    then show ?case by (auto simp: upload_step_iff upload_fault_iff)
  qed
  then show "\<not> in_close (up_caller v)" by auto
qed

theorem Dav_refused_upload_hangs_witness:
  "\<exists>u. upload_run dav_upload (upload_start [''a'']) 1 u \<and> up_feeder u = Gone False
    \<and> (\<forall>n v. upload_run dav_upload u n v \<longrightarrow> \<not> in_close (up_caller v))"
  by (rule Dav_refused_upload_hangs) simp

end
