(* ===== verification/Go_Quote.thy ===== *)
theory Go_Quote
  imports Go_Prelude
begin

text \<open>
  What the repository uses of package \<open>strconv\<close>: \<open>Quote\<close> (through the verb \<open>%q\<close>) and \<open>Unquote\<close>, with the UTF-8 decoding and
  encoding of package \<open>unicode/utf8\<close> they rest on. Bytes and runes are numbers. Which runes above Latin-1 are
  printable is a table of package \<open>strconv\<close>, the parameter \<open>tbl\<close>.
\<close>

section \<open>Runes\<close>

definition RuneError :: nat where
  "RuneError = 0xFFFD"

text \<open>\<open>DecodeRune\<close>: the rune and its width; a byte that begins no rune is \<open>RuneError\<close> with width one.\<close>

fun decode_rune :: "nat list \<Rightarrow> nat \<times> nat" where
  "decode_rune [] = (RuneError, 0)"
| "decode_rune (a # bs) =
     (if a < 128 then (a, 1)
      else if 194 \<le> a \<and> a \<le> 223 then
        (case bs of
           b # _ \<Rightarrow> if cont_byte b then ((a - 192) * 64 + (b - 128), 2) else (RuneError, 1)
         | [] \<Rightarrow> (RuneError, 1))
      else if 224 \<le> a \<and> a \<le> 239 then
        (case bs of
           b # c # _ \<Rightarrow>
             if cont_byte b \<and> (a = 224 \<longrightarrow> 160 \<le> b) \<and> (a = 237 \<longrightarrow> b \<le> 159) \<and> cont_byte c
             then ((a - 224) * 4096 + (b - 128) * 64 + (c - 128), 3) else (RuneError, 1)
         | _ \<Rightarrow> (RuneError, 1))
      else if 240 \<le> a \<and> a \<le> 244 then
        (case bs of
           b # c # d # _ \<Rightarrow>
             if cont_byte b \<and> (a = 240 \<longrightarrow> 144 \<le> b) \<and> (a = 244 \<longrightarrow> b \<le> 143) \<and> cont_byte c \<and> cont_byte d
             then ((a - 240) * 262144 + (b - 128) * 4096 + (c - 128) * 64 + (d - 128), 4) else (RuneError, 1)
         | _ \<Rightarrow> (RuneError, 1))
      else (RuneError, 1))"

definition valid_rune :: "nat \<Rightarrow> bool" where
  "valid_rune r \<longleftrightarrow> r < 0xD800 \<or> 0xDFFF < r \<and> r \<le> 0x10FFFF"

text \<open>\<open>AppendRune\<close>: an invalid rune is encoded as \<open>RuneError\<close>.\<close>

definition encode_rune :: "nat \<Rightarrow> nat list" where
  "encode_rune r =
     (if r < 128 then [r]
      else if r < 2048 then [192 + r div 64, 128 + r mod 64]
      else if \<not> valid_rune r then [239, 191, 189]
      else if r < 65536 then [224 + r div 4096, 128 + r div 64 mod 64, 128 + r mod 64]
      else [240 + r div 262144, 128 + r div 4096 mod 64, 128 + r div 64 mod 64, 128 + r mod 64])"

lemma decode_rune_width: "bs \<noteq> [] \<Longrightarrow> 0 < snd (decode_rune bs) \<and> snd (decode_rune bs) \<le> length bs"
  by (cases bs) (auto split: list.split)

text \<open>The six-bit digits of a rune.\<close>

lemma digits64:
  assumes "z < (64 :: nat)"
  shows "(u * 64 + z) div 64 = u" "(u * 64 + z) mod 64 = z"
  using assms by simp_all

lemma rune_digits3:
  assumes "y < (64 :: nat)" "z < 64"
  shows "(x * 4096 + y * 64 + z) div 64 = x * 64 + y" "(x * 4096 + y * 64 + z) mod 64 = z"
    "(x * 4096 + y * 64 + z) div 4096 = x" "(x * 4096 + y * 64 + z) div 64 mod 64 = y"
proof -
  have e: "x * 4096 + y * 64 + z = (x * 64 + y) * 64 + z" by simp
  show d: "(x * 4096 + y * 64 + z) div 64 = x * 64 + y" "(x * 4096 + y * 64 + z) mod 64 = z"
    unfolding e by (rule digits64 [OF assms(2)])+
  then have "(x * 4096 + y * 64 + z) div 64 div 64 = x" using digits64(1) [OF assms(1)] by simp
  then show "(x * 4096 + y * 64 + z) div 4096 = x" by (simp add: div_mult2_eq [symmetric])
  show "(x * 4096 + y * 64 + z) div 64 mod 64 = y" using d digits64(2) [OF assms(1)] by simp
qed

lemma rune_digits4:
  assumes "x < (64 :: nat)" "y < 64" "z < 64"
  shows "(v * 262144 + x * 4096 + y * 64 + z) mod 64 = z" "(v * 262144 + x * 4096 + y * 64 + z) div 64 mod 64 = y"
    "(v * 262144 + x * 4096 + y * 64 + z) div 4096 mod 64 = x" "(v * 262144 + x * 4096 + y * 64 + z) div 262144 = v"
proof -
  have e: "v * 262144 + x * 4096 + y * 64 + z = (v * 64 + x) * 4096 + y * 64 + z" by simp
  note d = rune_digits3 [OF assms(2,3), of "v * 64 + x"]
  show "(v * 262144 + x * 4096 + y * 64 + z) mod 64 = z" "(v * 262144 + x * 4096 + y * 64 + z) div 64 mod 64 = y"
    "(v * 262144 + x * 4096 + y * 64 + z) div 4096 mod 64 = x"
    unfolding e using d digits64(2) [OF assms(1), of v] by simp_all
  have "(v * 262144 + x * 4096 + y * 64 + z) div 4096 div 64 = v"
    unfolding e using d digits64(1) [OF assms(1), of v] by simp
  then show "(v * 262144 + x * 4096 + y * 64 + z) div 262144 = v" by (simp add: div_mult2_eq [symmetric])
qed

lemma rune_split: "r = r div 4096 * 4096 + r div 64 mod 64 * 64 + r mod (64 :: nat)"
proof -
  have "r div 64 = r div 4096 * 64 + r div 64 mod 64"
    using div_mult_mod_eq [of "r div 64" 64] by (simp add: div_mult2_eq [symmetric])
  then show ?thesis using div_mult_mod_eq [of r 64] by linarith
qed

lemma encode_decode:
  assumes "valid_rune r"
  shows "decode_rune (encode_rune r @ bs) = (r, length (encode_rune r))"
proof -
  define x y z where xyz: "x = r div 4096" "y = r div 64 mod 64" "z = r mod 64"
  have r: "r = x * 4096 + y * 64 + z" "y < 64" "z < 64" using rune_split [of r] by (simp_all add: xyz)
  have d: "r div 64 = x * 64 + y" using rune_digits3(1) [OF r(2,3), of x] r(1) by simp
  consider "r < 128" | "128 \<le> r" "r < 2048" | "2048 \<le> r" "r < 65536" | "65536 \<le> r" by linarith
  then show ?thesis
  proof cases
    case 1
    then show ?thesis by (simp add: encode_rune_def)
  next
    case 2
    have "r div 64 * 64 + z = r" "r div 64 < 32" using 2 by (auto simp: xyz(3))
    with 2 show ?thesis using r(3) by (simp add: encode_rune_def cont_byte_def xyz(3) [symmetric])
  next
    case 3
    then have "x \<le> 15" "x = 0 \<longrightarrow> 32 \<le> y" "x = 13 \<longrightarrow> y \<le> 31" using r assms by (auto simp: valid_rune_def)
    moreover have "encode_rune r = [224 + x, 128 + y, 128 + z]" using 3 assms by (simp add: encode_rune_def xyz)
    ultimately show ?thesis using r by (simp add: cont_byte_def)
  next
    case 4
    define v w where vw: "v = x div 64" "w = x mod 64"
    have x: "x = v * 64 + w" "w < 64" by (simp_all add: vw)
    then have r': "r = v * 262144 + w * 4096 + y * 64 + z" using r(1) by simp
    have dig: "r div 262144 = v" "r div 4096 mod 64 = w"
      unfolding r' using rune_digits4 [OF x(2) r(2,3)] by simp_all
    have "v \<le> 4" "v = 0 \<longrightarrow> 16 \<le> w" "v = 4 \<longrightarrow> w \<le> 15" using 4 r' r(2,3) x(2) assms by (auto simp: valid_rune_def)
    moreover have "encode_rune r = [240 + v, 128 + w, 128 + y, 128 + z]"
      using 4 assms by (simp add: encode_rune_def dig) (simp add: xyz)
    ultimately show ?thesis using r' r(2,3) x(2) by (simp add: cont_byte_def)
  qed
qed

lemma decode_encode:
  assumes "decode_rune bs = (r, w)" "bs \<noteq> []" "\<not> (w = 1 \<and> r = RuneError)"
  shows "valid_rune r \<and> take w bs = encode_rune r"
proof -
  obtain a t where bs: "bs = a # t" using assms(2) by (cases bs) auto
  consider "a < 128" | "194 \<le> a" "a \<le> 223" | "224 \<le> a" "a \<le> 239" | "240 \<le> a" "a \<le> 244" | "128 \<le> a" "a < 194" | "244 < a" by linarith
  then show ?thesis
  proof cases
    case 1
    then show ?thesis using assms by (auto simp: bs valid_rune_def encode_rune_def)
  next
    case 2
    then obtain b u where t: "t = b # u" "cont_byte b" "r = (a - 192) * 64 + (b - 128)" "w = 2"
      using assms unfolding bs by (auto split: list.splits if_splits)
    define x y where xy: "x = a - 192" "y = b - 128"
    have b: "a = x + 192" "b = y + 128" "y < 64" using t(2) 2 by (auto simp: cont_byte_def xy)
    have r: "r = x * 64 + y" using t(3) by (simp add: xy)
    note d = digits64 [OF b(3), of x, folded r]
    have "128 \<le> r" "r < 2048" using r b 2 by auto
    then show ?thesis using t(1,4) d b unfolding bs encode_rune_def valid_rune_def by simp
  next
    case 3
    then obtain b c u where t: "t = b # c # u" "cont_byte b" "cont_byte c" "a = 224 \<longrightarrow> 160 \<le> b" "a = 237 \<longrightarrow> b \<le> 159"
      "r = (a - 224) * 4096 + (b - 128) * 64 + (c - 128)" "w = 3"
      using assms unfolding bs by (auto split: list.splits if_splits)
    define x y z where xyz: "x = a - 224" "y = b - 128" "z = c - 128"
    have b: "a = x + 224" "b = y + 128" "c = z + 128" "y < 64" "z < 64"
      using t(2,3) 3 by (auto simp: cont_byte_def xyz)
    have r: "r = x * 4096 + y * 64 + z" using t(6) by (simp add: xyz)
    note d = rune_digits3 [OF b(4,5), of x, folded r]
    have x: "x \<le> 15" "x = 0 \<longrightarrow> 32 \<le> y" "x = 13 \<longrightarrow> y \<le> 31" using b t(4,5) 3 by auto
    consider "x < 13" | "x = 13" | "13 < x" by linarith
    then have "valid_rune r" using r b(4,5) x by cases (auto simp: valid_rune_def)
    moreover have "2048 \<le> r" "r < 65536" using r b(4,5) x by auto
    ultimately show ?thesis using t(1,7) d b unfolding bs encode_rune_def by simp
  next
    case 4
    then obtain b c e u where t: "t = b # c # e # u" "cont_byte b" "cont_byte c" "cont_byte e" "a = 240 \<longrightarrow> 144 \<le> b" "a = 244 \<longrightarrow> b \<le> 143"
      "r = (a - 240) * 262144 + (b - 128) * 4096 + (c - 128) * 64 + (e - 128)" "w = 4"
      using assms unfolding bs by (auto split: list.splits if_splits)
    define v x y z where vxyz: "v = a - 240" "x = b - 128" "y = c - 128" "z = e - 128"
    have b: "a = v + 240" "b = x + 128" "c = y + 128" "e = z + 128" "x < 64" "y < 64" "z < 64"
      using t(2-4) 4 by (auto simp: cont_byte_def vxyz)
    have r: "r = v * 262144 + x * 4096 + y * 64 + z" using t(7) by (simp add: vxyz)
    note d = rune_digits4 [OF b(5-7), of v, folded r]
    have "65536 \<le> r" "r \<le> 0x10FFFF" using r b t(5,6) 4 by auto
    then show ?thesis using t(1,8) d b unfolding bs encode_rune_def valid_rune_def by simp
  qed (use assms in \<open>auto simp: bs\<close>)
qed

lemma utf8_valid_decode:
  assumes "utf8_valid bs" "bs \<noteq> []" "decode_rune bs = (r, w)"
  shows "\<not> (w = 1 \<and> r = RuneError)" "utf8_valid (drop w bs)"
proof -
  obtain a t where bs: "bs = a # t" using assms(2) by (cases bs) auto
  consider "a < 128" | "194 \<le> a" "a \<le> 223" | "224 \<le> a" "a \<le> 239" | "240 \<le> a" "a \<le> 244"
    | "128 \<le> a" "\<not> (194 \<le> a \<and> a \<le> 244)" by linarith
  then have "\<not> (w = 1 \<and> r = RuneError) \<and> utf8_valid (drop w bs)"
    by cases (use assms in \<open>auto simp: bs RuneError_def split: list.splits if_splits\<close>)
  then show "\<not> (w = 1 \<and> r = RuneError)" "utf8_valid (drop w bs)" by simp_all
qed

declare decode_rune.simps(2) [simp del]

section \<open>Quoting\<close>

text \<open>\<open>IsPrint\<close>: up to \<open>0xFF\<close> by its own cases, above by the table.\<close>

definition is_print :: "(nat \<Rightarrow> bool) \<Rightarrow> nat \<Rightarrow> bool" where
  "is_print tbl r =
     (if r \<le> 0xFF then 0x20 \<le> r \<and> r < 0x7F \<or> 0xA1 \<le> r \<and> r \<noteq> 0xAD else tbl r)"

definition hexd :: "nat \<Rightarrow> nat" where
  "hexd d = (if d < 10 then 48 + d else 87 + d)"

fun hex_digits :: "nat \<Rightarrow> nat \<Rightarrow> nat list" where
  "hex_digits 0 v = []"
| "hex_digits (Suc n) v = hex_digits n (v div 16) @ [hexd (v mod 16)]"

text \<open>The letters of the one-letter escapes, and what the letters stand for.\<close>

definition escape_letter :: "nat \<Rightarrow> nat option" where
  "escape_letter r = map_of [(7, 97), (8, 98), (12, 102), (10, 110), (13, 114), (9, 116), (11, 118)] r"

definition letter_value :: "nat \<Rightarrow> nat option" where
  "letter_value c = map_of [(97, 7), (98, 8), (102, 12), (110, 10), (114, 13), (116, 9), (118, 11)] c"

definition quote_rune :: "(nat \<Rightarrow> bool) \<Rightarrow> nat \<Rightarrow> nat list" where
  "quote_rune tbl r =
     (if r = 34 \<or> r = 92 then [92, r]
      else if is_print tbl r then encode_rune r
      else
        (case escape_letter r of
           Some l \<Rightarrow> [92, l]
         | None \<Rightarrow>
             if r < 32 \<or> r = 127 then [92, 120] @ hex_digits 2 r
             else if \<not> valid_rune r then [92, 117] @ hex_digits 4 RuneError
             else if r < 65536 then [92, 117] @ hex_digits 4 r
             else [92, 85] @ hex_digits 8 r))"

function quote_body :: "(nat \<Rightarrow> bool) \<Rightarrow> nat list \<Rightarrow> nat list" where
  "quote_body tbl [] = []"
| "quote_body tbl (a # bs) =
     (let (r, w) = decode_rune (a # bs) in
      (if w = 1 \<and> r = RuneError then [92, 120] @ hex_digits 2 a else quote_rune tbl r)
      @ quote_body tbl (drop w (a # bs)))"
  by pat_completeness auto

termination
proof (relation "measure (\<lambda>(tbl, bs). length bs)")
  show "((tbl, drop w (a # bs)), (tbl, a # bs)) \<in> measure (\<lambda>(tbl, bs). length bs)"
    if "x = decode_rune (a # bs)" "(r, w) = x" for tbl a bs x r w
  proof -
    have "snd (decode_rune (a # bs)) = w" using that by (metis snd_conv)
    then show ?thesis using decode_rune_width [of "a # bs"] by simp
  qed
qed simp

declare quote_body.simps(2) [simp del]

definition go_quote :: "(nat \<Rightarrow> bool) \<Rightarrow> nat list \<Rightarrow> nat list" where
  "go_quote tbl bs = [34] @ quote_body tbl bs @ [34]"

section \<open>Unquoting\<close>

definition unhex :: "nat \<Rightarrow> nat option" where
  "unhex c =
     (if 48 \<le> c \<and> c \<le> 57 then Some (c - 48)
      else if 97 \<le> c \<and> c \<le> 102 then Some (c - 87)
      else if 65 \<le> c \<and> c \<le> 70 then Some (c - 55)
      else None)"

fun unhex_all :: "nat \<Rightarrow> nat list \<Rightarrow> nat option" where
  "unhex_all v [] = Some v"
| "unhex_all v (c # cs) = (case unhex c of None \<Rightarrow> None | Some x \<Rightarrow> unhex_all (v * 16 + x) cs)"

text \<open>The two digits after the first of an octal escape.\<close>

fun unoct_all :: "nat \<Rightarrow> nat list \<Rightarrow> nat option" where
  "unoct_all v [] = Some v"
| "unoct_all v (c # cs) = (if 48 \<le> c \<and> c \<le> 55 then unoct_all (v * 8 + (c - 48)) cs else None)"

text \<open>
  \<open>UnquoteChar\<close>: the value, whether it is a rune of several bytes, and the tail; \<^const>\<open>None\<close> is \<open>ErrSyntax\<close>.
\<close>

definition unquote_hex :: "nat \<Rightarrow> nat list \<Rightarrow> (nat \<times> bool \<times> nat list) option" where
  "unquote_hex c s =
     (let n = (if c = 120 then 2 else if c = 117 then 4 else 8) in
      if length s < n then None
      else
        (case unhex_all 0 (take n s) of
           None \<Rightarrow> None
         | Some v \<Rightarrow>
             if c = 120 then Some (v, False, drop n s)
             else if \<not> valid_rune v then None
             else Some (v, True, drop n s)))"

definition unquote_octal :: "nat \<Rightarrow> nat list \<Rightarrow> (nat \<times> bool \<times> nat list) option" where
  "unquote_octal c s =
     (if length s < 2 then None
      else
        (case unoct_all (c - 48) (take 2 s) of
           None \<Rightarrow> None
         | Some v \<Rightarrow> if 255 < v then None else Some (v, False, drop 2 s)))"

definition unquote_escape :: "nat \<Rightarrow> nat \<Rightarrow> nat list \<Rightarrow> (nat \<times> bool \<times> nat list) option" where
  "unquote_escape q c s =
     (case letter_value c of
        Some v \<Rightarrow> Some (v, False, s)
      | None \<Rightarrow>
          if c = 120 \<or> c = 117 \<or> c = 85 then unquote_hex c s
          else if 48 \<le> c \<and> c \<le> 55 then unquote_octal c s
          else if c = 92 then Some (92, False, s)
          else if c = 39 \<or> c = 34 then (if c \<noteq> q then None else Some (c, False, s))
          else None)"

definition unquote_char :: "nat \<Rightarrow> nat list \<Rightarrow> (nat \<times> bool \<times> nat list) option" where
  "unquote_char q s =
     (case s of
        [] \<Rightarrow> None
      | c # t \<Rightarrow>
          if c = q \<and> (q = 39 \<or> q = 34) then None
          else if 128 \<le> c then (let (r, w) = decode_rune s in Some (r, True, drop w s))
          else if c \<noteq> 92 then Some (c, False, t)
          else (case t of [] \<Rightarrow> None | c' # s' \<Rightarrow> unquote_escape q c' s'))"

lemma unquote_char_shorter: "unquote_char q s = Some (r, m, t) \<Longrightarrow> length t < length s"
proof (cases s)
  case (Cons c u)
  assume "unquote_char q s = Some (r, m, t)"
  then show ?thesis
    using decode_rune_width [of s] Cons
    by (auto simp: unquote_char_def unquote_escape_def unquote_hex_def unquote_octal_def Let_def
        split: if_splits option.splits list.splits prod.splits)
qed (simp add: unquote_char_def)

text \<open>The loop of \<open>unquote\<close>: what it has appended, and the input it stops at.\<close>

function unquote_loop :: "nat \<Rightarrow> nat list \<Rightarrow> (nat list \<times> nat list) option" where
  "unquote_loop q s =
     (if s = [] \<or> hd s = q then Some ([], s)
      else
        (case unquote_char q s of
           None \<Rightarrow> None
         | Some (r, m, t) \<Rightarrow>
             if hd s = 10 then None
             else
               (let b = (if r < 128 \<or> \<not> m then [r] else encode_rune r) in
                if q = 39 then Some (b, t)
                else
                  (case unquote_loop q t of
                     None \<Rightarrow> None
                   | Some (bs, u) \<Rightarrow> Some (b @ bs, u)))))"
  by pat_completeness auto

termination by (relation "measure (\<lambda>(q, s). length s)") (auto dest: unquote_char_shorter)

declare unquote_loop.simps [simp del]

text \<open>\<open>Unquote\<close>: nothing may follow the closing quote.\<close>

definition go_unquote :: "nat list \<Rightarrow> nat list option" where
  "go_unquote s =
     (case s of
        [] \<Rightarrow> None
      | q # t \<Rightarrow>
          if q \<notin> set t then None
          else
            (let e = takeWhile (\<lambda>x. x \<noteq> q) t; rest = drop (length e + 1) t in
             if q = 96 then (if rest = [] then Some (filter (\<lambda>x. x \<noteq> 13) e) else None)
             else if q = 34 \<or> q = 39 then
               (if 92 \<notin> set e \<and> 10 \<notin> set e
                   \<and> (if q = 34 then utf8_valid e
                      else (let (r, n) = decode_rune e in n = length e \<and> (r \<noteq> RuneError \<or> n \<noteq> 1)))
                then (if rest = [] then Some e else None)
                else
                  (case unquote_loop q t of
                     None \<Rightarrow> None
                   | Some (buf, u) \<Rightarrow> if u = [q] then Some buf else None))
             else None))"

section \<open>Unquoting what was quoted\<close>

lemma unhex_hexd: "d < 16 \<Longrightarrow> unhex (hexd d) = Some d"
  by (auto simp: unhex_def hexd_def)

lemma unhex_all_append:
  "unhex_all v (xs @ ys) = (case unhex_all v xs of None \<Rightarrow> None | Some u \<Rightarrow> unhex_all u ys)"
  by (induction xs arbitrary: v) (auto split: option.split)

lemma length_hex_digits [simp]: "length (hex_digits n v) = n"
  by (induction n arbitrary: v) simp_all

lemma unhex_hex_digits: "unhex_all v (hex_digits n u) = Some (v * 16 ^ n + u mod 16 ^ n)"
proof (induction n arbitrary: u)
  case (Suc n)
  have "u mod 16 ^ Suc n = (u div 16) mod 16 ^ n * 16 + u mod 16"
    using mod_mult2_eq [of u 16 "16 ^ n"] by (simp add: mult.commute)
  then show ?case using Suc by (simp add: unhex_all_append unhex_hexd algebra_simps)
qed simp

text \<open>One written rune is one step of the loop.\<close>

definition reads :: "nat list \<Rightarrow> nat list \<Rightarrow> bool" where
  "reads c b \<longleftrightarrow>
     c \<noteq> [] \<and> hd c \<noteq> 34 \<and> hd c \<noteq> 10
     \<and> (\<forall>t. \<exists>r m. unquote_char 34 (c @ t) = Some (r, m, t) \<and> b = (if r < 128 \<or> \<not> m then [r] else encode_rune r))"

lemma reads_step:
  assumes "reads c b"
  shows "unquote_loop 34 (c @ t) =
    (case unquote_loop 34 t of None \<Rightarrow> None | Some (bs, u) \<Rightarrow> Some (b @ bs, u))"
proof -
  obtain r m where "unquote_char 34 (c @ t) = Some (r, m, t)" "b = (if r < 128 \<or> \<not> m then [r] else encode_rune r)"
    using assms unfolding reads_def by blast
  then show ?thesis using assms by (subst unquote_loop.simps) (auto simp: reads_def Let_def split: option.split)
qed

lemma reads_byte: "a < 256 \<Longrightarrow> reads ([92, 120] @ hex_digits 2 a) [a]"
  using unhex_hex_digits [of 0 2 a]
  by (auto simp: reads_def unquote_char_def unquote_escape_def unquote_hex_def letter_value_def)

lemma reads_wide:
  assumes "valid_rune r" "r < 16 ^ n" "c = 117 \<and> n = 4 \<or> c = 85 \<and> n = 8"
  shows "reads ([92, c] @ hex_digits n r) (encode_rune r)"
proof -
  have h: "unhex_all 0 (hex_digits n r) = Some r" using unhex_hex_digits [of 0 n r] assms(2) by simp
  have n: "(if c = 120 then 2 else if c = 117 then 4 else 8) = n" "c \<noteq> 120" using assms(3) by auto
  have "unquote_hex c (hex_digits n r @ t) = Some (r, True, t)" for t
    unfolding unquote_hex_def n(1) Let_def using h assms(1) n(2) by simp
  moreover have "letter_value c = None" "c = 120 \<or> c = 117 \<or> c = 85" using assms(3) by (auto simp: letter_value_def)
  ultimately have "unquote_char 34 ([92, c] @ hex_digits n r @ t) = Some (r, True, t)" for t
    by (simp add: unquote_char_def unquote_escape_def)
  moreover have "encode_rune r = (if r < 128 \<or> \<not> True then [r] else encode_rune r)" by (simp add: encode_rune_def)
  ultimately show ?thesis unfolding reads_def by fastforce
qed

lemma reads_letter: "escape_letter r = Some l \<Longrightarrow> reads [92, l] [r]"
  by (auto simp: reads_def unquote_char_def unquote_escape_def letter_value_def escape_letter_def split: if_splits)

lemma reads_plain:
  assumes "valid_rune r" "r \<noteq> 34" "r \<noteq> 92" "r \<noteq> 10"
  shows "reads (encode_rune r) (encode_rune r)"
proof (cases "r < 128")
  case True
  with assms show ?thesis
    by (auto simp: reads_def unquote_char_def encode_rune_def intro: exI [of _ False])
next
  case False
  then have h: "encode_rune r \<noteq> []" "128 \<le> hd (encode_rune r)" by (simp_all add: encode_rune_def)
  then obtain a u where "encode_rune r = a # u" "128 \<le> a" by (cases "encode_rune r") auto
  then show ?thesis using encode_decode [OF assms(1)] False by (auto simp: reads_def unquote_char_def)
qed

lemma reads_quote_rune:
  assumes "valid_rune r"
  shows "reads (quote_rune tbl r) (encode_rune r)"
proof (cases "escape_letter r")
  case (Some l)
  then have "r < 32" by (auto simp: escape_letter_def split: if_splits)
  with Some show ?thesis using reads_letter [OF Some] by (simp add: quote_rune_def is_print_def encode_rune_def)
next
  case None
  then have "r \<noteq> 10" by (auto simp: escape_letter_def)
  consider "r = 34 \<or> r = 92" | "r \<noteq> 34" "r \<noteq> 92" "is_print tbl r" | "\<not> is_print tbl r" "r < 32 \<or> r = 127"
    | "r \<noteq> 34" "r \<noteq> 92" "\<not> is_print tbl r" "\<not> r < 32" "r \<noteq> 127" by blast
  then show ?thesis
  proof cases
    case 1
    then show ?thesis
      by (auto simp: reads_def quote_rune_def encode_rune_def unquote_char_def unquote_escape_def letter_value_def)
  next
    case 2
    then show ?thesis using reads_plain [OF assms 2(1,2) \<open>r \<noteq> 10\<close>] by (simp add: quote_rune_def)
  next
    case 3
    then show ?thesis using None reads_byte [of r] by (auto simp: quote_rune_def encode_rune_def)
  next
    case 4
    have "r < 65536 \<Longrightarrow> ?thesis" "\<not> r < 65536 \<Longrightarrow> ?thesis"
      using 4 None assms reads_wide [OF assms, of 4 117] reads_wide [OF assms, of 8 85]
      by (auto simp: quote_rune_def valid_rune_def)
    then show ?thesis by blast
  qed
qed

lemma unquote_loop_end: "unquote_loop 34 (34 # u) = Some ([], 34 # u)"
  by (simp add: unquote_loop.simps)

lemma unquote_loop_quote_body:
  assumes "\<forall>b \<in> set bs. b < 256"
  shows "unquote_loop 34 (quote_body tbl bs @ 34 # u) = Some (bs, 34 # u)"
  using assms
proof (induction tbl bs rule: quote_body.induct)
  case (2 tbl a t)
  obtain r w where d: "decode_rune (a # t) = (r, w)" by (cases "decode_rune (a # t)")
  define c where "c = (if w = 1 \<and> r = RuneError then [92, 120] @ hex_digits 2 a else quote_rune tbl r)"
  have b: "quote_body tbl (a # t) = c @ quote_body tbl (drop w (a # t))"
    by (simp add: quote_body.simps d c_def)
  have ih: "unquote_loop 34 (quote_body tbl (drop w (a # t)) @ 34 # u) = Some (drop w (a # t), 34 # u)"
    using 2(1) [OF d [symmetric] refl] 2(2) by (meson in_set_dropD)
  have "reads c (take w (a # t))"
  proof (cases "w = 1 \<and> r = RuneError")
    case True
    then show ?thesis using reads_byte [of a] 2(2) by (simp add: c_def)
  next
    case False
    then have "c = quote_rune tbl r" unfolding c_def by (rule if_not_P)
    then show ?thesis using decode_encode [OF d _ False] reads_quote_rune [of r tbl] by simp
  qed
  then show ?case by (simp add: b reads_step ih)
qed (simp add: unquote_loop_end)

text \<open>The quick path for a text without escapes gives what the loop gives.\<close>

lemma unquote_loop_plain:
  assumes "utf8_valid e" "34 \<notin> set e" "92 \<notin> set e" "10 \<notin> set e"
  shows "unquote_loop 34 (e @ 34 # u) = Some (e, 34 # u)"
  using assms
proof (induction "length e" arbitrary: e rule: less_induct)
  case less
  show ?case
  proof (cases e)
    case (Cons a t)
    obtain r w where d: "decode_rune e = (r, w)" by (cases "decode_rune e")
    have v: "valid_rune r" "take w e = encode_rune r" "utf8_valid (drop w e)" "0 < w"
      using utf8_valid_decode [OF less(2) _ d] decode_encode [OF d] decode_rune_width [of e] Cons d by auto
    have "set (take w e) \<subseteq> set e" "set (drop w e) \<subseteq> set e" by (rule set_take_subset set_drop_subset)+
    then have s: "34 \<notin> set (drop w e)" "92 \<notin> set (drop w e)" "10 \<notin> set (drop w e)"
      "34 \<notin> set (encode_rune r)" "92 \<notin> set (encode_rune r)" "10 \<notin> set (encode_rune r)"
      using less(3-5) v(2) by auto
    then have "r \<noteq> 34" "r \<noteq> 92" "r \<noteq> 10" by (auto simp: encode_rune_def)
    then have "reads (take w e) (take w e)" using reads_plain [OF v(1)] v(2) by simp
    then have "unquote_loop 34 (take w e @ drop w e @ 34 # u) = Some (take w e @ drop w e, 34 # u)"
      using less(1) [of "drop w e"] v(3,4) s Cons by (simp add: reads_step)
    then show ?thesis by (simp only: append_assoc [symmetric] append_take_drop_id)
  qed (simp add: unquote_loop_end)
qed

lemma go_unquote_string:
  assumes "34 \<in> set t" "e = takeWhile (\<lambda>x. x \<noteq> 34) t" "rest = drop (length e + 1) t"
  shows "go_unquote (34 # t) =
    (if 92 \<notin> set e \<and> 10 \<notin> set e \<and> utf8_valid e then (if rest = [] then Some e else None)
     else (case unquote_loop 34 t of None \<Rightarrow> None | Some (buf, u) \<Rightarrow> if u = [34] then Some buf else None))"
  using assms by (simp add: go_unquote_def)

lemma go_unquote_quote:
  assumes "\<forall>b \<in> set bs. b < 256"
  shows "go_unquote (go_quote tbl bs) = Some bs"
proof -
  define t where "t = quote_body tbl bs @ [34]"
  define e where "e = takeWhile (\<lambda>x. x \<noteq> 34) t"
  define rest where "rest = drop (length e + 1) t"
  have loop: "unquote_loop 34 t = Some (bs, [34])" unfolding t_def by (rule unquote_loop_quote_body [OF assms])
  have "34 \<in> set t" by (simp add: t_def)
  then obtain u where u: "dropWhile (\<lambda>x. x \<noteq> 34) t = 34 # u"
    using hd_dropWhile [of "\<lambda>x. x \<noteq> 34" t] by (cases "dropWhile (\<lambda>x. x \<noteq> 34) t") (auto simp: dropWhile_eq_Nil_conv)
  then have te: "t = e @ 34 # u" using takeWhile_dropWhile_id [of "\<lambda>x. x \<noteq> 34" t] by (simp add: e_def)
  have "rest = drop (length e + 1) (e @ 34 # u)" unfolding rest_def using te by simp
  then have rest: "rest = u" by simp
  have "34 \<notin> set e" by (auto simp: e_def dest: set_takeWhileD)
  then have fast: "utf8_valid e \<Longrightarrow> 92 \<notin> set e \<Longrightarrow> 10 \<notin> set e \<Longrightarrow> e = bs \<and> rest = []"
    using unquote_loop_plain [of e u] loop te rest by simp
  have "go_quote tbl bs = 34 # t" by (simp add: go_quote_def t_def)
  note d = go_unquote_string [OF \<open>34 \<in> set t\<close> e_def rest_def, folded this]
  show ?thesis
  proof (cases "92 \<notin> set e \<and> 10 \<notin> set e \<and> utf8_valid e")
    case True
    then have "e = bs" "rest = []" using fast by blast+
    with True d show ?thesis by simp
  qed (auto simp: d loop)
qed

end
