(* ===== verification/Dav_Etag.thy ===== *)
theory Dav_Etag
  imports Dav_Types Go_Quote
begin

text \<open>
  What is left of \<open>client/types.go\<close>: the entity tag with its quoting, the text of a time and of a protocol error,
  and the requests the client declares without using them, as records with the tokens that encoding them writes.
  The format of a time and the writer of tokens are parameters.
\<close>

section \<open>Entity tags\<close>

definition ETag_String :: "(nat \<Rightarrow> bool) \<Rightarrow> string \<Rightarrow> string" where
  "ETag_String tbl etag = map char_of (go_quote tbl (map of_char etag))"

definition ETag_MarshalText :: "(nat \<Rightarrow> bool) \<Rightarrow> string \<Rightarrow> bytes" where
  "ETag_MarshalText tbl etag = ETag_String tbl etag"

definition ETag_UnmarshalText :: "bytes \<Rightarrow> go_error + string" where
  "ETag_UnmarshalText b =
     (case go_unquote (map of_char b) of
        None \<Rightarrow> Inl (ErrorString ''webdav: failed to unquote ETag: invalid syntax'')
      | Some s \<Rightarrow> Inr (map char_of s))"

definition GetETag :: "string dav_value" where
  "GetETag =
     \<lparr>dv_type = xml_struct ''DAV: getetag'', dv_decode = (\<lambda>raw. ETag_UnmarshalText (raw_text (raw_children raw)))\<rparr>"

section \<open>Times and protocol errors\<close>

text \<open>A time is its seconds since 1970; \<open>MarshalText\<close> formats it in UTC by \<open>http.TimeFormat\<close>.\<close>

definition Time_UnmarshalText :: "(string \<Rightarrow> go_error + int) \<Rightarrow> bytes \<Rightarrow> go_error + int" where
  "Time_UnmarshalText parse_time b = (case parse_time b of Inl err \<Rightarrow> Inl err | Inr tt \<Rightarrow> Inr tt)"

definition Time_MarshalText :: "(int \<Rightarrow> string) \<Rightarrow> int \<Rightarrow> bytes" where
  "Time_MarshalText format_utc t = format_utc t"

text \<open>\<open>Error.Error\<close>: the element as text, empty when one of its values cannot be encoded.\<close>

definition dav_Error_Error :: "(xml_token list \<Rightarrow> bytes) \<Rightarrow> raw_xml list \<Rightarrow> string" where
  "dav_Error_Error print raws =
     (case marshal_children collect raws [] of
        (Some err, ts) \<Rightarrow> []
      | (None, ts) \<Rightarrow> print (element_tokens ''error'' ts))"

section \<open>Requests that are only declared\<close>

record current_user_principal =
  cup_href :: url
  cup_unauthenticated :: bool

record sync_collection_query =
  scq_sync_token :: string
  scq_limit :: "nat option"
  scq_sync_level :: string
  scq_prop :: "raw_xml list option"

text \<open>\<open>Remove\<close> and \<open>Set\<close> have one field, the property values.\<close>

record property_update =
  pu_remove :: "raw_xml list list"
  pu_set :: "raw_xml list list"

text \<open>The tokens of a \<open>prop\<close> element, of one \<open>remove\<close> or \<open>set\<close> element, and of the whole update.\<close>

definition prop_tokens :: "raw_xml list \<Rightarrow> go_error + xml_token list" where
  "prop_tokens raws =
     (case marshal_children collect raws [] of
        (Some err, _) \<Rightarrow> Inl err | (None, ts) \<Rightarrow> Inr (element_tokens ''prop'' ts))"

fun update_tokens :: "string \<Rightarrow> raw_xml list list \<Rightarrow> go_error + xml_token list" where
  "update_tokens local [] = Inr []"
| "update_tokens local (raws # rest) =
     (case prop_tokens raws of
        Inl err \<Rightarrow> Inl err
      | Inr ts \<Rightarrow>
          (case update_tokens local rest of
             Inl err \<Rightarrow> Inl err
           | Inr us \<Rightarrow> Inr (element_tokens local ts @ us)))"

definition PropertyUpdate_tokens :: "property_update \<Rightarrow> go_error + xml_token list" where
  "PropertyUpdate_tokens pu =
     (case update_tokens ''remove'' (pu_remove pu) of
        Inl err \<Rightarrow> Inl err
      | Inr rs \<Rightarrow>
          (case update_tokens ''set'' (pu_set pu) of
             Inl err \<Rightarrow> Inl err
           | Inr ss \<Rightarrow> Inr (element_tokens ''propertyupdate'' (rs @ ss))))"

text \<open>Decoding an update, by the tags of the structs.\<close>

definition decode_prop_field :: "raw_xml \<Rightarrow> go_error + raw_xml list" where
  "decode_prop_field raw =
     decode_fields (\<lambda>name v r. if name = dav_name ''prop'' then Inr (r @ decode_any (raw_children v)) else Inr r)
       (raw_children raw) []"

definition decode_property_update :: "raw_xml \<Rightarrow> go_error + property_update" where
  "decode_property_update raw =
     decode_fields
       (\<lambda>name v r.
          if name = dav_name ''remove'' then map_sum id (\<lambda>p. r\<lparr>pu_remove := pu_remove r @ [p]\<rparr>) (decode_prop_field v)
          else if name = dav_name ''set'' then map_sum id (\<lambda>p. r\<lparr>pu_set := pu_set r @ [p]\<rparr>) (decode_prop_field v)
          else Inr r)
       (raw_children raw) \<lparr>pu_remove = [], pu_set = []\<rparr>"

section \<open>An entity tag survives its quoting\<close>

lemma encode_rune_byte: "b \<in> set (encode_rune r) \<Longrightarrow> b < 256"
  by (auto simp: encode_rune_def valid_rune_def split: if_splits)

lemma hex_digits_byte: "b \<in> set (hex_digits n v) \<Longrightarrow> b < 256"
proof (induction n arbitrary: v)
  case (Suc n)
  have "d < 16 \<Longrightarrow> hexd d < 256" for d by (simp add: hexd_def)
  then have "hexd (v mod 16) < 256" by simp
  with Suc show ?case by auto
qed simp

lemma quote_rune_byte: "b \<in> set (quote_rune tbl r) \<Longrightarrow> b < 256"
  by (auto simp: quote_rune_def escape_letter_def dest: encode_rune_byte hex_digits_byte split: if_splits)

lemma quote_body_byte: "b \<in> set (quote_body tbl bs) \<Longrightarrow> b < 256"
proof (induction tbl bs rule: quote_body.induct)
  case (2 tbl a t)
  then show ?case
    by (auto simp: quote_body.simps Let_def dest: quote_rune_byte hex_digits_byte split: prod.splits if_splits)
qed simp

lemma go_quote_byte: "b \<in> set (go_quote tbl bs) \<Longrightarrow> b < 256"
  by (auto simp: go_quote_def dest: quote_body_byte)

lemma bytes_of_chars: "\<forall>b \<in> set bs. b < 256 \<Longrightarrow> map of_char (map char_of bs :: string) = (bs :: nat list)"
  by (induction bs) simp_all

lemma ETag_text_back: "ETag_UnmarshalText (ETag_String tbl etag) = Inr etag"
proof -
  have "\<forall>b \<in> set (map of_char etag :: nat list). b < 256" by auto
  then have "go_unquote (go_quote tbl (map of_char etag)) = Some (map of_char etag)" by (rule go_unquote_quote)
  moreover have "map of_char (ETag_String tbl etag) = go_quote tbl (map of_char etag)"
    unfolding ETag_String_def by (rule bytes_of_chars) (blast dest: go_quote_byte)
  ultimately show ?thesis by (simp add: ETag_UnmarshalText_def comp_def)
qed

text \<open>C30: An entity tag with any bytes - quotes, backslashes, control characters, text that is not UTF-8 - is read back
  from the text the client writes for it, alone and as the content of a \<open>getetag\<close> property.
\<close>

theorem ETag_roundtrip:
  "ETag_UnmarshalText (ETag_MarshalText tbl etag) = Inr etag
   \<and> dv_decode GetETag (RawXml (StartElement GetETagName []) [RawXml (CharData (ETag_String tbl etag)) []]) = Inr etag"
  by (simp add: ETag_text_back ETag_MarshalText_def GetETag_def)

text \<open>A weak entity tag, \<open>W/"..."\<close>, is refused.\<close>

lemma ETag_weak_refused:
  "ETag_UnmarshalText (CHR ''W'' # t) = Inl (ErrorString ''webdav: failed to unquote ETag: invalid syntax'')"
  by (simp add: ETag_UnmarshalText_def go_unquote_def)

end
