(* ===== verification/Spec2Isabelle.thy ===== *)
theory Spec2Isabelle
  imports Units Wrappers S3_Props Ftp_Props Ftp_S3 Dav_Props Csi_Props Fuse_Props Tar_S3 Uploads Dav_Etag
begin

text \<open>
  A verification library for \<^emph>\<open>unifs\<close>: one file system interface, \<open>webdav.FileSystem\<close>, over S3, FTP,
  WebDAV and local directories, with wrappers, a FUSE mount, FTP and WebDAV servers, a CSI driver for
  Kubernetes, and import and export of archives.

  \<^bold>\<open>The program.\<close> An address (\<open>pkg/strfmt\<close>) is parsed into an endpoint; its scheme selects a file system
  (\<open>pkg/filesystem/api\<close>): S3 (\<open>pkg/filesystem/s3\<close>), FTP (\<open>pkg/filesystem/ftp\<close>), WebDAV
  (\<open>pkg/filesystem/webdav\<close> over \<open>webdav/client\<close>), or a local directory. The helpers of
  \<open>pkg/filesystem/util.go\<close> (\<open>MkdirAll\<close>, \<open>WalkDir\<close>, \<open>Write\<close>, ...) and the subtree view of \<open>fs_sub.go\<close> work
  over any of them. They are served by the FTP server (\<open>pkg/ftp\<close>, through the logging wrapper and the afero
  adaptor), by the WebDAV server (\<open>cmd/unifs/webdav.go\<close>) and by FUSE (\<open>pkg/fuse\<close>, started by
  \<open>cmd/unifs/mount.go\<close>); the CSI driver (\<open>pkg/csidriver\<close>) runs the mount command and waits for the mount;
  \<open>pkg/tar\<close> copies trees to archives and back.

  \<^bold>\<open>How it is modelled.\<close> A file system is the record \<^typ>\<open>('h, 's) filesystem\<close> of its operations; each takes the
  state \<open>'s\<close> of the world last and returns the new one, and operations of an open file return the new file
  as well. A Go error is \<^typ>\<open>go_error\<close>, with a constructor for each kind of error the code makes, wraps or
  tests; a call that may fail returns a sum or an option of it; \<open>Panics\<close> and \<open>Blocks\<close> are the outcomes of
  a call that panics or never returns. In the file systems, a goroutine that feeds a request through a pipe is a state
  of the file that writes to it; \<open>Uploads\<close> has it as a process of its own. The places where goroutines or calls really
  race (these uploads, the callbacks of the FTP driver, the shutdown of the CSI driver) are inductive step relations, with a
  step for each access to what the goroutines share (and sequentially consistent memory). Offsets are 64 bit words where the code keeps
  them, ports 16 bit words. The libraries below (minio, the FTP client, \<open>net/http\<close>, the XML tokenizer, the
  operating system, go-fuse, gRPC) are records of functions, arguments of the definitions; what is relied
  on is stated in locales, which are interpreted on reference services written out here.

  \<^bold>\<open>The theories.\<close>
  \<^item> \<open>Go_Prelude\<close>, \<open>Go_Errors\<close>, \<open>Go_Url\<close>: packages \<open>strings\<close>, \<open>path\<close>, \<open>errors\<close> and \<open>net/url\<close> as far as they are
    used: splitting, trimming and cleaning of paths, \<open>errors.Is\<close> and \<open>os.IsNotExist\<close>, parsing and printing of URLs.
  \<^item> \<open>Units\<close> (\<open>pkg/units\<close>), \<open>Strfmt\<close> (\<open>pkg/strfmt/endpoint.go\<close>): sizes and endpoints. A well-formed endpoint
    that is printed parses back to itself (\<open>ParseEndpoint_String\<close>).
  \<^item> \<open>Filesystem\<close> (\<open>fs.go\<close>, \<open>util.go\<close>, \<open>fsutil\<close>): the interface and the helpers; the reference recursion
    \<open>tree_walk\<close> of \<open>WalkDir\<close>; the locale \<open>dir_maker\<close>, the contract of \<open>Mkdir\<close> and \<open>Stat\<close> under which \<open>MkdirAll\<close>
    makes a directory and takes none away.
  \<^item> \<open>Sub_Fs\<close> (\<open>fs_sub.go\<close>): the view of a subtree, confined to it. \<open>Wrappers\<close> (\<open>logr/fs.go\<close>, \<open>aferofsutil\<close>): the
    logging wrapper, transparent but for the log, and the adaptor.
  \<^item> \<open>S3_Fs\<close> (\<open>s3/fs.go\<close>, \<open>s3/file.go\<close>): all operations over a client of an object store. \<open>S3_Store\<close> has the
    locales \<open>s3_service\<close> (what a store answers, also when it fails) and \<open>s3_mounted\<close> (a bucket and prefix that
    are in use) and what \<open>Stat\<close>, \<open>Readdir\<close>, \<open>Mkdir\<close>, \<open>RemoveAll\<close> and uploads compute there; \<open>S3_Ref\<close> has
    \<open>s3_reliable\<close> (a store that answers) and the reference store; \<open>S3_Props\<close> the properties.
  \<^item> \<open>Ftp_Fs\<close> (\<open>ftp/client.go\<close>, \<open>config.go\<close>, \<open>fs.go\<close>, \<open>file.go\<close>, \<open>errors.go\<close>) and \<open>Ftp_Props\<close>, with the locale
    \<open>ftp_server\<close>, for servers with and without \<open>MLST\<close>, and a reference server of both kinds.
  \<^item> \<open>Ftp_Server\<close> (\<open>pkg/ftp/server.go\<close>): the defaults and the settings; \<open>Ftp_Driver\<close> (the same file): the driver that
    counts clients, interleaved at every access to its fields and channels, with its invariant and the races that panic.
    \<open>Services\<close>: start and stop of the FTP, WebDAV and CSI servers; the shutdown of the last as a race of two goroutines. \<open>Ftp_S3\<close>: a file stored by an FTP client over S3, through adaptor
    and logging wrapper.
  \<^item> \<open>Dav_Xml\<close>, \<open>Dav_Values\<close> (\<open>client/xml.go\<close>): raw XML values, their reader and writer, with the round trip.
    \<open>Dav_Types\<close> (\<open>client/types.go\<close>, \<open>status.go\<close>, \<open>href.go\<close>, \<open>errors.go\<close>, \<open>multi_status.go\<close>): the values of the
    protocol and their decoding. \<open>Dav_Client\<close> (\<open>client/client.go\<close>, \<open>client/file.go\<close>, \<open>config.go\<close>) and \<open>Dav_Fs\<close>
    (\<open>webdav_fs.go\<close>, \<open>file.go\<close>, \<open>node.go\<close>): requests, downloads, uploads and the file system.
  \<^item> \<open>Dav_Facts\<close>, \<open>Dav_Server\<close>, \<open>Dav_Reads\<close>: paths and URLs as they are sent; the locale \<open>dav_server\<close>, what RFC 4918
    promises of a server that shows a tree of collections and resources, and \<open>dav_download\<close>, what HTTP
    promises of a download; a reference server behind HTTP requests and XML tokens. \<open>Dav_Props\<close>: the properties.
  \<^item> \<open>Go_Quote\<close>: \<open>strconv.Quote\<close> and \<open>Unquote\<close> with UTF-8, and that the second reads what the first writes (the table of
    printable runes above Latin-1 is a parameter); \<open>Dav_Etag\<close> (rest of \<open>client/types.go\<close>): entity tags, times, protocol
    errors and the requests that are only declared.
  \<^item> \<open>Uploads\<close>: the writing side of \<open>s3/file.go\<close>, \<open>ftp/file.go\<close> and \<open>client/client.go\<close> as two goroutines and \<open>io.Pipe\<close>, in
    every interleaving: runs are bounded and end, and what the answer of \<open>Close\<close> says about the data.
  \<^item> \<open>Backend\<close> (\<open>s3/config.go\<close>, \<open>api/backend.go\<close>, \<open>fs_std.go\<close>, \<open>metadata_context.go\<close>): from an endpoint to a file system.
    \<open>Csi\<close> (\<open>csidriver\<close>, \<open>csidriver/mounter\<close>, \<open>cmd/unifs/mount.go\<close>) and \<open>Csi_Props\<close>: volumes, the three gRPC
    servers, the mounter and the mount command.
  \<^item> \<open>Fuse\<close> (\<open>pkg/fuse\<close>) and \<open>Fuse_Props\<close>: every handler of nodes and open files, and what they make of
    the WebDAV and the S3 file system.
  \<^item> \<open>Tar\<close> (\<open>pkg/tar\<close>), \<open>Tar_Props\<close>, \<open>Tar_S3\<close>: \<open>io.CopyN\<close> and the entries of \<open>archive/tar\<close>; the locales \<open>copying\<close> and
    \<open>file_reader\<close>; the archive of a tree, also of one on a WebDAV server; the import into S3.

  \<^bold>\<open>The properties.\<close> For each file system: what \<open>Stat\<close>, \<open>Readdir\<close>, \<open>Mkdir\<close> and \<open>RemoveAll\<close> answer in terms of the
  stored keys or of the server's tree; that uploads store the concatenation of their chunks; that a download
  delivers the stored bytes; that \<open>MkdirAll\<close> makes a directory and takes none away (the same lemma for all
  three, through \<open>dir_maker\<close>), and over S3 exactly when it succeeds and which placeholders it stores
  (\<open>S3_MkdirAll_makes\<close>). For the parts above them: confinement (the subtree view, requests below an
  endpoint, imported names), transparency of the wrapper, round trips (endpoints, XML values, entity
  tags), termination of the wait for a mount and of uploads, invariants of the step relations, and the
  composition of FUSE, of archives and of the FTP server with the file systems below. Where the code does not do what it
  means to, the theorem says what it does: for instance \<open>S3_Write_hides_failure\<close>, \<open>Dav_seek_start_hangs\<close>,
  \<open>Close_hides_failure\<close>, \<open>Dav_refused_upload_hangs\<close>, \<open>Fuse_S3_writes\<close>, \<open>Tar_import_confined\<close> and \<open>Ftp_S3_upload\<close>,
  or shows the race (\<open>driver_double_end_panics\<close>, \<open>driver_early_end\<close>, \<open>Shutdown_leaves_handlers\<close>).

  \<^bold>\<open>Fuel and bounds.\<close> Three recursions follow what a file system answers and get fuel, with \<open>None\<close> for too little:
  \<open>walkDir\<close>, whose fuel is the height of the tree (\<open>WalkDir_reference\<close>, \<open>Tar_export_archive\<close>);
  \<open>s3_RemoveAll\<close> and \<open>s3_Rename\<close>, whose fuel is the depth of the stored keys (\<open>S3_RemoveAll_removes\<close>). Two loops
  read until the other side ends, with a count of calls: \<open>read_loop\<close> and \<open>fuse_cat\<close>, for which one call more
  than there are bytes is enough (\<open>Dav_read_all\<close>, \<open>Fuse_Dav_reads\<close>); \<open>copy_loop\<close> of \<open>io.CopyN\<close> needs as
  many rounds as there are pieces, at most one for each byte. \<open>import_entries\<close> takes one entry of the
  archive in each round. Each theorem about such a definition names enough fuel and states the result; only
  \<open>Dav_seek_start_hangs\<close> states that none is enough. \<open>wait_from\<close>, the loop that waits for a mount, is a
  function with a termination proof, as are the loops of \<open>Go_Quote\<close>. A run of an upload of \<open>n\<close> chunks has no more steps than
  bytes and twice \<open>n\<close> and five (\<open>upload_ends\<close>).

  \<^bold>\<open>Not modelled.\<close>
  \<^item> \<open>memfs.go\<close> and \<open>local/fs.go\<close> hand out file systems of the WebDAV library; the backend keeps the directory of
    the local one.
  \<^item> The text of a time (\<open>http.TimeFormat\<close>) and the table of printable runes: parameters.
  \<^item> The byte format of archives and of HTTP; the entries, and the requests and answers, stand for them. TLS
    itself with the decoding of its keys, the logging calls (other than the wrapper's and the CSI driver's interceptor),
    and the registration of the commands.
  \<^item> The mutexes of files and connections: a file is used by one caller at a time, and a connection pool
    gives what it dials.
  \<^item> Generated files (\<open>zz_generated.runtimedoc.go\<close>), test helpers (\<open>testutil\<close>) and the development tool.
\<close>

end
